(* ===== verification/Prelude.thy ===== *)
theory Prelude
  imports Main "HOL-Library.Word" "HOL-Library.Sublist" "HOL-Library.AList"
begin

text \<open>
  What every component shares: the collections of simplification facts, the result type of
  fallible Go functions, and generic facts on lists, association lists and signed machine
  words.  Nothing here is specific to the cache.
\<close>

named_theorems go_strings \<open>the string functions of Go's standard library, unfolded\<close>
named_theorems go_header \<open>what the operations on a header map do to its values\<close>
named_theorems go_time \<open>durations read as signed integers\<close>

section \<open>Panics\<close>

text \<open>
  A Go function that may dereference a nil pointer or index out of range returns a value or
  panics.
\<close>

datatype 'a go_result = Returns 'a | Panic

fun bind_result :: "'a go_result \<Rightarrow> ('a \<Rightarrow> 'b go_result) \<Rightarrow> 'b go_result" where
  "bind_result (Returns x) f = f x"
| "bind_result Panic f = Panic"

section \<open>Bytes\<close>

text \<open>
  A Go string is a sequence of bytes; so is a HOL \<open>string\<close> (a list of 8-bit \<open>char\<close>s).
  \<open>byte\<close> reads a character as its code.
\<close>

definition byte :: "char \<Rightarrow> nat" where
  "byte c = of_char c"

lemma byte_less: "byte c < 256"
  by (simp add: byte_def)

lemma byte_inject [simp]: "byte c = byte d \<longleftrightarrow> c = d"
  by (simp add: byte_def)

lemma byte_char_of [simp]: "n < 256 \<Longrightarrow> byte (char_of n) = n"
  by (simp add: byte_def)

text \<open>The code of a character from its bits, for evaluation.\<close>

lemma byte_Char [code]:
  "byte (Char b0 b1 b2 b3 b4 b5 b6 b7) =
     of_bool b0 + 2 * (of_bool b1 + 2 * (of_bool b2 + 2 * (of_bool b3 + 2 * (of_bool b4
       + 2 * (of_bool b5 + 2 * (of_bool b6 + 2 * of_bool b7))))))"
  by (simp add: byte_def of_char_def)

lemma byte_apostrophe [code_unfold]: "byte c = 39 \<longleftrightarrow> c = CHR 0x27"
  using byte_inject [of c "CHR 0x27"] by (simp add: byte_Char del: byte_inject)

section \<open>Lists\<close>

lemma takeWhile_all: "(\<And>x. x \<in> set xs \<Longrightarrow> P x) \<Longrightarrow> takeWhile P xs = xs"
  by simp

lemma dropWhile_hd: "xs = [] \<or> \<not> P (hd xs) \<Longrightarrow> dropWhile P xs = xs"
  by (cases xs) auto

section \<open>Association lists\<close>

text \<open>Lookup after the library's update and delete, as one-key equations.\<close>

lemma map_of_update: "map_of (AList.update k v al) k' = (if k' = k then Some v else map_of al k')"
  by (simp add: update_conv')

lemma map_of_delete: "map_of (AList.delete k al) k' = (if k' = k then None else map_of al k')"
  by (simp add: delete_conv')

lemma fst_set_update: "fst ` set (AList.update k v al) = insert k (fst ` set al)"
  by (simp add: dom_update)

lemma snd_set_update: "snd ` set (AList.update k v al) \<subseteq> insert v (snd ` set al)"
proof (induction al)
  case (Cons p al)
  then show ?case by (cases p) auto
qed simp

lemma update_nonempty [simp]: "AList.update k v al \<noteq> []"
  by (cases al) auto

section \<open>Signed machine words\<close>

text \<open>
  Go's \<open>int64\<close> (and so \<open>time.Duration\<close>) is a 64-bit word read in two's complement.
  Sums and products that stay in range are the integer ones.
\<close>

abbreviation int64_min :: int where "int64_min \<equiv> - (2 ^ 63)"
abbreviation int64_max :: int where "int64_max \<equiv> 2 ^ 63 - 1"

definition in_int64 :: "int \<Rightarrow> bool" where
  "in_int64 i \<longleftrightarrow> int64_min \<le> i \<and> i \<le> int64_max"

lemma sint_in_int64: "in_int64 (sint (w :: 64 word))"
  using sint_range_size [of w] by (simp add: in_int64_def word_size)

lemma sint_of_int: "in_int64 i \<Longrightarrow> sint (word_of_int i :: 64 word) = i"
  by (subst sint_sbintrunc') (simp add: in_int64_def signed_take_bit_int_eq_self)

lemma sint_add64: "in_int64 (sint a + sint b) \<Longrightarrow> sint (a + b) = sint a + sint (b :: 64 word)"
  by (simp add: sint_word_ariths in_int64_def signed_take_bit_int_eq_self_iff)

lemma sint_mult64: "in_int64 (sint a * sint b) \<Longrightarrow> sint (a * b) = sint a * sint (b :: 64 word)"
  by (simp add: sint_word_ariths in_int64_def signed_take_bit_int_eq_self_iff)

lemma sint_add64_over:
  assumes "sint a + sint (b :: 64 word) > int64_max"
  shows "sint (a + b) = sint a + sint b - 2 ^ 64"
proof -
  have "sint (a + b) = signed_take_bit 63 (sint a + sint b)"
    by (simp add: sint_word_ariths)
  also have "\<dots> = signed_take_bit 63 (sint a + sint b - 2 ^ 64)"
  proof -
    have "take_bit (Suc 63) (sint a + sint b) = take_bit (Suc 63) (sint a + sint b - 2 ^ 64)"
      by (simp add: take_bit_eq_mod)
    then show ?thesis
      by (simp only: signed_take_bit_eq_iff_take_bit_eq)
  qed
  also have "\<dots> = sint a + sint b - 2 ^ 64"
    using assms sint_in_int64 [of a] sint_in_int64 [of b]
    by (simp add: in_int64_def signed_take_bit_int_eq_self_iff)
  finally show ?thesis .
qed

lemma sint_of_int_wrap:
  assumes "int64_max < i" and "i \<le> int64_max + 2 ^ 64"
  shows "sint (word_of_int i :: 64 word) = i - 2 ^ 64"
proof -
  have "(word_of_int i :: 64 word) = word_of_int (i - 2 ^ 64)"
    by (simp add: word_of_int_eq_iff take_bit_eq_mod)
  moreover have "in_int64 (i - 2 ^ 64)"
    using assms by (simp add: in_int64_def)
  ultimately show ?thesis by (simp only: sint_of_int)
qed

lemma word_sless_sint: "a <s b \<longleftrightarrow> sint a < sint (b :: 64 word)"
  by (simp add: word_sless_alt)

end
