(* ===== verification/GoStrings.thy ===== *)
theory GoStrings
  imports Prelude
begin

text \<open>
  The functions of Go's \<^verbatim>\<open>strings\<close> and \<^verbatim>\<open>strconv\<close> packages that the program calls,
  with the facts about cutting, splitting and case folding that the components share.
  Case folding and space trimming are those of ASCII text.
\<close>

section \<open>Case folding and trimming\<close>

definition is_upper :: "char \<Rightarrow> bool" where
  "is_upper c \<longleftrightarrow> 65 \<le> byte c \<and> byte c \<le> 90"

definition is_lower :: "char \<Rightarrow> bool" where
  "is_lower c \<longleftrightarrow> 97 \<le> byte c \<and> byte c \<le> 122"

definition is_digit :: "char \<Rightarrow> bool" where
  "is_digit c \<longleftrightarrow> 48 \<le> byte c \<and> byte c \<le> 57"

definition digit_val :: "char \<Rightarrow> nat" where
  "digit_val c = byte c - 48"

definition lower_byte :: "char \<Rightarrow> char" where
  "lower_byte c = (if is_upper c then char_of (byte c + 32) else c)"

definition upper_byte :: "char \<Rightarrow> char" where
  "upper_byte c = (if is_lower c then char_of (byte c - 32) else c)"

definition ToLower :: "string \<Rightarrow> string" where
  "ToLower s = map lower_byte s"

definition ToUpper :: "string \<Rightarrow> string" where
  "ToUpper s = map upper_byte s"

text \<open>Tab, line feed, vertical tab, form feed, carriage return and space.\<close>

definition is_space :: "char \<Rightarrow> bool" where
  "is_space c \<longleftrightarrow> (9 \<le> byte c \<and> byte c \<le> 13) \<or> byte c = 32"

definition trim_while :: "(char \<Rightarrow> bool) \<Rightarrow> string \<Rightarrow> string" where
  "trim_while P s = rev (dropWhile P (rev (dropWhile P s)))"

definition TrimSpace :: "string \<Rightarrow> string" where
  "TrimSpace s = trim_while is_space s"

definition Trim :: "string \<Rightarrow> string \<Rightarrow> string" where
  "Trim s cutset = trim_while (\<lambda>c. c \<in> set cutset) s"

definition TrimLeft :: "string \<Rightarrow> string \<Rightarrow> string" where
  "TrimLeft s cutset = dropWhile (\<lambda>c. c \<in> set cutset) s"

lemma byte_lower: "byte (lower_byte c) = (if is_upper c then byte c + 32 else byte c)"
  by (simp add: lower_byte_def is_upper_def)

text \<open>The same tests on the bits of a character, for evaluation.\<close>

lemma is_upper_code [code]:
  "is_upper (Char b0 b1 b2 b3 b4 b5 b6 b7) \<longleftrightarrow> 
     \<not> b7 \<and> b6 \<and> \<not> b5 \<and> (b0 \<or> b1 \<or> b2 \<or> b3 \<or> b4) \<and> \<not> (b4 \<and> b3 \<and> (b2 \<or> (b1 \<and> b0)))"
  unfolding is_upper_def byte_Char
  by (cases b0; cases b1; cases b2; cases b3; cases b4; cases b5; cases b6; cases b7; simp)

lemma is_lower_code [code]:
  "is_lower (Char b0 b1 b2 b3 b4 b5 b6 b7) \<longleftrightarrow> 
     \<not> b7 \<and> b6 \<and> b5 \<and> (b0 \<or> b1 \<or> b2 \<or> b3 \<or> b4) \<and> \<not> (b4 \<and> b3 \<and> (b2 \<or> (b1 \<and> b0)))"
  unfolding is_lower_def byte_Char
  by (cases b0; cases b1; cases b2; cases b3; cases b4; cases b5; cases b6; cases b7; simp)

lemma is_digit_code [code]:
  "is_digit (Char b0 b1 b2 b3 b4 b5 b6 b7) \<longleftrightarrow> 
     \<not> b7 \<and> \<not> b6 \<and> b5 \<and> b4 \<and> \<not> (b3 \<and> (b2 \<or> b1))"
  unfolding is_digit_def byte_Char
  by (cases b0; cases b1; cases b2; cases b3; cases b4; cases b5; cases b6; cases b7; simp)

lemma lower_byte_code [code]:
  "lower_byte (Char b0 b1 b2 b3 b4 b5 b6 b7) =
     Char b0 b1 b2 b3 b4 (b5 \<or> is_upper (Char b0 b1 b2 b3 b4 b5 b6 b7)) b6 b7"
proof -
  have "byte (lower_byte (Char b0 b1 b2 b3 b4 b5 b6 b7)) =
     byte (Char b0 b1 b2 b3 b4 (b5 \<or> is_upper (Char b0 b1 b2 b3 b4 b5 b6 b7)) b6 b7)"
    unfolding byte_lower is_upper_code byte_Char by (cases b5) (auto simp: of_bool_def)
  then show ?thesis by simp
qed

lemma is_space_code [code]:
  "is_space (Char b0 b1 b2 b3 b4 b5 b6 b7) \<longleftrightarrow>
     \<not> b7 \<and> \<not> b6 \<and> \<not> b4
     \<and> (if b5 then \<not> b3 \<and> \<not> b2 \<and> \<not> b1 \<and> \<not> b0 else b3 \<and> (b0 \<or> b1 \<or> b2) \<and> \<not> (b2 \<and> b1))"
  unfolding is_space_def byte_Char
  by (cases b0; cases b1; cases b2; cases b3; cases b4; cases b5; cases b6; cases b7; simp)

lemma lower_lower [simp]: "lower_byte (lower_byte c) = lower_byte c"
  by (simp add: lower_byte_def [of "lower_byte c"] is_upper_def [of "lower_byte c"] byte_lower)
     (auto simp: is_upper_def)

lemma ToLower_idem [simp]: "ToLower (ToLower s) = ToLower s"
  by (simp add: ToLower_def)

lemma length_ToLower [simp]: "length (ToLower s) = length s"
  by (simp add: ToLower_def)

lemma trim_while_id:
  assumes "s = [] \<or> (\<not> P (hd s) \<and> \<not> P (last s))"
  shows "trim_while P s = s"
  using assms by (auto simp: trim_while_def dropWhile_hd hd_rev)

section \<open>Prefixes, cutting and splitting\<close>

definition HasPrefix :: "string \<Rightarrow> string \<Rightarrow> bool" where
  "HasPrefix s p \<longleftrightarrow> prefix p s"

definition TrimPrefix :: "string \<Rightarrow> string \<Rightarrow> string" where
  "TrimPrefix s p = (if HasPrefix s p then drop (length p) s else s)"

definition HasSuffix :: "string \<Rightarrow> string \<Rightarrow> bool" where
  "HasSuffix s p \<longleftrightarrow> suffix p s"

text \<open>
  \<^verbatim>\<open>strings.Cut\<close>: the text before and after the first occurrence of the separator, \<open>None\<close>
  where there is none.
\<close>

fun Cut :: "string \<Rightarrow> string \<Rightarrow> (string \<times> string) option" where
  "Cut [] sep = (if sep = [] then Some ([], []) else None)"
| "Cut (c # cs) sep =
     (if prefix sep (c # cs) then Some ([], drop (length sep) (c # cs))
      else map_option (\<lambda>(a, b). (c # a, b)) (Cut cs sep))"

lemma Cut_Some: "Cut s sep = Some (a, b) \<Longrightarrow> s = a @ sep @ b"
proof (induction s sep arbitrary: a b rule: Cut.induct)
  case (2 c cs sep)
  then show ?case by (fastforce simp: prefix_def split: if_splits)
qed (auto split: if_splits)

lemma Cut_Some_length: "Cut s sep = Some (a, b) \<Longrightarrow> sep \<noteq> [] \<Longrightarrow> length b < length s"
  by (drule Cut_Some) simp

lemma Cut_absent: "x \<notin> set s \<Longrightarrow> Cut s (x # xs) = None"
  by (induction s) auto

lemma Cut_append: "x \<notin> set a \<Longrightarrow> Cut (a @ x # xs @ b) (x # xs) = Some (a, b)"
  by (induction a) auto

text \<open>
  \<^verbatim>\<open>strings.Split\<close>, for the non-empty separators the program uses (an empty one would split
  into characters), and \<^verbatim>\<open>strings.SplitN\<close> with limit 2.
\<close>

function Split :: "string \<Rightarrow> string \<Rightarrow> string list" where
  "Split s sep =
     (if sep = [] then [s]
      else case Cut s sep of None \<Rightarrow> [s] | Some (a, b) \<Rightarrow> a # Split b sep)"
  by pat_completeness auto
termination
  by (relation "measure (\<lambda>(s, sep). length s)") (auto dest: Cut_Some_length)

declare Split.simps [simp del]

definition SplitN2 :: "string \<Rightarrow> string \<Rightarrow> string list" where
  "SplitN2 s sep = (case Cut s sep of None \<Rightarrow> [s] | Some (a, b) \<Rightarrow> [a, b])"

lemma Split_nonempty [simp]: "Split s sep \<noteq> []"
  by (subst Split.simps) (simp split: option.splits)

lemma Split_absent: "x \<notin> set s \<Longrightarrow> Split s (x # xs) = [s]"
  by (subst Split.simps) (simp add: Cut_absent)

lemma Split_append: "x \<notin> set a \<Longrightarrow> Split (a @ x # xs @ b) (x # xs) = a # Split b (x # xs)"
  by (subst Split.simps) (simp add: Cut_append)

text \<open>Joining lines by a separator and splitting them again gives the lines back.\<close>

fun Join :: "string list \<Rightarrow> string \<Rightarrow> string" where
  "Join [] sep = []"
| "Join [a] sep = a"
| "Join (a # b # as) sep = a @ sep @ Join (b # as) sep"

lemma Split_Join:
  assumes "ls \<noteq> []" and "\<And>l. l \<in> set ls \<Longrightarrow> x \<notin> set l"
  shows "Split (Join ls (x # xs)) (x # xs) = ls"
  using assms
proof (induction ls "x # xs" rule: Join.induct)
  case (3 a b as)
  then show ?case using Split_append [of x a xs] by simp
qed (auto simp: Split_absent)

lemma Split_parts:
  "p \<in> set (Split s sep) \<Longrightarrow> set p \<subseteq> set s"
proof (induction s sep rule: Split.induct)
  case (1 s sep)
  show ?case
  proof (cases "sep = [] \<or> Cut s sep = None")
    case True
    with 1(2) show ?thesis by (subst (asm) Split.simps) (auto split: if_splits)
  next
    case False
    then obtain a b where ab: "sep \<noteq> []" "Cut s sep = Some (a, b)" by auto
    from ab(2) have "s = a @ sep @ b" by (rule Cut_Some)
    moreover from 1(2) ab have "p = a \<or> p \<in> set (Split b sep)"
      by (subst (asm) Split.simps) simp
    ultimately show ?thesis using 1(1)[OF ab(1) ab(2) refl] by auto
  qed
qed

section \<open>Numbers\<close>

text \<open>
  \<^verbatim>\<open>strconv.ParseUint(s, 10, 64)\<close>: digits only; the first error met from the left is
  reported, a syntax error or a value beyond \<open>2^64 - 1\<close>.
\<close>

datatype num_error = ErrSyntax | ErrRange

fun parse_digits :: "int \<Rightarrow> int \<Rightarrow> string \<Rightarrow> num_error + int" where
  "parse_digits bound acc [] = Inr acc"
| "parse_digits bound acc (c # cs) =
     (if \<not> is_digit c then Inl ErrSyntax
      else let n = 10 * acc + int (digit_val c)
           in if n > bound then Inl ErrRange else parse_digits bound n cs)"

definition ParseUint :: "string \<Rightarrow> num_error + 64 word" where
  "ParseUint s =
     (if s = [] then Inl ErrSyntax
      else map_sum id word_of_int (parse_digits 18446744073709551615 0 s))"

definition digit_char :: "nat \<Rightarrow> char" where
  "digit_char n = char_of (48 + n)"

fun show_nat :: "nat \<Rightarrow> string" where
  "show_nat n = (if n < 10 then [digit_char n] else show_nat (n div 10) @ [digit_char (n mod 10)])"

declare show_nat.simps [simp del]

definition show_int :: "int \<Rightarrow> string" where
  "show_int i = (if i < 0 then CHR ''-'' # show_nat (nat (- i)) else show_nat (nat i))"

text \<open>Printing over the integers, for evaluation.\<close>

definition dec_digit :: "int \<Rightarrow> char" where
  "dec_digit i =
     (if i = 0 then CHR ''0'' else if i = 1 then CHR ''1'' else if i = 2 then CHR ''2'' else if i = 3 then CHR ''3''
      else if i = 4 then CHR ''4'' else if i = 5 then CHR ''5'' else if i = 6 then CHR ''6'' else if i = 7 then CHR ''7''
      else if i = 8 then CHR ''8'' else CHR ''9'')"

lemma dec_digit: "n < 10 \<Longrightarrow> dec_digit (int n) = digit_char n"
proof -
  assume "n < 10"
  then have "byte (dec_digit (int n)) = 48 + n" by (simp add: dec_digit_def byte_Char)
  with \<open>n < 10\<close> show ?thesis
    using byte_char_of [of "48 + n"] byte_inject unfolding digit_char_def
    by (metis add_less_mono1 byte_less)
qed

function show_dec :: "int \<Rightarrow> string" where
  "show_dec i = (if i < 10 then [dec_digit i] else show_dec (i div 10) @ [dec_digit (i mod 10)])"
  by pat_completeness auto
termination by (relation "measure nat") auto

declare show_dec.simps [simp del]

lemma show_nat_dec: "show_nat n = show_dec (int n)"
proof (induction n rule: show_nat.induct)
  case (1 n)
  have "dec_digit (int n mod 10) = digit_char (n mod 10)"
    using dec_digit [of "n mod 10"] by (simp add: zmod_int)
  with 1 dec_digit [of n] show ?case
    by (subst show_nat.simps, subst show_dec.simps) (simp add: zdiv_int)
qed

lemma show_int_code [code]:
  "show_int i = (if i < 0 then CHR ''-'' # show_dec (- i) else show_dec i)"
  by (simp add: show_int_def show_nat_dec)

lemma digit_char_digit: "n < 10 \<Longrightarrow> is_digit (digit_char n) \<and> digit_val (digit_char n) = n"
  by (simp add: digit_char_def is_digit_def digit_val_def)

lemma show_nat_nonempty [simp]: "show_nat n \<noteq> []"
  by (subst show_nat.simps) simp

lemma show_nat_digits: "c \<in> set (show_nat n) \<Longrightarrow> is_digit c"
proof (induction n rule: show_nat.induct)
  case (1 n)
  then show ?case
    by (subst (asm) (2) show_nat.simps) (auto simp: digit_char_digit split: if_splits)
qed

lemma parse_digits_append:
  "parse_digits m acc (xs @ ys) =
     (case parse_digits m acc xs of Inl e \<Rightarrow> Inl e | Inr a \<Rightarrow> parse_digits m a ys)"
  by (induction m acc xs rule: parse_digits.induct) (auto simp: Let_def)

lemma parse_show_nat: "int n \<le> bound \<Longrightarrow> parse_digits bound 0 (show_nat n) = Inr (int n)"
proof (induction n rule: show_nat.induct)
  case (1 n)
  show ?case
  proof (cases "n < 10")
    case True
    with 1 show ?thesis by (subst show_nat.simps) (simp add: digit_char_digit)
  next
    case False
    have "int (n div 10) \<le> int n" by simp
    with False 1 have "parse_digits bound 0 (show_nat (n div 10)) = Inr (int (n div 10))" by simp
    moreover have "10 * int (n div 10) + int (n mod 10) = int n" by presburger
    ultimately show ?thesis
      using False 1(2) by (subst show_nat.simps) (simp add: parse_digits_append digit_char_digit)
  qed
qed

lemma ParseUint_show_nat:
  assumes "n < 2 ^ 64"
  shows "ParseUint (show_nat n) = Inr (of_nat n)"
  using assms parse_show_nat [of n "18446744073709551615"] by (simp add: ParseUint_def)

text \<open>\<^verbatim>\<open>strconv.Atoi\<close> on a 64-bit machine: an optional sign and digits.\<close>

definition Atoi :: "string \<Rightarrow> num_error + int" where
  "Atoi s =
     (let neg = HasPrefix s ''-'';
          ds = (if neg \<or> HasPrefix s ''+'' then tl s else s)
      in if ds = [] then Inl ErrSyntax
         else case parse_digits 18446744073709551615 0 ds of
                Inl e \<Rightarrow> Inl e
              | Inr n \<Rightarrow>
                  if neg then (if n > 9223372036854775808 then Inl ErrRange else Inr (- n))
                  else (if n > 9223372036854775807 then Inl ErrRange else Inr n))"

lemma Atoi_show_nat:
  assumes "int n \<le> 9223372036854775807"
  shows "Atoi (show_nat n) = Inr (int n)"
proof -
  obtain c cs where c: "show_nat n = c # cs" by (cases "show_nat n") simp_all
  then have "is_digit c" using show_nat_digits [of c n] by simp
  then have "c \<noteq> CHR ''-''" "c \<noteq> CHR ''+''" by (auto simp: is_digit_def byte_def)
  then have "\<not> HasPrefix (show_nat n) ''-''" "\<not> HasPrefix (show_nat n) ''+''"
    by (simp_all add: c HasPrefix_def)
  then show ?thesis
    using assms parse_show_nat [of n 18446744073709551615] by (simp add: Atoi_def)
qed

end
