(* ===== verification/GoTime.thy ===== *)
theory GoTime
  imports GoStrings
begin

text \<open>
  Go's \<^verbatim>\<open>time\<close> package, as far as the program uses it.  A \<^verbatim>\<open>time.Time\<close> is a wall clock
  instant, in nanoseconds since the Unix epoch; a \<^verbatim>\<open>time.Duration\<close> is an \<open>int64\<close> of
  nanoseconds whose arithmetic wraps around, while \<^verbatim>\<open>Time.Sub\<close> saturates.  Every time that
  the program subtracts comes from the database or from a header, so no monotonic clock
  reading takes part.
\<close>

type_synonym time = int
type_synonym duration = "64 word"

abbreviation ns_per_second :: int where "ns_per_second \<equiv> 1000000000"

definition Second :: duration where
  "Second = 1000000000"

text \<open>The zero \<^verbatim>\<open>time.Time{}\<close> is 1 January of year 1, UTC.\<close>

definition zero_time :: time where
  "zero_time = - 62135596800 * ns_per_second"

definition saturate :: "int \<Rightarrow> int" where
  "saturate i = max int64_min (min int64_max i)"

definition time_Sub :: "time \<Rightarrow> time \<Rightarrow> duration" where
  "time_Sub t u = word_of_int (saturate (t - u))"

definition time_Add :: "time \<Rightarrow> duration \<Rightarrow> time" where
  "time_Add t d = t + sint d"

text \<open>\<^verbatim>\<open>Time.Unix\<close> and \<^verbatim>\<open>time.Unix(s, 0)\<close>: whole seconds, rounded down.\<close>

definition time_Unix :: "time \<Rightarrow> int" where
  "time_Unix t = t div ns_per_second"

definition from_Unix :: "int \<Rightarrow> time" where
  "from_Unix s = s * ns_per_second"

lemma in_int64_saturate [simp]: "in_int64 (saturate i)"
  by (simp add: in_int64_def saturate_def)

lemma saturate_id: "in_int64 i \<Longrightarrow> saturate i = i"
  by (simp add: in_int64_def saturate_def)

lemma sint_time_Sub [go_time]: "sint (time_Sub t u) = saturate (t - u)"
  by (simp only: time_Sub_def sint_of_int in_int64_saturate)

lemma sint_Second [simp]: "sint Second = ns_per_second"
  by (simp add: Second_def)

lemma time_Unix_from_Unix [simp]: "time_Unix (from_Unix s) = s"
  by (simp add: time_Unix_def from_Unix_def)

text \<open>Storing a time in whole seconds loses less than one second, downwards.\<close>

lemma from_Unix_time_Unix:
  "from_Unix (time_Unix t) \<le> t \<and> t < from_Unix (time_Unix t) + ns_per_second"
  by (simp add: from_Unix_def time_Unix_def) presburger

section \<open>Calendar dates\<close>

definition leap_year :: "int \<Rightarrow> bool" where
  "leap_year y \<longleftrightarrow> y mod 4 = 0 \<and> (y mod 100 \<noteq> 0 \<or> y mod 400 = 0)"

text \<open>Days from 1 January 1970 to 1 January of a year (negative before 1970).\<close>

definition days_to_year :: "int \<Rightarrow> int" where
  "days_to_year y =
     365 * (y - 1970) + (y - 1) div 4 - (y - 1) div 100 + (y - 1) div 400 - 477"

definition days_in :: "int \<Rightarrow> int \<Rightarrow> int" where
  "days_in m y =
     (if m = 2 then if leap_year y then 29 else 28
      else if m \<in> {4, 6, 9, 11} then 30 else 31)"

fun days_before_month :: "int \<Rightarrow> nat \<Rightarrow> int" where
  "days_before_month y 0 = 0"
| "days_before_month y (Suc k) = days_before_month y k + days_in (int k + 1) y"

text \<open>\<^verbatim>\<open>time.Date\<close> in UTC; months count from 1.\<close>

definition unix_of_date :: "int \<Rightarrow> int \<Rightarrow> int \<Rightarrow> int \<Rightarrow> int \<Rightarrow> int \<Rightarrow> int" where
  "unix_of_date y m d h mi s =
     86400 * (days_to_year y + days_before_month y (nat (m - 1)) + (d - 1))
     + 3600 * h + 60 * mi + s"

section \<open>Parsing a date by a layout\<close>

text \<open>
  \<^verbatim>\<open>time.Parse\<close>: the layout is a list of literal prefixes, each followed by one element,
  as \<^verbatim>\<open>nextStdChunk\<close> cuts it.  A run of spaces of the layout matches a run of spaces of the
  value.  Zone names are looked up in the local time zone of the process (the parameter
  \<open>tz\<close>, a name and an instant giving an offset); an unknown one becomes a zone of that name
  with no offset.  The result carries the name of the resulting location.
\<close>

datatype layout_std =
    StdWeekDay | StdLongWeekDay | StdZeroDay | StdUnderDay | StdMonth | StdLongYear
  | StdYear | StdHour | StdZeroMinute | StdZeroSecond | StdTZ

type_synonym layout = "(string \<times> layout_std) list"
type_synonym zones = "string \<Rightarrow> int \<Rightarrow> int option"

text \<open>A process whose local time zone is UTC: no zone name is found there.\<close>

definition utc_zones :: zones where
  "utc_zones = (\<lambda>_ _. None)"

record date_fields =
  df_year :: int
  df_month :: int
  df_day :: int
  df_hour :: int
  df_min :: int
  df_sec :: int
  df_nsec :: int
  df_utc :: bool
  df_zone :: string

definition no_fields :: date_fields where
  "no_fields = \<lparr>df_year = 0, df_month = -1, df_day = -1, df_hour = 0, df_min = 0,
     df_sec = 0, df_nsec = 0, df_utc = False, df_zone = []\<rparr>"

definition month_names :: "string list" where
  "month_names = [''Jan'', ''Feb'', ''Mar'', ''Apr'', ''May'', ''Jun'', ''Jul'', ''Aug'',
     ''Sep'', ''Oct'', ''Nov'', ''Dec'']"

definition short_days :: "string list" where
  "short_days = [''Sun'', ''Mon'', ''Tue'', ''Wed'', ''Thu'', ''Fri'', ''Sat'']"

definition long_days :: "string list" where
  "long_days = [''Sunday'', ''Monday'', ''Tuesday'', ''Wednesday'', ''Thursday'', ''Friday'',
     ''Saturday'']"

definition cutspace :: "string \<Rightarrow> string" where
  "cutspace s = dropWhile (\<lambda>c. c = CHR '' '') s"

lemma length_cutspace: "length (cutspace s) \<le> length s"
  by (simp add: cutspace_def length_dropWhile_le)

text \<open>\<open>skip value prefix\<close>; \<open>None\<close> is \<^verbatim>\<open>errBad\<close>.\<close>

function skip :: "string \<Rightarrow> string \<Rightarrow> string option" where
  "skip value [] = Some value"
| "skip value (p # ps) =
     (if p = CHR '' '' then
        if value \<noteq> [] \<and> hd value \<noteq> CHR '' '' then None
        else skip (cutspace value) (cutspace (p # ps))
      else if value = [] \<or> hd value \<noteq> p then None
      else skip (tl value) ps)"
  by pat_completeness auto
termination
  by (relation "measure (\<lambda>(value, pre). length pre)")
     (auto simp: cutspace_def le_imp_less_Suc length_dropWhile_le)

fun lookup_name :: "string list \<Rightarrow> int \<Rightarrow> string \<Rightarrow> (int \<times> string) option" where
  "lookup_name [] i val = None"
| "lookup_name (v # tab) i val =
     (if length v \<le> length val \<and> ToLower (take (length v) val) = ToLower v
      then Some (i, drop (length v) val) else lookup_name tab (i + 1) val)"

definition digit_at :: "string \<Rightarrow> nat \<Rightarrow> bool" where
  "digit_at s i \<longleftrightarrow> i < length s \<and> is_digit (s ! i)"

definition getnum :: "string \<Rightarrow> bool \<Rightarrow> (int \<times> string) option" where
  "getnum s fixed =
     (if \<not> digit_at s 0 then None
      else if \<not> digit_at s 1 then
        if fixed then None else Some (int (digit_val (s ! 0)), drop 1 s)
      else Some (10 * int (digit_val (s ! 0)) + int (digit_val (s ! 1)), drop 2 s))"

text \<open>The package's own \<^verbatim>\<open>atoi\<close>: an optional sign, then digits to the end.\<close>

definition digits_value :: "string \<Rightarrow> int option" where
  "digits_value s =
     (if list_all is_digit s then Some (foldl (\<lambda>a c. 10 * a + int (digit_val c)) 0 s) else None)"

definition time_atoi :: "string \<Rightarrow> int option" where
  "time_atoi s =
     (case s of
        c # cs \<Rightarrow>
          if c = CHR ''-'' then map_option uminus (digits_value cs)
          else if c = CHR ''+'' then digits_value cs
          else digits_value s
      | [] \<Rightarrow> digits_value s)"

text \<open>
  \<^verbatim>\<open>parseTimeZone\<close>: the length of the zone abbreviation at the start of the value.
  \<^verbatim>\<open>parseSignedOffset\<close> takes a sign and a number below 24.
\<close>

definition parse_signed_offset :: "string \<Rightarrow> nat" where
  "parse_signed_offset s =
     (case s of
        [] \<Rightarrow> 0
      | c # cs \<Rightarrow>
          if c \<noteq> CHR ''-'' \<and> c \<noteq> CHR ''+'' then 0
          else let ds = takeWhile is_digit cs
               in case digits_value ds of
                    None \<Rightarrow> 0
                  | Some x \<Rightarrow> if ds = [] \<or> x > 23 then 0 else 1 + length ds)"

definition parse_time_zone :: "string \<Rightarrow> nat option" where
  "parse_time_zone value =
     (if length value < 3 then None
      else if take 4 value = ''ChST'' \<or> take 4 value = ''MeST'' then Some 4
      else if take 3 value = ''GMT'' then
        (if length value = 3 then Some 3 else Some (3 + parse_signed_offset (drop 3 value)))
      else if hd value = CHR ''+'' \<or> hd value = CHR ''-'' then
        (let n = parse_signed_offset value in if n > 0 then Some n else None)
      else
        (let n = length (takeWhile is_upper (take 6 value))
         in if n = 5 then (if value ! 4 = CHR ''T'' then Some 5 else None)
            else if n = 4 then
              (if value ! 3 = CHR ''T'' \<or> take 4 value = ''WITA'' then Some 4 else None)
            else if n = 3 then Some 3 else None))"

text \<open>
  A fraction after the seconds is taken although the layout has none: a point or a comma and
  at least one digit, of which nine count.
\<close>

definition take_fraction :: "string \<Rightarrow> int \<times> string" where
  "take_fraction value =
     (if length value \<ge> 2 \<and> (hd value = CHR ''.'' \<or> hd value = CHR '','') \<and> digit_at value 1 then
        let ds = takeWhile is_digit (tl value); used = take 9 ds
        in (foldl (\<lambda>a c. 10 * a + int (digit_val c)) 0 used * 10 ^ (9 - length used),
            drop (1 + length ds) value)
      else (0, value))"

text \<open>One element of the layout; \<open>None\<close> for an error of any kind.\<close>

fun parse_std :: "layout_std \<Rightarrow> date_fields \<Rightarrow> string \<Rightarrow> (date_fields \<times> string) option" where
  "parse_std StdWeekDay f v = map_option (\<lambda>(i, r). (f, r)) (lookup_name short_days 0 v)"
| "parse_std StdLongWeekDay f v = map_option (\<lambda>(i, r). (f, r)) (lookup_name long_days 0 v)"
| "parse_std StdMonth f v =
     map_option (\<lambda>(i, r). (f\<lparr>df_month := i + 1\<rparr>, r)) (lookup_name month_names 0 v)"
| "parse_std StdZeroDay f v = map_option (\<lambda>(d, r). (f\<lparr>df_day := d\<rparr>, r)) (getnum v True)"
| "parse_std StdUnderDay f v =
     (let v' = (if v \<noteq> [] \<and> hd v = CHR '' '' then tl v else v)
      in map_option (\<lambda>(d, r). (f\<lparr>df_day := d\<rparr>, r)) (getnum v' False))"
| "parse_std StdLongYear f v =
     (if length v < 4 \<or> \<not> digit_at v 0 then None
      else map_option (\<lambda>y. (f\<lparr>df_year := y\<rparr>, drop 4 v)) (time_atoi (take 4 v)))"
| "parse_std StdYear f v =
     (if length v < 2 then None
      else map_option (\<lambda>y. (f\<lparr>df_year := (if y \<ge> 69 then y + 1900 else y + 2000)\<rparr>, drop 2 v))
             (time_atoi (take 2 v)))"
| "parse_std StdHour f v =
     (case getnum v False of None \<Rightarrow> None
      | Some (h, r) \<Rightarrow> if h < 0 \<or> 24 \<le> h then None else Some (f\<lparr>df_hour := h\<rparr>, r))"
| "parse_std StdZeroMinute f v =
     (case getnum v True of None \<Rightarrow> None
      | Some (m, r) \<Rightarrow> if m < 0 \<or> 60 \<le> m then None else Some (f\<lparr>df_min := m\<rparr>, r))"
| "parse_std StdZeroSecond f v =
     (case getnum v True of None \<Rightarrow> None
      | Some (s, r) \<Rightarrow>
          if s < 0 \<or> 60 \<le> s then None
          else let (ns, r') = take_fraction r in Some (f\<lparr>df_sec := s, df_nsec := ns\<rparr>, r'))"
| "parse_std StdTZ f v =
     (if take 3 v = ''UTC'' then Some (f\<lparr>df_utc := True\<rparr>, drop 3 v)
      else map_option (\<lambda>n. (f\<lparr>df_zone := take n v\<rparr>, drop n v)) (parse_time_zone v))"

fun parse_layout :: "layout \<Rightarrow> date_fields \<Rightarrow> string \<Rightarrow> date_fields option" where
  "parse_layout [] f value = (if value = [] then Some f else None)"
| "parse_layout ((pre, std) # rest) f value =
     (case skip value pre of None \<Rightarrow> None
      | Some v \<Rightarrow>
          (case parse_std std f v of None \<Rightarrow> None
           | Some (f', r) \<Rightarrow> parse_layout rest f' r))"

definition date_of_fields :: "zones \<Rightarrow> date_fields \<Rightarrow> (time \<times> string) option" where
  "date_of_fields tz f =
     (let m = (if df_month f < 0 then 1 else df_month f);
          d = (if df_day f < 0 then 1 else df_day f);
          u = unix_of_date (df_year f) m d (df_hour f) (df_min f) (df_sec f)
      in if d < 1 \<or> d > days_in m (df_year f) then None
         else if df_utc f \<or> df_zone f = [] then
           Some (u * ns_per_second + df_nsec f, ''UTC'')
         else
           (case tz (df_zone f) u of
              Some off \<Rightarrow> Some ((u - off) * ns_per_second + df_nsec f, ''Local'')
            | None \<Rightarrow> Some (u * ns_per_second + df_nsec f, df_zone f)))"

definition time_Parse :: "zones \<Rightarrow> layout \<Rightarrow> string \<Rightarrow> (time \<times> string) option" where
  "time_Parse tz lay value = Option.bind (parse_layout lay no_fields value) (date_of_fields tz)"

end
