(* ===== verification/GoUrl.thy ===== *)
theory GoUrl
  imports GoStrings
begin

text \<open>
  Go's \<^verbatim>\<open>net/url\<close> package as far as the program uses it: \<^verbatim>\<open>Parse\<close>, \<^verbatim>\<open>URL.String\<close>,
  \<^verbatim>\<open>URL.RequestURI\<close> and \<^verbatim>\<open>URL.ResolveReference\<close>, with the escaping they rest on.
  A parse error of any kind is \<open>None\<close>; \<^verbatim>\<open>url.Parse\<close> then returns a nil pointer.
\<close>

record userinfo =
  ui_username :: string
  ui_password :: "string option"

record url =
  u_scheme :: string
  u_opaque :: string
  u_user :: "userinfo option"
  u_host :: string
  u_path :: string
  u_raw_path :: string
  u_omit_host :: bool
  u_force_query :: bool
  u_raw_query :: string
  u_fragment :: string
  u_raw_fragment :: string

definition empty_url :: url where
  "empty_url = \<lparr>u_scheme = [], u_opaque = [], u_user = None, u_host = [], u_path = [],
     u_raw_path = [], u_omit_host = False, u_force_query = False, u_raw_query = [],
     u_fragment = [], u_raw_fragment = []\<rparr>"

section \<open>Escaping\<close>

datatype url_mode = EncPath | EncUserPassword | EncHost | EncZone | EncFragment

definition is_alnum :: "char \<Rightarrow> bool" where
  "is_alnum c \<longleftrightarrow> is_lower c \<or> is_upper c \<or> is_digit c"

definition shouldEscape :: "url_mode \<Rightarrow> char \<Rightarrow> bool" where
  "shouldEscape mode c =
     (if is_alnum c then False
      else if (mode = EncHost \<or> mode = EncZone) \<and> List.member ''!$&'' c then False
      else if (mode = EncHost \<or> mode = EncZone) \<and> List.member ''()*+,;=:[]<>'' c then False
      else if (mode = EncHost \<or> mode = EncZone) \<and> (byte c = 34 \<or> byte c = 39) then False
      else if List.member ''-_.~'' c then False
      else if List.member ''$&+,/:;=?@'' c then
        (case mode of
           EncPath \<Rightarrow> c = CHR ''?''
         | EncUserPassword \<Rightarrow> List.member ''@/?:'' c
         | EncFragment \<Rightarrow> False
         | _ \<Rightarrow> True)
      else if mode = EncFragment \<and> List.member ''!()*'' c then False
      else True)"

definition hex_digit :: "nat \<Rightarrow> char" where
  "hex_digit n = ''0123456789ABCDEF'' ! n"

definition is_hex :: "char \<Rightarrow> bool" where
  "is_hex c \<longleftrightarrow> is_digit c \<or> (97 \<le> byte c \<and> byte c \<le> 102) \<or> (65 \<le> byte c \<and> byte c \<le> 70)"

definition unhex :: "char \<Rightarrow> nat" where
  "unhex c = (if is_digit c then byte c - 48 else if 97 \<le> byte c then byte c - 87 else byte c - 55)"

definition escape_char :: "url_mode \<Rightarrow> char \<Rightarrow> string" where
  "escape_char mode c =
     (if shouldEscape mode c
      then [CHR ''%'', hex_digit (byte c div 16), hex_digit (byte c mod 16)] else [c])"

definition escape :: "url_mode \<Rightarrow> string \<Rightarrow> string" where
  "escape mode s = concat (map (escape_char mode) s)"

fun unescape :: "url_mode \<Rightarrow> string \<Rightarrow> string option" where
  "unescape mode [] = Some []"
| "unescape mode (c # cs) =
     (if c = CHR ''%'' then
        (case cs of
           a # b # rest \<Rightarrow>
             if \<not> is_hex a \<or> \<not> is_hex b then None
             else if mode = EncHost \<and> unhex a < 8 \<and> [a, b] \<noteq> ''25'' then None
             else if mode = EncZone \<and> [a, b] \<noteq> ''25'' \<and> 16 * unhex a + unhex b \<noteq> 32
                     \<and> shouldEscape EncHost (char_of (16 * unhex a + unhex b)) then None
             else map_option ((#) (char_of (16 * unhex a + unhex b))) (unescape mode rest)
         | _ \<Rightarrow> None)
      else if (mode = EncHost \<or> mode = EncZone) \<and> byte c < 128 \<and> shouldEscape mode c then None
      else map_option ((#) c) (unescape mode cs))"

definition valid_encoded_byte :: "url_mode \<Rightarrow> char \<Rightarrow> bool" where
  "valid_encoded_byte mode c \<longleftrightarrow>
     List.member ''!$&()*+,;=:@[]%'' c \<or> byte c = 39 \<or> \<not> shouldEscape mode c"

definition validEncoded :: "string \<Rightarrow> url_mode \<Rightarrow> bool" where
  "validEncoded s mode \<longleftrightarrow> list_all (valid_encoded_byte mode) s"

text \<open>\<^verbatim>\<open>setPath\<close> and \<^verbatim>\<open>setFragment\<close> keep the raw form only where it is not the default one.\<close>

definition setPath :: "url \<Rightarrow> string \<Rightarrow> url option" where
  "setPath u p =
     (case unescape EncPath p of None \<Rightarrow> None
      | Some path \<Rightarrow>
          Some (u\<lparr>u_path := path, u_raw_path := (if p = escape EncPath path then [] else p)\<rparr>))"

definition setFragment :: "url \<Rightarrow> string \<Rightarrow> url option" where
  "setFragment u f =
     (case unescape EncFragment f of None \<Rightarrow> None
      | Some frag \<Rightarrow>
          Some (u\<lparr>u_fragment := frag,
                  u_raw_fragment := (if f = escape EncFragment frag then [] else f)\<rparr>))"

definition EscapedPath :: "url \<Rightarrow> string" where
  "EscapedPath u =
     (if u_raw_path u \<noteq> [] \<and> validEncoded (u_raw_path u) EncPath
         \<and> unescape EncPath (u_raw_path u) = Some (u_path u) then u_raw_path u
      else if u_path u = ''*'' then ''*''
      else escape EncPath (u_path u))"

definition EscapedFragment :: "url \<Rightarrow> string" where
  "EscapedFragment u =
     (if u_raw_fragment u \<noteq> [] \<and> validEncoded (u_raw_fragment u) EncFragment
         \<and> unescape EncFragment (u_raw_fragment u) = Some (u_fragment u) then u_raw_fragment u
      else escape EncFragment (u_fragment u))"

section \<open>Authority\<close>

definition last_index :: "char \<Rightarrow> string \<Rightarrow> nat option" where
  "last_index c s =
     (let r = length (takeWhile (\<lambda>x. x \<noteq> c) (rev s))
      in if c \<in> set s then Some (length s - 1 - r) else None)"

definition validOptionalPort :: "string \<Rightarrow> bool" where
  "validOptionalPort p \<longleftrightarrow> p = [] \<or> (hd p = CHR '':'' \<and> list_all is_digit (tl p))"

definition valid_userinfo_byte :: "char \<Rightarrow> bool" where
  "valid_userinfo_byte c \<longleftrightarrow> is_alnum c \<or> List.member ''-._:~!$&()*+,;=%@'' c \<or> byte c = 39"

definition parseHost :: "string \<Rightarrow> string option" where
  "parseHost host =
     (if HasPrefix host ''['' then
        (case last_index (CHR '']'') host of None \<Rightarrow> None
         | Some i \<Rightarrow>
             if \<not> validOptionalPort (drop (i + 1) host) then None
             else (case Cut (take i host) ''%25'' of
                     None \<Rightarrow> unescape EncHost host
                   | Some (before, _) \<Rightarrow>
                       let z = length before in
                       Option.bind (unescape EncHost (take z host)) (\<lambda>h1.
                       Option.bind (unescape EncZone (drop z (take i host))) (\<lambda>h2.
                       map_option (\<lambda>h3. h1 @ h2 @ h3) (unescape EncHost (drop i host))))))
      else
        (case last_index (CHR '':'') host of
           None \<Rightarrow> unescape EncHost host
         | Some i \<Rightarrow> if validOptionalPort (drop i host) then unescape EncHost host else None))"

definition parseAuthority :: "string \<Rightarrow> (userinfo option \<times> string) option" where
  "parseAuthority authority =
     (case last_index (CHR ''@'') authority of
        None \<Rightarrow> map_option (Pair None) (parseHost authority)
      | Some i \<Rightarrow>
          (case parseHost (drop (i + 1) authority) of None \<Rightarrow> None
           | Some host \<Rightarrow>
               let info = take i authority in
               if \<not> list_all valid_userinfo_byte info then None
               else (case Cut info '':'' of
                       None \<Rightarrow>
                         map_option (\<lambda>n. (Some \<lparr>ui_username = n, ui_password = None\<rparr>, host))
                           (unescape EncUserPassword info)
                     | Some (name, pw) \<Rightarrow>
                         Option.bind (unescape EncUserPassword name) (\<lambda>n.
                         map_option (\<lambda>p. (Some \<lparr>ui_username = n, ui_password = Some p\<rparr>, host))
                           (unescape EncUserPassword pw)))))"

section \<open>Parsing\<close>

text \<open>\<^verbatim>\<open>getScheme\<close>: \<open>None\<close> for a missing scheme before a colon.\<close>

fun scheme_split :: "string \<Rightarrow> string \<Rightarrow> (string \<times> string) option" where
  "scheme_split seen [] = None"
| "scheme_split seen (c # cs) =
     (if is_lower c \<or> is_upper c then scheme_split (seen @ [c]) cs
      else if is_digit c \<or> List.member ''+-.'' c then
        if seen = [] then None else scheme_split (seen @ [c]) cs
      else if c = CHR '':'' then Some (seen, cs)
      else None)"

definition getScheme :: "string \<Rightarrow> (string \<times> string) option" where
  "getScheme raw =
     (case scheme_split [] raw of
        None \<Rightarrow> Some ([], raw)
      | Some (s, rest) \<Rightarrow> if s = [] then None else Some (s, rest))"

definition ctl_byte :: "char \<Rightarrow> bool" where
  "ctl_byte c \<longleftrightarrow> byte c < 32 \<or> byte c = 127"

lemma ctl_byte_code [code]:
  "ctl_byte (Char b0 b1 b2 b3 b4 b5 b6 b7) \<longleftrightarrow> 
     \<not> b7 \<and> ((\<not> b6 \<and> \<not> b5) \<or> (b6 \<and> b5 \<and> b4 \<and> b3 \<and> b2 \<and> b1 \<and> b0))"
  unfolding ctl_byte_def byte_Char
  by (cases b0; cases b1; cases b2; cases b3; cases b4; cases b5; cases b6; cases b7; simp)

definition cut_query :: "string \<Rightarrow> string \<times> bool \<times> string" where
  "cut_query rest =
     (if HasSuffix rest ''?'' \<and> count_list rest (CHR ''?'') = 1 then (butlast rest, True, [])
      else case Cut rest ''?'' of None \<Rightarrow> (rest, False, []) | Some (a, q) \<Rightarrow> (a, False, q))"

definition colon_in_first_segment :: "string \<Rightarrow> bool" where
  "colon_in_first_segment s \<longleftrightarrow> CHR '':'' \<in> set (takeWhile (\<lambda>c. c \<noteq> CHR ''/'') s)"

text \<open>\<^verbatim>\<open>parse(rawURL, viaRequest = false)\<close>.\<close>

definition parse_url :: "string \<Rightarrow> url option" where
  "parse_url raw =
     (if list_ex ctl_byte raw then None
      else if raw = ''*'' then Some (empty_url\<lparr>u_path := ''*''\<rparr>)
      else case getScheme raw of None \<Rightarrow> None
      | Some (scheme, rest0) \<Rightarrow>
          let (rest, force, query) = cut_query rest0;
              u = empty_url\<lparr>u_scheme := ToLower scheme, u_force_query := force,
                            u_raw_query := query\<rparr>
          in if \<not> HasPrefix rest ''/'' \<and> scheme \<noteq> [] then Some (u\<lparr>u_opaque := rest\<rparr>)
             else if \<not> HasPrefix rest ''/'' \<and> colon_in_first_segment rest then None
             else if (scheme \<noteq> [] \<or> \<not> HasPrefix rest ''///'') \<and> HasPrefix rest ''//'' then
               let auth = takeWhile (\<lambda>c. c \<noteq> CHR ''/'') (drop 2 rest);
                   path = dropWhile (\<lambda>c. c \<noteq> CHR ''/'') (drop 2 rest)
               in (case parseAuthority auth of None \<Rightarrow> None
                   | Some (user, host) \<Rightarrow> setPath (u\<lparr>u_user := user, u_host := host\<rparr>) path)
             else
               setPath (u\<lparr>u_omit_host := (scheme \<noteq> [] \<and> HasPrefix rest ''/'')\<rparr>) rest)"

text \<open>\<^verbatim>\<open>url.Parse\<close>.\<close>

definition url_Parse :: "string \<Rightarrow> url option" where
  "url_Parse raw =
     (let (u, frag) = (case Cut raw ''#'' of None \<Rightarrow> (raw, []) | Some (a, f) \<Rightarrow> (a, f))
      in case parse_url u of None \<Rightarrow> None
         | Some v \<Rightarrow> if frag = [] then Some v else setFragment v frag)"

section \<open>Printing and resolving\<close>

definition userinfo_String :: "userinfo \<Rightarrow> string" where
  "userinfo_String ui = escape EncUserPassword (ui_username ui) @
     (case ui_password ui of None \<Rightarrow> [] | Some p \<Rightarrow> '':'' @ escape EncUserPassword p)"

definition authority_String :: "url \<Rightarrow> string" where
  "authority_String u =
     (if u_scheme u \<noteq> [] \<or> u_host u \<noteq> [] \<or> u_user u \<noteq> None then
        if u_omit_host u \<and> u_host u = [] \<and> u_user u = None then []
        else (if u_host u \<noteq> [] \<or> u_path u \<noteq> [] \<or> u_user u \<noteq> None then ''//'' else [])
             @ (case u_user u of None \<Rightarrow> [] | Some ui \<Rightarrow> userinfo_String ui @ ''@'')
             @ escape EncHost (u_host u)
      else [])"

definition url_String :: "url \<Rightarrow> string" where
  "url_String u =
     (let scheme = (if u_scheme u \<noteq> [] then u_scheme u @ '':'' else []);
          rest =
            (if u_opaque u \<noteq> [] then u_opaque u
             else let path = EscapedPath u;
                      auth = authority_String u;
                      slash = (if path \<noteq> [] \<and> hd path \<noteq> CHR ''/'' \<and> u_host u \<noteq> [] then ''/'' else []);
                      dot = (if scheme @ auth @ slash = [] \<and> colon_in_first_segment path
                             then ''./'' else [])
                  in auth @ slash @ dot @ path)
      in scheme @ rest
         @ (if u_force_query u \<or> u_raw_query u \<noteq> [] then ''?'' @ u_raw_query u else [])
         @ (if u_fragment u \<noteq> [] then ''#'' @ EscapedFragment u else []))"

definition RequestURI :: "url \<Rightarrow> string" where
  "RequestURI u =
     (let base =
            (if u_opaque u = [] then
               (if EscapedPath u = [] then ''/'' else EscapedPath u)
             else if HasPrefix (u_opaque u) ''//'' then u_scheme u @ '':'' @ u_opaque u
             else u_opaque u)
      in base @ (if u_force_query u \<or> u_raw_query u \<noteq> [] then ''?'' @ u_raw_query u else []))"

text \<open>
  \<^verbatim>\<open>resolvePath\<close>: the loop over the path elements keeps the text written so far (\<open>dst\<close>) and
  whether the next element is the first one.
\<close>

definition up_to_last_slash :: "string \<Rightarrow> string" where
  "up_to_last_slash s = rev (dropWhile (\<lambda>c. c \<noteq> CHR ''/'') (rev s))"

fun resolve_elems :: "string \<Rightarrow> bool \<Rightarrow> string list \<Rightarrow> string" where
  "resolve_elems dst isfirst [] = dst"
| "resolve_elems dst isfirst (e # es) =
     (if e = ''.'' then resolve_elems dst False es
      else if e = ''..'' then
        (case last_index (CHR ''/'') (tl dst) of
           None \<Rightarrow> resolve_elems ''/'' True es
         | Some i \<Rightarrow> resolve_elems (CHR ''/'' # take i (tl dst)) isfirst es)
      else resolve_elems (dst @ (if isfirst then [] else ''/'') @ e) False es)"

definition resolvePath :: "string \<Rightarrow> string \<Rightarrow> string" where
  "resolvePath base ref =
     (let full = (if ref = [] then base
                  else if hd ref \<noteq> CHR ''/'' then up_to_last_slash base @ ref
                  else ref)
      in if full = [] then []
         else let elems = Split full ''/'';
                  dst = resolve_elems ''/'' True elems;
                  r = dst @ (if last elems = ''.'' \<or> last elems = ''..'' then ''/'' else [])
              in if length r > 1 \<and> r ! 1 = CHR ''/'' then tl r else r)"

text \<open>An error of \<^verbatim>\<open>setPath\<close> leaves the path as it was.\<close>

definition setPath_or_keep :: "url \<Rightarrow> string \<Rightarrow> url" where
  "setPath_or_keep u p = (case setPath u p of None \<Rightarrow> u | Some v \<Rightarrow> v)"

definition ResolveReference :: "url \<Rightarrow> url \<Rightarrow> url" where
  "ResolveReference u ref =
     (let v = (if u_scheme ref = [] then ref\<lparr>u_scheme := u_scheme u\<rparr> else ref)
      in if u_scheme ref \<noteq> [] \<or> u_host ref \<noteq> [] \<or> u_user ref \<noteq> None then
           setPath_or_keep v (resolvePath (EscapedPath ref) [])
         else if u_opaque ref \<noteq> [] then
           v\<lparr>u_user := None, u_host := [], u_path := []\<rparr>
         else
           let v1 = (if u_path ref = [] \<and> \<not> u_force_query ref \<and> u_raw_query ref = [] then
                       let w = v\<lparr>u_raw_query := u_raw_query u\<rparr>
                       in if u_fragment ref = []
                          then w\<lparr>u_fragment := u_fragment u, u_raw_fragment := u_raw_fragment u\<rparr>
                          else w
                     else v);
               v2 = v1\<lparr>u_host := u_host u, u_user := u_user u\<rparr>
           in setPath_or_keep v2 (resolvePath (EscapedPath u) (EscapedPath ref)))"

section \<open>Escaping round trip\<close>

lemma hex_digit_hex: "n < 16 \<Longrightarrow> is_hex (hex_digit n) \<and> unhex (hex_digit n) = n"
proof -
  have "list_all (\<lambda>n. is_hex (hex_digit n) \<and> unhex (hex_digit n) = n) [0..<16]" by code_simp
  then show "n < 16 \<Longrightarrow> ?thesis" by (simp add: list_all_iff)
qed

text \<open>A path that is escaped and unescaped again is the same path.\<close>

lemma unescape_escape_path: "unescape EncPath (escape EncPath s) = Some s"
proof (induction s)
  case Nil
  then show ?case by (simp add: escape_def)
next
  case (Cons c s)
  show ?case
  proof (cases "shouldEscape EncPath c")
    case True
    have hi: "byte c div 16 < 16" using byte_less [of c] by simp
    have "16 * (byte c div 16) + byte c mod 16 = byte c" by simp
    then have "char_of (16 * unhex (hex_digit (byte c div 16)) + unhex (hex_digit (byte c mod 16))) = c"
      using hex_digit_hex [OF hi] hex_digit_hex [of "byte c mod 16"] by (simp add: byte_def)
    with True Cons hex_digit_hex [OF hi] hex_digit_hex [of "byte c mod 16"] show ?thesis
      by (simp add: escape_def escape_char_def)
  next
    case False
    then have "c \<noteq> CHR ''%''"
      by (auto simp: shouldEscape_def is_alnum_def is_lower_def is_upper_def is_digit_def byte_def)
    with False Cons show ?thesis by (simp add: escape_def escape_char_def)
  qed
qed

section \<open>Request URIs parse back\<close>

text \<open>
  The URL of a request as a server reads it from the request line: a rooted path that does not
  start with two slashes and a query, neither scheme nor host nor fragment.
\<close>

definition server_url :: "url \<Rightarrow> bool" where
  "server_url u \<longleftrightarrow>
     u_scheme u = [] \<and> u_opaque u = [] \<and> u_user u = None \<and> u_host u = [] \<and> u_fragment u = []
     \<and> HasPrefix (u_path u) ''/'' \<and> HasPrefix (EscapedPath u) ''/''
     \<and> \<not> HasPrefix (EscapedPath u) ''//''
     \<and> \<not> list_ex ctl_byte (u_raw_query u) \<and> CHR ''#'' \<notin> set (u_raw_query u)"

lemma valid_encoded_escape: "list_all (valid_encoded_byte EncPath) (escape EncPath s)"
proof (induction s)
  case (Cons c s)
  have "valid_encoded_byte EncPath (hex_digit n)" if "n < 16" for n
    using hex_digit_hex [OF that]
    by (auto simp: valid_encoded_byte_def shouldEscape_def is_alnum_def is_hex_def is_lower_def
        is_upper_def)
  moreover have "byte c div 16 < 16" using byte_less [of c] by simp
  moreover have "valid_encoded_byte EncPath (CHR ''%'')"
    by (simp add: valid_encoded_byte_def)
  ultimately show ?case
    using Cons by (simp add: escape_def escape_char_def) (simp add: valid_encoded_byte_def)
qed (simp add: escape_def)

lemma ctl_not_member: "list_all (\<lambda>x. \<not> ctl_byte x) l \<Longrightarrow> ctl_byte c \<Longrightarrow> \<not> List.member l c"
  by (auto simp: list_all_iff)

lemma ctl_escaped:
  assumes "ctl_byte c"
  shows "\<not> valid_encoded_byte EncPath c"
proof -
  have 1: "\<not> List.member ''-_.~'' c" "\<not> List.member ''$&+,/:;=?@'' c"
    "\<not> List.member ''!$&()*+,;=:@[]%'' c"
    by (rule ctl_not_member [OF _ assms], code_simp)+
  moreover have "\<not> is_alnum c" and "byte c \<noteq> 39"
    using assms by (auto simp: ctl_byte_def is_alnum_def is_lower_def is_upper_def is_digit_def)
  ultimately show ?thesis
    by (simp only: valid_encoded_byte_def shouldEscape_def) simp
qed

lemma valid_encoded_special:
  assumes "valid_encoded_byte EncPath c"
  shows "c \<noteq> CHR ''?'' \<and> c \<noteq> CHR ''#'' \<and> \<not> ctl_byte c"
proof -
  have "\<not> valid_encoded_byte EncPath (CHR ''?'')" and "\<not> valid_encoded_byte EncPath (CHR ''#'')"
    by code_simp+
  then show ?thesis using assms ctl_escaped by blast
qed

lemma colon_slash: "HasPrefix e ''/'' \<Longrightarrow> \<not> colon_in_first_segment e"
  by (cases e) (simp_all add: HasPrefix_def colon_in_first_segment_def)

lemma EscapedPath_valid:
  assumes "u_path u \<noteq> ''*''"
  shows "list_all (valid_encoded_byte EncPath) (EscapedPath u)
       \<and> unescape EncPath (EscapedPath u) = Some (u_path u)"
  using assms valid_encoded_escape unescape_escape_path
  by (simp add: EscapedPath_def validEncoded_def)

lemma scheme_split_slash: "HasPrefix s ''/'' \<Longrightarrow> getScheme s = Some ([], s)"
  by (cases s)
     (auto simp: HasPrefix_def getScheme_def is_lower_def is_upper_def is_digit_def byte_def)

lemma cut_query_RequestURI:
  assumes "CHR ''?'' \<notin> set e"
  shows "cut_query (e @ (if force \<or> q \<noteq> [] then ''?'' @ q else []))
       = (e, force \<and> q = [], q)"
proof (cases "q = []")
  case True
  show ?thesis
  proof (cases force)
    case True
    with \<open>q = []\<close> assms show ?thesis
      by (simp add: cut_query_def HasSuffix_def suffix_def count_list_0_iff)
  next
    case False
    with \<open>q = []\<close> assms show ?thesis
      by (auto simp: cut_query_def HasSuffix_def suffix_def Cut_absent count_list_0_iff)
  qed
next
  case False
  have "Cut (e @ CHR ''?'' # q) ''?'' = Some (e, q)"
    using Cut_append [OF assms, of "[]" q] by simp
  moreover have "count_list q (CHR ''?'') \<noteq> 0" if "suffix ''?'' (e @ CHR ''?'' # q)"
  proof -
    from that False have "CHR ''?'' \<in> set q"
      by (cases q rule: rev_cases) (auto simp: suffix_def)
    then show ?thesis by (simp add: count_list_0_iff)
  qed
  ultimately show ?thesis
    using False assms by (auto simp: cut_query_def HasSuffix_def count_list_0_iff)
qed

text \<open>The request URI of a URL as a server reads it parses, and the parsed URL prints as the
  original one did.\<close>

lemma url_String_parse_RequestURI:
  assumes "server_url u"
  shows "\<exists>v. url_Parse (RequestURI u) = Some v \<and> url_String v = url_String u \<and> u_host v = []"
proof -
  let ?e = "EscapedPath u"
  let ?q = "u_raw_query u"
  let ?raw = "?e @ (if u_force_query u \<or> ?q \<noteq> [] then ''?'' @ ?q else [])"
  have star: "u_path u \<noteq> ''*''" using assms by (auto simp: server_url_def HasPrefix_def)
  have e: "list_all (valid_encoded_byte EncPath) ?e" "unescape EncPath ?e = Some (u_path u)"
    using EscapedPath_valid [OF star] by auto
  then have sp: "CHR ''?'' \<notin> set ?e" "CHR ''#'' \<notin> set ?e" "\<not> list_ex ctl_byte ?e"
    using valid_encoded_special by (auto simp: list_all_iff list_ex_iff)
  have slash: "HasPrefix ?raw ''/''" "HasPrefix ?e ''/''" "\<not> HasPrefix ?e ''//''" "?e \<noteq> []"
    using assms by (auto simp: server_url_def HasPrefix_def prefix_def)
  have uri: "RequestURI u = ?raw"
    using assms slash(4) by (simp add: RequestURI_def server_url_def)
  have "CHR ''#'' \<notin> set ?raw" "\<not> list_ex ctl_byte ?raw"
    using assms sp by (auto simp: server_url_def ctl_byte_def byte_def)
  then have frag: "Cut ?raw ''#'' = None" and ctl: "\<not> list_ex ctl_byte ?raw"
    using Cut_absent [of "CHR ''#''" ?raw "[]"] by auto
  have nstar: "?raw \<noteq> ''*''" using slash(1) by (auto simp: HasPrefix_def)
  define base where "base = empty_url\<lparr>u_force_query := (u_force_query u \<and> ?q = []), u_raw_query := ?q\<rparr>"
  define v where "v = base\<lparr>u_path := u_path u,
     u_raw_path := (if ?e = escape EncPath (u_path u) then [] else ?e)\<rparr>"
  have "parse_url ?raw = setPath (base\<lparr>u_omit_host := False\<rparr>) ?e"
    unfolding parse_url_def using ctl nstar slash
    by (simp only: scheme_split_slash cut_query_RequestURI [OF sp(1)] option.case prod.case Let_def
          if_False if_True)
       (simp add: base_def empty_url_def ToLower_def)
  also have "\<dots> = Some v"
    by (simp add: setPath_def e(2) v_def base_def empty_url_def)
  finally have p: "url_Parse (RequestURI u) = Some v"
    by (simp add: url_Parse_def uri frag)
  have ev: "EscapedPath v = ?e"
    using e star by (simp add: v_def EscapedPath_def validEncoded_def)
  have "url_String v = ?raw"
    using slash(4) ev colon_slash [OF slash(2)]
    by (simp add: url_String_def v_def base_def empty_url_def authority_String_def Let_def)
  moreover have "url_String u = ?raw"
    using assms slash(4) colon_slash [OF slash(2)]
    by (simp add: url_String_def server_url_def authority_String_def Let_def)
  ultimately show ?thesis
    using p by (auto simp: v_def base_def empty_url_def)
qed

end
