(* ===== verification/GoHttp.thy ===== *)
theory GoHttp
  imports GoUrl
begin

text \<open>
  Go's \<^verbatim>\<open>net/http\<close> data: header maps with canonical keys, requests and responses.
  A header map is an association list without repeated keys; its order stands for one order
  in which Go may iterate over the map.  A nil header map reads as the empty one.
  The locale \<open>header_map\<close> states what the operations on a header map promise; the clients'
  lemmas are proved in it, and it is interpreted on the operations defined here.
\<close>

section \<open>Canonical header keys\<close>

text \<open>\<^verbatim>\<open>validHeaderFieldByte\<close>: the token characters of RFC 7230.\<close>

definition token_byte :: "char \<Rightarrow> bool" where
  "token_byte c \<longleftrightarrow> is_alnum c \<or> List.member ''!#$%&*+-.^_`|~'' c \<or> byte c = 39"

fun canon_from :: "bool \<Rightarrow> string \<Rightarrow> string" where
  "canon_from up [] = []"
| "canon_from up (c # cs) =
     (let d = (if up then upper_byte c else lower_byte c) in d # canon_from (d = CHR ''-'') cs)"

text \<open>\<^verbatim>\<open>textproto.CanonicalMIMEHeaderKey\<close>.\<close>

definition canon_key :: "string \<Rightarrow> string" where
  "canon_key s = (if list_all token_byte s then canon_from True s else s)"

lemma byte_upper: "byte (upper_byte c) = (if is_lower c then byte c - 32 else byte c)"
  using byte_less [of c] by (auto simp: upper_byte_def is_lower_def)

lemma upper_byte_code [code]:
  "upper_byte (Char b0 b1 b2 b3 b4 b5 b6 b7) =
     Char b0 b1 b2 b3 b4 (b5 \<and> \<not> is_lower (Char b0 b1 b2 b3 b4 b5 b6 b7)) b6 b7"
proof -
  have "byte (upper_byte (Char b0 b1 b2 b3 b4 b5 b6 b7)) =
     byte (Char b0 b1 b2 b3 b4 (b5 \<and> \<not> is_lower (Char b0 b1 b2 b3 b4 b5 b6 b7)) b6 b7)"
    unfolding byte_upper is_lower_code byte_Char by (cases b5) (auto simp: of_bool_def)
  then show ?thesis by simp
qed

lemma upper_lower [simp]: "upper_byte (lower_byte c) = upper_byte c"
proof -
  have "byte (upper_byte (lower_byte c)) = byte (upper_byte c)"
    by (simp add: byte_upper byte_lower is_lower_def is_upper_def)
  then show ?thesis by simp
qed

lemma upper_upper [simp]: "upper_byte (upper_byte c) = upper_byte c"
proof -
  have "byte (upper_byte (upper_byte c)) = byte (upper_byte c)"
    by (auto simp: byte_upper is_lower_def)
  then show ?thesis by simp
qed

lemma lower_upper [simp]: "lower_byte (upper_byte c) = lower_byte c"
proof -
  have "byte (lower_byte (upper_byte c)) = byte (lower_byte c)"
    by (auto simp: byte_upper byte_lower is_lower_def is_upper_def)
  then show ?thesis by simp
qed

lemma is_alnum_lower [simp]: "is_alnum (lower_byte c) = is_alnum c"
  by (auto simp: is_alnum_def is_lower_def is_upper_def is_digit_def byte_lower)

lemma is_alnum_upper [simp]: "is_alnum (upper_byte c) = is_alnum c"
  by (auto simp: is_alnum_def is_lower_def is_upper_def is_digit_def byte_upper)

lemma lower_other: "\<not> is_alnum c \<Longrightarrow> lower_byte c = c"
  by (simp add: lower_byte_def is_alnum_def)

lemma upper_other: "\<not> is_alnum c \<Longrightarrow> upper_byte c = c"
  by (simp add: upper_byte_def is_alnum_def)

lemma token_byte_lower [simp]: "token_byte (lower_byte c) = token_byte c"
  by (cases "is_alnum c") (simp_all add: token_byte_def lower_other)

lemma token_byte_upper [simp]: "token_byte (upper_byte c) = token_byte c"
  by (cases "is_alnum c") (simp_all add: token_byte_def upper_other)

lemma canon_from_lower: "canon_from up (map lower_byte s) = canon_from up s"
  by (induction s arbitrary: up) (simp_all add: Let_def)

lemma canon_from_idem: "canon_from up (canon_from up s) = canon_from up s"
  by (induction s arbitrary: up) (simp_all add: Let_def)

lemma list_all_canon_from: "list_all token_byte (canon_from up s) = list_all token_byte s"
  by (induction s arbitrary: up) (simp_all add: Let_def)

lemma canon_key_idem [simp]: "canon_key (canon_key s) = canon_key s"
  by (simp add: canon_key_def list_all_canon_from canon_from_idem)

text \<open>Header names that are tokens are found whatever their case.\<close>

lemma canon_key_ToLower: "list_all token_byte s \<Longrightarrow> canon_key (ToLower s) = canon_key s"
  by (simp add: canon_key_def ToLower_def canon_from_lower list.pred_map comp_def)

lemma set_canon_from: "c \<in> set (canon_from up s) \<Longrightarrow> \<exists>d \<in> set s. c = upper_byte d \<or> c = lower_byte d"
  by (induction s arbitrary: up) (auto simp: Let_def split: if_splits)

section \<open>Header maps\<close>

type_synonym header = "(string \<times> string list) list"

definition wf_header :: "header \<Rightarrow> bool" where
  "wf_header h \<longleftrightarrow> distinct (map fst h) \<and> (\<forall>k \<in> fst ` set h. canon_key k = k)
                  \<and> [] \<notin> snd ` set h"

definition hdr_Values :: "header \<Rightarrow> string \<Rightarrow> string list" where
  "hdr_Values h k = (case map_of h (canon_key k) of None \<Rightarrow> [] | Some vs \<Rightarrow> vs)"

definition hdr_Get :: "header \<Rightarrow> string \<Rightarrow> string" where
  "hdr_Get h k = (case hdr_Values h k of [] \<Rightarrow> [] | v # _ \<Rightarrow> v)"

definition hdr_Set :: "header \<Rightarrow> string \<Rightarrow> string \<Rightarrow> header" where
  "hdr_Set h k v = AList.update (canon_key k) [v] h"

definition hdr_Add :: "header \<Rightarrow> string \<Rightarrow> string \<Rightarrow> header" where
  "hdr_Add h k v = AList.update (canon_key k) (hdr_Values h k @ [v]) h"

definition hdr_Del :: "header \<Rightarrow> string \<Rightarrow> header" where
  "hdr_Del h k = AList.delete (canon_key k) h"

text \<open>
  The contract of a header map: what reading a key gives after each operation, keys being
  compared in canonical form.
\<close>

locale header_map =
  fixes canon :: "string \<Rightarrow> string"
    and vals :: "'h \<Rightarrow> string \<Rightarrow> string list"
    and sets :: "'h \<Rightarrow> string \<Rightarrow> string \<Rightarrow> 'h"
    and adds :: "'h \<Rightarrow> string \<Rightarrow> string \<Rightarrow> 'h"
    and dels :: "'h \<Rightarrow> string \<Rightarrow> 'h"
  assumes vals_sets: "vals (sets h k v) k' = (if canon k' = canon k then [v] else vals h k')"
    and vals_adds: "vals (adds h k v) k' = (if canon k' = canon k then vals h k' @ [v] else vals h k')"
    and vals_dels: "vals (dels h k) k' = (if canon k' = canon k then [] else vals h k')"
    and vals_canon: "canon k' = canon k \<Longrightarrow> vals h k' = vals h k"
begin

text \<open>Deleting a list of names: the loops over the fields named by \<^verbatim>\<open>Connection\<close>.\<close>

lemma vals_dels_list:
  "vals (foldl dels h ks) k = (if canon k \<in> canon ` set ks then [] else vals h k)"
  by (induction ks arbitrary: h) (auto simp: vals_dels)

text \<open>Adding the values of one key, in order: the loop of \<^verbatim>\<open>copyHeader\<close> for one key.\<close>

lemma vals_adds_list:
  "vals (foldl (\<lambda>h v. adds h k v) h vs) k' =
     (if canon k' = canon k then vals h k' @ vs else vals h k')"
  by (induction vs arbitrary: h) (auto simp: vals_adds)

text \<open>Setting after adding, and the reverse, only leave the last word.\<close>

lemma vals_sets_sets: "vals (sets (sets h k v) k w) k' = vals (sets h k w) k'"
  by (simp add: vals_sets)

end

interpretation hdr: header_map canon_key hdr_Values hdr_Set hdr_Add hdr_Del
  by unfold_locales
     (simp_all add: hdr_Values_def hdr_Set_def hdr_Add_def hdr_Del_def map_of_update map_of_delete)

lemmas hdr_ops [go_header] = hdr.vals_sets hdr.vals_adds hdr.vals_dels

lemma hdr_Get_Set [go_header]:
  "hdr_Get (hdr_Set h k v) k' = (if canon_key k' = canon_key k then v else hdr_Get h k')"
  by (simp add: hdr_Get_def hdr_ops)

lemma hdr_Get_Del [go_header]:
  "hdr_Get (hdr_Del h k) k' = (if canon_key k' = canon_key k then [] else hdr_Get h k')"
  by (simp add: hdr_Get_def hdr_ops)

lemma wf_header_update:
  assumes "wf_header h" and "vs \<noteq> []"
  shows "wf_header (AList.update (canon_key k) vs h)"
proof -
  have "snd ` set (AList.update (canon_key k) vs h) \<subseteq> insert vs (snd ` set h)"
    by (rule snd_set_update)
  then have "[] \<notin> snd ` set (AList.update (canon_key k) vs h)"
    using assms unfolding wf_header_def by blast
  moreover have "\<forall>c \<in> fst ` set (AList.update (canon_key k) vs h). canon_key c = c"
    using assms unfolding wf_header_def fst_set_update by auto
  ultimately show ?thesis
    using assms distinct_update [of h] unfolding wf_header_def by blast
qed

lemma wf_header_Set: "wf_header h \<Longrightarrow> wf_header (hdr_Set h k v)"
  by (simp add: hdr_Set_def wf_header_update)

lemma wf_header_Add: "wf_header h \<Longrightarrow> wf_header (hdr_Add h k v)"
  by (simp add: hdr_Add_def wf_header_update)

lemma wf_header_Del: "wf_header h \<Longrightarrow> wf_header (hdr_Del h k)"
  using AList.distinct_delete [of h "canon_key k"]
  by (auto simp: wf_header_def hdr_Del_def AList.delete_eq)

section \<open>Requests and responses\<close>

text \<open>
  The fields the program reads or writes.  A body is the sequence of bytes it yields; a
  response carries the request it answers, which may be missing.
\<close>

record request =
  req_method :: string
  req_url :: url
  req_header :: header
  req_host :: string
  req_body :: string
  req_remote :: string

record response =
  res_status :: int
  res_header :: header
  res_body :: string
  res_request :: "request option"

definition valid_method :: "string \<Rightarrow> bool" where
  "valid_method m \<longleftrightarrow> m \<noteq> [] \<and> list_all token_byte m"

text \<open>A trailing colon without a port is dropped from the host.\<close>

definition removeEmptyPort :: "string \<Rightarrow> string" where
  "removeEmptyPort host =
     (case last_index (CHR '':'') host of
        None \<Rightarrow> host
      | Some i \<Rightarrow>
          if (case last_index (CHR '']'') host of None \<Rightarrow> True | Some j \<Rightarrow> j < i) \<and> i = length host - 1
          then butlast host else host)"

text \<open>\<^verbatim>\<open>http.NewRequest\<close>: an empty method means GET; \<open>None\<close> is its error.\<close>

definition NewRequest :: "string \<Rightarrow> string \<Rightarrow> string \<Rightarrow> request option" where
  "NewRequest method uri body =
     (let m = (if method = [] then ''GET'' else method)
      in if \<not> valid_method m then None
         else map_option
           (\<lambda>u. let h = removeEmptyPort (u_host u)
                in \<lparr>req_method = m, req_url = u\<lparr>u_host := h\<rparr>, req_header = [], req_host = h,
                    req_body = body, req_remote = []\<rparr>)
           (url_Parse uri))"

end
