(* ===== verification/CacheControl.thy ===== *)
theory CacheControl
  imports GoTime GoHttp
begin

text \<open>
  Section 5.2 of the RFC as \<^verbatim>\<open>rfc9111/5.2._cache-control.go\<close> has it: parsing of the
  \<^verbatim>\<open>Cache-Control\<close> header lines into directives, and the directives with a number of
  seconds as argument, with \<^verbatim>\<open>deltaSeconds\<close> of \<^verbatim>\<open>rfc9111/1.2._syntax-notation.go\<close>.
\<close>

section \<open>Delta seconds\<close>

text \<open>
  The number of seconds is an unsigned 64-bit integer; the conversion to a duration keeps its
  bits and the product with a second wraps around.
\<close>

definition deltaSeconds :: "string \<Rightarrow> num_error + duration" where
  "deltaSeconds secondsStr =
     (case ParseUint secondsStr of
        Inr seconds \<Rightarrow> Inr (Second * seconds)
      | Inl err \<Rightarrow> Inl err)"

section \<open>Directives\<close>

record cache_control =
  directives :: "string \<rightharpoonup> string"

definition CC_Get :: "cache_control \<Rightarrow> string \<Rightarrow> string option" where
  "CC_Get c directive = directives c directive"

definition HasDirective :: "cache_control \<Rightarrow> string \<Rightarrow> bool" where
  "HasDirective c directive \<longleftrightarrow> CC_Get c directive \<noteq> None"

definition getCacheControlDirectiveName :: "string \<Rightarrow> string" where
  "getCacheControlDirectiveName token = ToLower token"

definition getCacheControlDirectiveArgument :: "string \<Rightarrow> string" where
  "getCacheControlDirectiveArgument arg = Trim arg [CHR 0x22]"

text \<open>One element of the comma-separated list: \<open>SplitN2\<close> gives one part or two.\<close>

definition parse_directive :: "string \<Rightarrow> string \<times> string" where
  "parse_directive directive =
     (let parts = SplitN2 directive ''='';
          name = getCacheControlDirectiveName (hd parts);
          arg = (if length parts > 1 then getCacheControlDirectiveArgument (parts ! 1) else [])
      in (name, arg))"

definition store_directive :: "(string \<rightharpoonup> string) \<Rightarrow> string \<Rightarrow> (string \<rightharpoonup> string)" where
  "store_directive m directive = (case parse_directive directive of (name, arg) \<Rightarrow> m(name \<mapsto> arg))"

definition ParseCacheControl :: "string list \<Rightarrow> cache_control" where
  "ParseCacheControl headers =
     \<lparr>directives = foldl (\<lambda>m header. foldl store_directive m (Split header '', ''))
        Map.empty headers\<rparr>"

datatype directive_error = DirectiveMissing string | BadSeconds num_error

definition getDeltaSeconds :: "cache_control \<Rightarrow> string \<Rightarrow> directive_error + duration" where
  "getDeltaSeconds c directive =
     (case CC_Get c directive of
        Some secondsStr \<Rightarrow>
          if secondsStr \<noteq> [] then map_sum BadSeconds id (deltaSeconds secondsStr)
          else Inl (DirectiveMissing directive)
      | None \<Rightarrow> Inl (DirectiveMissing directive))"

definition MaxAge :: "cache_control \<Rightarrow> directive_error + duration" where
  "MaxAge c = getDeltaSeconds c ''max-age''"

definition SMaxAge :: "cache_control \<Rightarrow> directive_error + duration" where
  "SMaxAge c = getDeltaSeconds c ''s-maxage''"

section \<open>Facts on parsing\<close>

lemma foldl_concat: "foldl (\<lambda>m h. foldl f m (g h)) m hs = foldl f m (concat (map g hs))"
  by (induction hs arbitrary: m) auto

text \<open>All directives of all header lines, in order; the last one of a name counts.\<close>

definition directive_list :: "string list \<Rightarrow> (string \<times> string) list" where
  "directive_list headers =
     map parse_directive (concat (map (\<lambda>h. Split h '', '') headers))"

lemma foldl_store: "foldl store_directive m ds = m ++ map_of (rev (map parse_directive ds))"
proof (induction ds rule: rev_induct)
  case (snoc d ds)
  then show ?case by (cases "parse_directive d") (simp add: store_directive_def map_add_def fun_eq_iff)
qed simp

lemma directives_parse: "directives (ParseCacheControl hs) = map_of (rev (directive_list hs))"
  unfolding ParseCacheControl_def foldl_concat directive_list_def by (simp add: foldl_store)

lemma HasDirective_parse: "HasDirective (ParseCacheControl hs) d \<longleftrightarrow> d \<in> fst ` set (directive_list hs)"
  by (simp add: HasDirective_def CC_Get_def directives_parse map_of_eq_None_iff)

text \<open>Printing a directive: the name, and its argument if it has one.\<close>

definition print_directive :: "string \<times> string \<Rightarrow> string" where
  "print_directive d = (case d of (n, a) \<Rightarrow> if a = [] then n else n @ ''='' @ a)"

definition plain_directive :: "string \<times> string \<Rightarrow> bool" where
  "plain_directive d \<longleftrightarrow>
     CHR '','' \<notin> set (fst d) \<and> CHR ''='' \<notin> set (fst d) \<and> CHR '','' \<notin> set (snd d)
     \<and> CHR 0x22 \<notin> set (snd d)"

lemma Trim_absent: "(\<And>c. c \<in> set cs \<Longrightarrow> c \<notin> set s) \<Longrightarrow> Trim s cs = s"
  unfolding Trim_def
  by (rule trim_while_id) (metis hd_in_set last_in_set)

lemma parse_print_directive:
  assumes "plain_directive d"
  shows "parse_directive (print_directive d) = (ToLower (fst d), snd d)"
proof (cases d)
  case (Pair n a)
  with assms have n: "CHR ''='' \<notin> set n" and a: "CHR 0x22 \<notin> set a"
    by (simp_all add: plain_directive_def)
  show ?thesis
  proof (cases "a = []")
    case True
    with n Pair show ?thesis
      by (simp add: parse_directive_def print_directive_def SplitN2_def Cut_absent
            getCacheControlDirectiveName_def)
  next
    case False
    have "Cut (n @ ''='' @ a) ''='' = Some (n, a)"
      using Cut_append [OF n, of "[]" a] by simp
    moreover have "Trim a [CHR 0x22] = a"
      using a by (intro Trim_absent) simp
    ultimately show ?thesis
      using False Pair by (simp add: parse_directive_def print_directive_def SplitN2_def
            getCacheControlDirectiveName_def getCacheControlDirectiveArgument_def)
  qed
qed



section \<open>Names compared case-insensitively\<close>

lemma prefix_ToLower:
  assumes "\<And>c. c \<in> set sep \<Longrightarrow> \<not> is_alnum c"
  shows "prefix sep (ToLower s) = prefix sep s"
  using assms
proof (induction sep arbitrary: s)
  case (Cons x sep)
  have x: "x = lower_byte y \<longleftrightarrow> x = y" for y
  proof (cases "is_alnum y")
    case True
    moreover have "\<not> is_alnum x" using Cons.prems by simp
    ultimately show ?thesis by (metis is_alnum_lower)
  qed (simp add: lower_other)
  show ?case using Cons x by (cases s) (auto simp: ToLower_def)
qed simp

lemma Cut_ToLower:
  assumes "\<And>c. c \<in> set sep \<Longrightarrow> \<not> is_alnum c"
  shows "Cut (ToLower s) sep = map_option (map_prod ToLower ToLower) (Cut s sep)"
proof (induction s)
  case (Cons c s)
  have "prefix sep (ToLower (c # s)) = prefix sep (c # s)"
    using assms by (rule prefix_ToLower)
  moreover have "drop (length sep) (ToLower (c # s)) = ToLower (drop (length sep) (c # s))"
    by (simp only: ToLower_def drop_map)
  ultimately show ?case
    using Cons by (auto simp: ToLower_def option.map_comp comp_def map_prod_def
        split: prod.splits intro!: option.map_cong)
qed (simp add: ToLower_def)

lemma Split_ToLower:
  assumes "\<And>c. c \<in> set sep \<Longrightarrow> \<not> is_alnum c"
  shows "Split (ToLower s) sep = map ToLower (Split s sep)"
  using assms
proof (induction s sep rule: Split.induct)
  case (1 s sep)
  show ?case
  proof (cases "sep = [] \<or> Cut s sep = None")
    case True
    then show ?thesis
      by (subst (1 2) Split.simps) (auto simp: Cut_ToLower [OF 1(2)])
  next
    case False
    then obtain a b where ab: "sep \<noteq> []" "Cut s sep = Some (a, b)" by auto
    then have "Split (ToLower b) sep = map ToLower (Split b sep)"
      using 1 by blast
    with ab show ?thesis
      by (subst (1 2) Split.simps) (simp add: Cut_ToLower [OF 1(2)])
  qed
qed

lemma parse_directive_ToLower: "fst (parse_directive (ToLower d)) = fst (parse_directive d)"
proof -
  have "Cut (ToLower d) ''='' = map_option (map_prod ToLower ToLower) (Cut d ''='')"
    by (rule Cut_ToLower)
       (simp add: is_alnum_def is_lower_def is_upper_def is_digit_def byte_def)
  then show ?thesis
    by (auto simp: parse_directive_def SplitN2_def getCacheControlDirectiveName_def
        split: option.splits)
qed

text \<open>Directives are identified case-insensitively: whether a directive is present does not
  change when all header lines are put into lower case.\<close>

lemma HasDirective_case_insensitive:
  "HasDirective (ParseCacheControl (map ToLower headers)) d
     = HasDirective (ParseCacheControl headers) d"
proof -
  have "Split (ToLower h) '', '' = map ToLower (Split h '', '')" for h
    by (rule Split_ToLower)
       (auto simp: is_alnum_def is_lower_def is_upper_def is_digit_def byte_def)
  then have "map fst (directive_list (map ToLower headers)) = map fst (directive_list headers)"
    by (induction headers) (simp_all add: directive_list_def parse_directive_ToLower)
  then have "fst ` set (directive_list (map ToLower headers)) = fst ` set (directive_list headers)"
    by (metis list.set_map)
  then show ?thesis by (simp add: HasDirective_parse)
qed

text \<open>A comma that is not followed by a space does not separate directives: such a line is
  read as one directive, whose name runs up to the first equals sign.\<close>

lemma comma_without_space_is_one_directive:
  assumes "Cut line '', '' = None"
  shows "HasDirective (ParseCacheControl [line]) d
           \<longleftrightarrow> d = ToLower (takeWhile (\<lambda>c. c \<noteq> CHR ''='') line)"
proof -
  have "hd (SplitN2 s ''='') = takeWhile (\<lambda>c. c \<noteq> CHR ''='') s" for s
  proof (induction s)
    case (Cons c s)
    then show ?case
      by (cases "c = CHR ''=''") (auto simp: SplitN2_def split: option.splits)
  qed (simp add: SplitN2_def)
  moreover have "Split line '', '' = [line]"
    using assms by (subst Split.simps) simp
  ultimately have "directive_list [line] = [parse_directive line]"
    and "fst (parse_directive line) = ToLower (takeWhile (\<lambda>c. c \<noteq> CHR ''='') line)"
    by (simp_all add: directive_list_def parse_directive_def Let_def
        getCacheControlDirectiveName_def)
  then show ?thesis by (simp add: HasDirective_parse)
qed

section \<open>Seconds out of range\<close>

lemma Second_times: "Second * of_nat n = word_of_int (ns_per_second * int n)"
  by (simp add: Second_def)

text \<open>A number of seconds becomes the duration of that many seconds as long as it fits
  (292 years); from the first value beyond that up to \<open>18446744073\<close> the product wraps around to a
  negative duration, although no error is reported.\<close>

lemma deltaSeconds_bounds:
  assumes "n \<le> 18446744073"
  shows "\<exists>d. deltaSeconds (show_nat n) = Inr d
           \<and> sint d = (if n \<le> 9223372036 then ns_per_second * int n
                       else ns_per_second * int n - 2 ^ 64)
           \<and> (sint d < 0 \<longleftrightarrow> 9223372036 < n)"
proof -
  have "deltaSeconds (show_nat n) = Inr (word_of_int (ns_per_second * int n))"
    using ParseUint_show_nat [of n] assms by (simp only: deltaSeconds_def) (simp add: Second_times)
  moreover have "sint (word_of_int (ns_per_second * int n) :: 64 word)
      = (if n \<le> 9223372036 then ns_per_second * int n else ns_per_second * int n - 2 ^ 64)"
    using assms sint_of_int [of "ns_per_second * int n"] sint_of_int_wrap [of "ns_per_second * int n"]
    by (auto simp: in_int64_def)
  ultimately show ?thesis using assms by auto
qed

text \<open>
  The README's example \<^verbatim>\<open>Cache-Control: s-maxage=600; safe\<close> is one directive whose argument is no
  number: neither safe nor a lifetime is found.
\<close>

lemma readme_example_not_safe:
  "\<not> HasDirective (ParseCacheControl [''s-maxage=600; safe'']) ''safe''
   \<and> SMaxAge (ParseCacheControl [''s-maxage=600; safe'']) = Inl (BadSeconds ErrSyntax)"
  by code_simp

end
