(* ===== verification/Freshness.thy ===== *)
theory Freshness
  imports CacheControl
begin

text \<open>
  Dates, ages and freshness: \<^verbatim>\<open>rfc9111/1.2._syntax-notation.go\<close> (HTTP dates), \<^verbatim>\<open>5.1._age.go\<close>,
  \<^verbatim>\<open>5.3._expires.go\<close>, \<^verbatim>\<open>4.2.0-freshness.go\<close>, \<^verbatim>\<open>4.2.1._calculating-freshness-lifetime.go\<close>
  and \<^verbatim>\<open>4.2.3._calculating-age.go\<close>.  A function that reads the clock takes the reading as
  the parameter \<open>now\<close>; \<open>tz\<close> is the local time zone that \<^verbatim>\<open>time.Parse\<close> consults.
\<close>

section \<open>HTTP dates\<close>

text \<open>The layout \<^verbatim>\<open>Mon, 02 Jan 2006 15:04:05 MST\<close>, 29 characters, and Go's RFC850 and ANSIC.\<close>

definition imfDateLayout :: layout where
  "imfDateLayout =
     [('''', StdWeekDay), ('', '', StdZeroDay), ('' '', StdMonth), ('' '', StdLongYear),
      ('' '', StdHour), ('':'', StdZeroMinute), ('':'', StdZeroSecond), ('' '', StdTZ)]"

definition imfDateLayout_length :: nat where
  "imfDateLayout_length = length ''Mon, 02 Jan 2006 15:04:05 MST''"

definition RFC850_layout :: layout where
  "RFC850_layout =
     [('''', StdLongWeekDay), ('', '', StdZeroDay), (''-'', StdMonth), (''-'', StdYear),
      ('' '', StdHour), ('':'', StdZeroMinute), ('':'', StdZeroSecond), ('' '', StdTZ)]"

definition ANSIC_layout :: layout where
  "ANSIC_layout =
     [('''', StdWeekDay), ('' '', StdMonth), ('' '', StdUnderDay), ('' '', StdHour),
      ('':'', StdZeroMinute), ('':'', StdZeroSecond), ('' '', StdLongYear)]"

definition normalizeDateStr :: "string \<Rightarrow> string" where
  "normalizeDateStr dateStr = ToUpper dateStr"

definition imfDate :: "zones \<Rightarrow> string \<Rightarrow> time option" where
  "imfDate tz dateStr =
     (case time_Parse tz imfDateLayout (normalizeDateStr dateStr) of
        None \<Rightarrow> None
      | Some (date, loc) \<Rightarrow>
          if loc \<noteq> ''GMT'' then None
          else if length dateStr \<noteq> imfDateLayout_length then None
          else Some date)"

definition obsDate :: "zones \<Rightarrow> string \<Rightarrow> time option" where
  "obsDate tz dateStr =
     (let str = normalizeDateStr dateStr
      in case time_Parse tz RFC850_layout str of
           Some (date, loc) \<Rightarrow> Some date
         | None \<Rightarrow> map_option fst (time_Parse tz ANSIC_layout str))"

definition HttpDate :: "zones \<Rightarrow> string \<Rightarrow> time option" where
  "HttpDate tz dateStr =
     (case imfDate tz dateStr of
        Some date \<Rightarrow> Some date
      | None \<Rightarrow> obsDate tz dateStr)"

section \<open>Age and Expires\<close>

datatype age_error = AgeMissing | AgeBad num_error

definition getAge :: "response \<Rightarrow> age_error + duration" where
  "getAge res =
     (let headerFirst = hdr_Get (res_header res) ''Age'';
          listFirst = hd (Split headerFirst '', '');
          firstParam = hd (Split listFirst '';'')
      in if firstParam \<noteq> [] then map_sum AgeBad id (deltaSeconds firstParam)
         else Inl AgeMissing)"

definition getExpires :: "zones \<Rightarrow> response \<Rightarrow> time option" where
  "getExpires tz res = HttpDate tz (hdr_Get (res_header res) ''Expires'')"

section \<open>Freshness lifetime\<close>

definition response_cc :: "response \<Rightarrow> cache_control" where
  "response_cc res = ParseCacheControl (hdr_Values (res_header res) ''Cache-Control'')"

definition freshness_lifetime :: "zones \<Rightarrow> time \<Rightarrow> response \<Rightarrow> duration" where
  "freshness_lifetime tz now res =
     (let resCacheControl = response_cc res
      in case SMaxAge resCacheControl of
           Inr val \<Rightarrow> val
         | Inl _ \<Rightarrow>
             (case MaxAge resCacheControl of
                Inr val \<Rightarrow> val
              | Inl _ \<Rightarrow>
                  (case getExpires tz res of
                     Some expires \<Rightarrow>
                       (case HttpDate tz (hdr_Get (res_header res) ''Date'') of
                          Some date \<Rightarrow> time_Sub expires date
                        | None \<Rightarrow> time_Sub expires now)
                   | None \<Rightarrow> 0)))"

text \<open>\<^verbatim>\<open>GetExpiration\<close> reads the clock once for the lifetime and once more to add it.\<close>

definition GetExpiration :: "zones \<Rightarrow> time \<Rightarrow> time \<Rightarrow> response \<Rightarrow> time" where
  "GetExpiration tz nowL now res =
     (let ttl = freshness_lifetime tz nowL res
      in if ttl \<noteq> 0 then time_Add now ttl else zero_time)"

section \<open>Age of a response\<close>

definition age_value :: "response \<Rightarrow> duration" where
  "age_value res = (case getAge res of Inr age \<Rightarrow> age | Inl _ \<Rightarrow> 0)"

definition date_value :: "zones \<Rightarrow> response \<Rightarrow> time" where
  "date_value tz res =
     (let dateHeader = hdr_Get (res_header res) ''Date''
      in if dateHeader \<noteq> [] then
           (case HttpDate tz dateHeader of Some date \<Rightarrow> date | None \<Rightarrow> zero_time)
         else zero_time)"

definition durationMax :: "duration \<Rightarrow> duration \<Rightarrow> duration" where
  "durationMax d1 d2 = (if d2 <s d1 then d1 else d2)"

definition apparent_age :: "zones \<Rightarrow> response \<Rightarrow> time \<Rightarrow> duration" where
  "apparent_age tz res responseTime = durationMax 0 (time_Sub responseTime (date_value tz res))"

definition response_delay :: "time \<Rightarrow> time \<Rightarrow> duration" where
  "response_delay responseTime requestTime = time_Sub responseTime requestTime"

definition corrected_age_value :: "response \<Rightarrow> time \<Rightarrow> time \<Rightarrow> duration" where
  "corrected_age_value res responseTime requestTime =
     age_value res + response_delay responseTime requestTime"

definition corrected_initial_age :: "zones \<Rightarrow> response \<Rightarrow> time \<Rightarrow> time \<Rightarrow> duration" where
  "corrected_initial_age tz res responseTime requestTime =
     durationMax (apparent_age tz res responseTime)
       (corrected_age_value res responseTime requestTime)"

definition resident_time :: "time \<Rightarrow> time \<Rightarrow> duration" where
  "resident_time now responseTime = time_Sub now responseTime"

definition current_age :: "zones \<Rightarrow> time \<Rightarrow> response \<Rightarrow> time \<Rightarrow> time \<Rightarrow> duration" where
  "current_age tz now res responseTime requestTime =
     corrected_initial_age tz res responseTime requestTime + resident_time now responseTime"

text \<open>
  \<^verbatim>\<open>isFresh\<close> reads the clock for the lifetime (\<open>nowL\<close>) and again for the age (\<open>nowA\<close>); the
  readings of its trace message are not used.
\<close>

definition isFresh :: "zones \<Rightarrow> time \<Rightarrow> time \<Rightarrow> response \<Rightarrow> time \<Rightarrow> time \<Rightarrow> bool" where
  "isFresh tz nowL nowA res responseTime requestTime \<longleftrightarrow>
     current_age tz nowA res responseTime requestTime <s freshness_lifetime tz nowL res"

section \<open>Facts on durations\<close>

lemma sint_durationMax [go_time]: "sint (durationMax a b) = max (sint a) (sint b)"
  by (simp add: durationMax_def word_sless_sint)

lemma sint_apparent_age [go_time]:
  "sint (apparent_age tz res rt) = max 0 (saturate (rt - date_value tz res))"
  by (simp add: apparent_age_def go_time)

text \<open>The age the RFC defines, over unbounded integers.\<close>

definition spec_current_age :: "zones \<Rightarrow> time \<Rightarrow> response \<Rightarrow> time \<Rightarrow> time \<Rightarrow> int" where
  "spec_current_age tz now res rt qt =
     max (max 0 (rt - date_value tz res)) (sint (age_value res) + (rt - qt)) + (now - rt)"

text \<open>Readings within 73 years of one another keep every intermediate value in range.\<close>

definition near :: "int \<Rightarrow> bool" where
  "near i \<longleftrightarrow> \<bar>i\<bar> < 2 ^ 61"

lemma sint_current_age:
  assumes "near (rt - date_value tz res)" and "near (rt - qt)" and "near (now - rt)"
    and "near (sint (age_value res))"
  shows "sint (current_age tz now res rt qt) = spec_current_age tz now res rt qt"
proof -
  have s: "saturate (rt - date_value tz res) = rt - date_value tz res"
    "saturate (rt - qt) = rt - qt" "saturate (now - rt) = now - rt"
    using assms by (auto intro!: saturate_id simp: near_def in_int64_def)
  have c: "sint (corrected_age_value res rt qt) = sint (age_value res) + (rt - qt)"
    unfolding corrected_age_value_def response_delay_def
    using assms by (subst sint_add64) (auto simp: go_time s near_def in_int64_def)
  have i: "sint (corrected_initial_age tz res rt qt)
      = max (max 0 (rt - date_value tz res)) (sint (age_value res) + (rt - qt))"
    by (simp add: corrected_initial_age_def go_time c s)
  show ?thesis
    unfolding current_age_def resident_time_def spec_current_age_def
    using assms by (subst sint_add64) (auto simp: go_time i s near_def in_int64_def)
qed

text \<open>C11. Freshness: when the date, the request and response times, the clock and the Age value
  lie within 73 years of one another, \<^verbatim>\<open>isFresh\<close> decides exactly the comparison of the RFC: the
  freshness lifetime exceeds the current age, computed without overflow.\<close>

theorem isFresh_correct:
  assumes "near (rt - date_value tz res)" and "near (rt - qt)" and "near (nowA - rt)"
    and "near (sint (age_value res))"
  shows "isFresh tz nowL nowA res rt qt \<longleftrightarrow>
           spec_current_age tz nowA res rt qt < sint (freshness_lifetime tz nowL res)"
  by (simp add: isFresh_def word_sless_sint sint_current_age [OF assms])

text \<open>C37. A response without a usable Date header never becomes stale: its date is taken as the
  year 1, the apparent age saturates at the largest duration, adding any time spent in the cache
  wraps around to a negative age, and the response counts as fresh whatever its lifetime.  The
  bounds cover every response received after 1970 whose lifetime is not below minus 146 years and that
  has been stored for less than 146 years.\<close>

theorem no_date_always_fresh:
  assumes "date_value tz res = zero_time" and "0 \<le> rt" and "rt < nowA" and "nowA - rt < 2 ^ 62"
    and "- (2 ^ 62) \<le> sint (freshness_lifetime tz nowL res)"
  shows "isFresh tz nowL nowA res rt qt \<and> sint (current_age tz nowA res rt qt) < 0"
proof -
  have a: "sint (apparent_age tz res rt) = int64_max"
    using assms(1,2) by (simp add: go_time zero_time_def saturate_def)
  have i: "sint (corrected_initial_age tz res rt qt) = int64_max"
    using sint_in_int64 [of "corrected_age_value res rt qt"]
    by (simp only: corrected_initial_age_def sint_durationMax a) (simp add: in_int64_def)
  have r: "sint (resident_time nowA rt) = nowA - rt"
    unfolding resident_time_def go_time
    by (rule saturate_id) (use assms(3,4) in \<open>simp add: in_int64_def\<close>)
  have "sint (current_age tz nowA res rt qt) = int64_max + (nowA - rt) - 2 ^ 64"
    unfolding current_age_def using assms(3)
    by (subst sint_add64_over) (simp_all add: i r)
  then show ?thesis
    using assms(3-5) by (simp_all add: isFresh_def word_sless_sint)
qed

text \<open>A response with the given header and nothing else, for the examples.\<close>

definition plain_response :: "int \<Rightarrow> header \<Rightarrow> response" where
  "plain_response status h = \<lparr>res_status = status, res_header = h, res_body = [], res_request = None\<rparr>"

theorem isFresh_correct_witness:
  "isFresh utc_zones 784111800000000000 784111800000000000
     (plain_response 200 [(''Date'', [''Sun, 06 Nov 1994 08:49:37 GMT'']),
                          (''Cache-Control'', [''max-age=60''])])
     784111777000000000 784111776000000000"
proof -
  let ?r = "plain_response 200 [(''Date'', [''Sun, 06 Nov 1994 08:49:37 GMT'']),
                                (''Cache-Control'', [''max-age=60''])]"
  have d: "date_value utc_zones ?r = 784111777000000000" by code_simp
  have a: "sint (age_value ?r) = 0" by code_simp
  have l: "sint (freshness_lifetime utc_zones 784111800000000000 ?r) = 60000000000" by code_simp
  show ?thesis
    by (subst isFresh_correct)
       (simp_all add: d a l near_def spec_current_age_def)
qed

theorem no_date_always_fresh_witness:
  "isFresh utc_zones 1700000001000000000 1700000001000000000
     (plain_response 200 [(''Cache-Control'', [''max-age=0''])])
     1700000000000000000 1700000000000000000"
proof -
  let ?r = "plain_response 200 [(''Cache-Control'', [''max-age=0''])]"
  have d: "date_value utc_zones ?r = zero_time" by code_simp
  have l: "sint (freshness_lifetime utc_zones 1700000001000000000 ?r) = 0" by code_simp
  show ?thesis
    using no_date_always_fresh [OF d, of "1700000000000000000" "1700000001000000000"
        "1700000001000000000" "1700000000000000000"]
    by (simp add: l)
qed

end
