(* ===== verification/Storing.thy ===== *)
theory Storing
  imports Freshness
begin

text \<open>
  Section 3 of the RFC: \<^verbatim>\<open>rfc9111/3.0_storing-responses-in-caches.go\<close> (whether a response must
  not be stored), \<^verbatim>\<open>3.1._storing-header-and-trailer-fields.go\<close> (which header fields are kept),
  \<^verbatim>\<open>3.5._storing-responses-to-authenticated-requests.go\<close>, and \<^verbatim>\<open>MustNotStore\<close> of
  \<^verbatim>\<open>rfc9111/rfc9111.go\<close>.
\<close>

section \<open>List headers\<close>

definition GetListHeader :: "header \<Rightarrow> string \<Rightarrow> string list" where
  "GetListHeader h field =
     concat (map (\<lambda>hdr. map TrimSpace (Split hdr '','')) (hdr_Values h field))"

section \<open>Storing header and trailer fields\<close>

definition storableHeader :: "header \<Rightarrow> header" where
  "storableHeader header =
     (let h = foldl hdr_Del header (GetListHeader header ''Connection'');
          h = hdr_Del h ''Connection'';
          h = hdr_Del h ''Proxy-Connection'';
          h = hdr_Del h ''Keep-Alive'';
          h = hdr_Del h ''TE'';
          h = hdr_Del h ''Transfer-Encoding'';
          h = hdr_Del h ''Upgrade''
      in h)"

definition storableTrailer :: "header \<Rightarrow> header" where
  "storableTrailer trailer = []"

definition GetForwardRequest :: "request \<Rightarrow> request" where
  "GetForwardRequest req =
     (let h = foldl hdr_Del (req_header req) (GetListHeader (req_header req) ''Connection'');
          h = hdr_Del h ''Connection'';
          h = hdr_Del h ''Proxy-Connection'';
          h = hdr_Del h ''Keep-Alive'';
          h = hdr_Del h ''TE'';
          h = hdr_Del h ''Transfer-Encoding'';
          h = hdr_Del h ''Upgrade''
      in req\<lparr>req_header := h\<rparr>)"

section \<open>Whether a response must not be stored\<close>

definition requestMethodIsUnderstood :: "string \<Rightarrow> bool" where
  "requestMethodIsUnderstood method \<longleftrightarrow>
     (if method = ''GET'' then True else if method = ''POST'' then True else False)"

definition responseStatusCodeIsUnderstood :: "int \<Rightarrow> bool" where
  "responseStatusCodeIsUnderstood statusCode \<longleftrightarrow> (if statusCode = 200 then True else False)"

definition responseStatusCodeIsFinal :: "int \<Rightarrow> bool" where
  "responseStatusCodeIsFinal statusCode \<longleftrightarrow> statusCode \<ge> 200 \<and> statusCode \<le> 599"

definition statusCodeUnderstoodIfNeeded :: "response \<Rightarrow> cache_control \<Rightarrow> bool" where
  "statusCodeUnderstoodIfNeeded res cc \<longleftrightarrow>
     (if (res_status res = 206 \<or> res_status res = 304) \<or> HasDirective cc ''must-understand''
      then responseStatusCodeIsUnderstood (res_status res) else True)"

definition mayUseResponseForAuthenticatedRequest :: "cache_control \<Rightarrow> bool" where
  "mayUseResponseForAuthenticatedRequest cc \<longleftrightarrow>
     HasDirective cc ''public'' \<or> HasDirective cc ''s-maxage''"

text \<open>
  The condition as the Go compiler reads it: \<open>&&\<close> binds tighter than \<open>||\<close>, so the first six
  conjuncts form one alternative and the last two the other.
\<close>

definition mustNotStore :: "request \<Rightarrow> response \<Rightarrow> bool" where
  "mustNotStore req res \<longleftrightarrow>
     (let cc = response_cc res
      in if (requestMethodIsUnderstood (req_method req)
             \<and> responseStatusCodeIsFinal (res_status res)
             \<and> statusCodeUnderstoodIfNeeded res cc
             \<and> \<not> HasDirective cc ''no-store''
             \<and> \<not> HasDirective cc ''private''
             \<and> hdr_Get (req_header req) ''Authorization'' = [])
            \<or> (mayUseResponseForAuthenticatedRequest cc
               \<and> (HasDirective cc ''public''
                  \<or> hdr_Get (res_header res) ''Expires'' \<noteq> []
                  \<or> HasDirective cc ''max-age''
                  \<or> HasDirective cc ''s-maxage''))
         then False else True)"

datatype field_error = HeadersEmpty | StatusEmpty | RequestEmpty | MethodEmpty

text \<open>\<^verbatim>\<open>MustNotStore\<close> answers true beside each of its errors.\<close>

definition MustNotStore :: "response \<Rightarrow> field_error + bool" where
  "MustNotStore res =
     (if res_header res = [] then Inl HeadersEmpty
      else if res_status res = 0 then Inl StatusEmpty
      else case res_request res of
             None \<Rightarrow> Inl RequestEmpty
           | Some req \<Rightarrow>
               if req_method req = [] then Inl MethodEmpty
               else Inr (mustNotStore req res))"

text \<open>
  The response that may be forwarded: the other fields of \<^verbatim>\<open>http.Response\<close> are copied as they
  are (the TLS state by identity).
\<close>

record full_response = response +
  fr_status_text :: string
  fr_proto :: string
  fr_proto_major :: int
  fr_proto_minor :: int
  fr_content_length :: int
  fr_transfer_encoding :: "string list"
  fr_close :: bool
  fr_uncompressed :: bool
  fr_trailer :: header
  fr_tls :: "nat option"

definition ConstructDownstreamResponse ::
    "request \<Rightarrow> full_response \<Rightarrow> full_response \<times> bool" where
  "ConstructDownstreamResponse req originResponse =
     (let mayBeStored = (\<not> mustNotStore req (response.truncate originResponse));
          downstreamResponse = originResponse
            \<lparr>res_header := storableHeader (res_header originResponse),
             fr_trailer := storableTrailer (fr_trailer originResponse),
             res_request := Some req\<rparr>
      in (downstreamResponse, mayBeStored))"

section \<open>What is kept of the header\<close>

definition hop_by_hop :: "string list" where
  "hop_by_hop = [''Connection'', ''Proxy-Connection'', ''Keep-Alive'', ''TE'',
     ''Transfer-Encoding'', ''Upgrade'']"

lemma storableHeader_folded:
  "storableHeader h = foldl hdr_Del h (GetListHeader h ''Connection'' @ hop_by_hop)"
  by (simp add: storableHeader_def hop_by_hop_def Let_def)

lemma GetForwardRequest_header:
  "req_header (GetForwardRequest req) = storableHeader (req_header req)"
  by (simp add: GetForwardRequest_def storableHeader_def Let_def)

text \<open>A stored header keeps every field, with all its values in order, except the hop-by-hop
  fields and the fields that the Connection header names; these are gone, whatever the case of
  their names.\<close>

lemma storableHeader_values:
  "hdr_Values (storableHeader h) name =
     (if canon_key name \<in> canon_key ` set (GetListHeader h ''Connection'' @ hop_by_hop)
      then [] else hdr_Values h name)"
  unfolding storableHeader_folded by (rule hdr.vals_dels_list)

section \<open>Which responses are stored\<close>

text \<open>C7. Which responses are stored.  One that carries public or s-maxage always is: method,
  status, no-store, private and an Authorization header do not count.  Any other is stored exactly
  if the request has no Authorization header, method and status are acceptable and neither
  no-store nor private is present; no explicit freshness information is asked for.\<close>

theorem mustNotStore_cases:
  "(\<not> mustNotStore req res) \<longleftrightarrow>
     HasDirective (response_cc res) ''public''
     \<or> HasDirective (response_cc res) ''s-maxage''
     \<or> (hdr_Get (req_header req) ''Authorization'' = []
        \<and> requestMethodIsUnderstood (req_method req)
        \<and> responseStatusCodeIsFinal (res_status res)
        \<and> statusCodeUnderstoodIfNeeded res (response_cc res)
        \<and> \<not> HasDirective (response_cc res) ''no-store''
        \<and> \<not> HasDirective (response_cc res) ''private'')"
  unfolding mustNotStore_def Let_def mayUseResponseForAuthenticatedRequest_def by auto

text \<open>The list of requirements of section 3 of the RFC, all of which a stored response meets.\<close>

definition rfc_may_store :: "request \<Rightarrow> response \<Rightarrow> bool" where
  "rfc_may_store req res \<longleftrightarrow>
     (let cc = response_cc res
      in requestMethodIsUnderstood (req_method req)
         \<and> responseStatusCodeIsFinal (res_status res)
         \<and> statusCodeUnderstoodIfNeeded res cc
         \<and> \<not> HasDirective cc ''no-store''
         \<and> \<not> HasDirective cc ''private''
         \<and> (hdr_Get (req_header req) ''Authorization'' = []
            \<or> mayUseResponseForAuthenticatedRequest cc)
         \<and> (HasDirective cc ''public'' \<or> hdr_Get (res_header res) ''Expires'' \<noteq> []
            \<or> HasDirective cc ''max-age'' \<or> HasDirective cc ''s-maxage''))"


definition example_request :: "string \<Rightarrow> header \<Rightarrow> request" where
  "example_request method h =
     \<lparr>req_method = method, req_url = empty_url\<lparr>u_path := ''/a''\<rparr>, req_header = h, req_host = [],
      req_body = [], req_remote = []\<rparr>"


text \<open>The converse fails: a response to a PUT request that carries no-store, private and
  public is stored, since the last two conditions form an alternative of their own.\<close>

lemma no_store_is_stored:
  "\<exists>req res. HasDirective (response_cc res) ''no-store'' \<and> HasDirective (response_cc res) ''private''
     \<and> req_method req = ''PUT'' \<and> \<not> rfc_may_store req res \<and> \<not> mustNotStore req res"
proof (intro exI conjI)
  let ?req = "example_request ''PUT'' [(''Authorization'', [''Basic dTpw''])]"
  let ?res = "plain_response 500 [(''Cache-Control'', [''no-store, private, public''])]"
  show "HasDirective (response_cc ?res) ''no-store''" by code_simp
  show "HasDirective (response_cc ?res) ''private''" by code_simp
  show "req_method ?req = ''PUT''" by (simp add: example_request_def)
  show "\<not> rfc_may_store ?req ?res" by code_simp
  show "\<not> mustNotStore ?req ?res" by code_simp
qed

end
