(* ===== verification/GoHttpMessage.thy ===== *)
theory GoHttpMessage
  imports GoHttp "HOL-Library.Char_ord" "HOL-Library.List_Lexorder" "HOL-Library.Multiset"
begin

text \<open>
  HTTP/1.1 responses as bytes, as Go 1.19's \<^verbatim>\<open>net/http\<close> writes and reads them:
  \<^verbatim>\<open>http.StatusText\<close>, \<^verbatim>\<open>Header.Write\<close> and \<^verbatim>\<open>http.ReadResponse\<close> with the line and header reader of
  \<^verbatim>\<open>net/textproto\<close> and the rules for the length of the body.
\<close>

section \<open>Writing\<close>

definition status_texts :: "(int \<times> string) list" where
  "status_texts =
    [(100, ''Continue''), (101, ''Switching Protocols''), (102, ''Processing''), (103, ''Early Hints''),
     (200, ''OK''), (201, ''Created''), (202, ''Accepted''), (203, ''Non-Authoritative Information''),
     (204, ''No Content''), (205, ''Reset Content''), (206, ''Partial Content''),
     (207, ''Multi-Status''), (208, ''Already Reported''), (226, ''IM Used''),
     (300, ''Multiple Choices''), (301, ''Moved Permanently''), (302, ''Found''), (303, ''See Other''),
     (304, ''Not Modified''), (305, ''Use Proxy''), (307, ''Temporary Redirect''),
     (308, ''Permanent Redirect''), (400, ''Bad Request''), (401, ''Unauthorized''),
     (402, ''Payment Required''), (403, ''Forbidden''), (404, ''Not Found''),
     (405, ''Method Not Allowed''), (406, ''Not Acceptable''), (407, ''Proxy Authentication Required''),
     (408, ''Request Timeout''), (409, ''Conflict''), (410, ''Gone''), (411, ''Length Required''),
     (412, ''Precondition Failed''), (413, ''Request Entity Too Large''),
     (414, ''Request URI Too Long''), (415, ''Unsupported Media Type''),
     (416, ''Requested Range Not Satisfiable''), (417, ''Expectation Failed''),
     (418, ''I'' @ [char_of (39 :: nat)] @ ''m a teapot''), (421, ''Misdirected Request''),
     (422, ''Unprocessable Entity''), (423, ''Locked''), (424, ''Failed Dependency''),
     (425, ''Too Early''), (426, ''Upgrade Required''), (428, ''Precondition Required''),
     (429, ''Too Many Requests''), (431, ''Request Header Fields Too Large''),
     (451, ''Unavailable For Legal Reasons''), (500, ''Internal Server Error''),
     (501, ''Not Implemented''), (502, ''Bad Gateway''), (503, ''Service Unavailable''),
     (504, ''Gateway Timeout''), (505, ''HTTP Version Not Supported''),
     (506, ''Variant Also Negotiates''), (507, ''Insufficient Storage''), (508, ''Loop Detected''),
     (510, ''Not Extended''), (511, ''Network Authentication Required'')]"

definition StatusText :: "int \<Rightarrow> string" where
  "StatusText code = (case map_of status_texts code of None \<Rightarrow> [] | Some t \<Rightarrow> t)"

lemma StatusText_code [code]:
  "StatusText n =
     (if n = 200 then ''OK''
      else case map_of status_texts n of None \<Rightarrow> [] | Some t \<Rightarrow> t)"
  by (simp add: StatusText_def status_texts_def)

definition LF :: char where "LF = CHR 0x0A"
definition CR :: char where "CR = CHR 0x0D"

text \<open>\<^verbatim>\<open>textproto.TrimString\<close> and the replacement of line breaks by spaces.\<close>

definition ascii_space :: "char \<Rightarrow> bool" where
  "ascii_space c \<longleftrightarrow> c = CHR '' '' \<or> c = CHR 0x09 \<or> c = LF \<or> c = CR"

definition TrimString :: "string \<Rightarrow> string" where
  "TrimString s = trim_while ascii_space s"

definition headerNewlineToSpace :: "string \<Rightarrow> string" where
  "headerNewlineToSpace s = map (\<lambda>c. if c = LF \<or> c = CR then CHR '' '' else c) s"

definition clean_value :: "string \<Rightarrow> string" where
  "clean_value v = TrimString (headerNewlineToSpace v)"

definition ValidHeaderFieldName :: "string \<Rightarrow> bool" where
  "ValidHeaderFieldName k \<longleftrightarrow> k \<noteq> [] \<and> list_all token_byte k"

definition header_line :: "string \<Rightarrow> string \<Rightarrow> string" where
  "header_line k v = k @ '': '' @ clean_value v @ [CR, LF]"

definition header_Write :: "header \<Rightarrow> string" where
  "header_Write h =
     concat (map (\<lambda>(k, vs). if ValidHeaderFieldName k then concat (map (header_line k) vs) else [])
       (sort_key fst h))"

section \<open>Reading lines\<close>

text \<open>A line without its end; \<open>None\<close> at the end of the input.\<close>

definition read_line :: "string \<Rightarrow> (string \<times> string) option" where
  "read_line s =
     (case Cut s [LF] of
        None \<Rightarrow> if s = [] then None else Some (s, [])
      | Some (l, rest) \<Rightarrow>
          Some ((if l \<noteq> [] \<and> last l = CR then butlast l else l), rest))"

definition is_blank :: "char \<Rightarrow> bool" where
  "is_blank c \<longleftrightarrow> c = CHR '' '' \<or> c = CHR 0x09"

lemma read_line_length: "read_line s = Some (l, rest) \<Longrightarrow> length rest < length s"
  by (auto simp: read_line_def dest: Cut_Some_length split: option.splits if_splits)

text \<open>Continuation lines start with a blank; each adds a space and its trimmed text.\<close>

function read_continuations :: "string \<Rightarrow> string \<Rightarrow> string \<times> string" where
  "read_continuations buf s =
     (let r = dropWhile is_blank s
      in if length r = length s then (buf, s)
         else case read_line r of
                None \<Rightarrow> (buf @ '' '', [])
              | Some (l, rest) \<Rightarrow> read_continuations (buf @ '' '' @ trim_while is_blank l) rest)"
  by pat_completeness auto
termination
proof (relation "measure (\<lambda>(buf, s). length s)")
  fix buf s r x l rest
  assume "r = dropWhile is_blank s" and "read_line r = Some x" and "(l, rest) = x"
  then show "((buf @ '' '' @ trim_while is_blank l, rest), buf, s) \<in> measure (\<lambda>(buf, s). length s)"
    using read_line_length [of r l rest] length_dropWhile_le [of is_blank s] by simp
qed simp

declare read_continuations.simps [simp del]

lemma read_continuations_length: "length (snd (read_continuations buf s)) \<le> length s"
proof (induction buf s rule: read_continuations.induct)
  case (1 buf s)
  let ?r = "dropWhile is_blank s"
  have r: "length ?r \<le> length s" by (rule length_dropWhile_le)
  show ?case
  proof (cases "length ?r = length s \<or> read_line ?r = None")
    case True
    then show ?thesis by (subst read_continuations.simps) (auto simp: Let_def)
  next
    case False
    then obtain l rest where l: "read_line ?r = Some (l, rest)" by auto
    then have "length rest < length ?r" by (rule read_line_length)
    with False l 1 [of ?r "(l, rest)" l rest] r show ?thesis
      by (subst read_continuations.simps) (auto simp: Let_def)
  qed
qed

section \<open>Reading a header\<close>

function read_fields :: "header \<Rightarrow> string \<Rightarrow> (header \<times> string) option" where
  "read_fields h s =
     (case read_line s of
        None \<Rightarrow> None
      | Some (line, rest) \<Rightarrow>
          if line = [] then Some (h, rest)
          else if CHR '':'' \<notin> set line then None
          else let (kv, rest') = read_continuations (trim_while is_blank line) rest
               in case Cut kv '':'' of
                    None \<Rightarrow> None
                  | Some (k, v) \<Rightarrow>
                      if k = [] then read_fields h rest'
                      else read_fields (hdr_Add h k (dropWhile is_blank v)) rest')"
  by pat_completeness auto
termination
proof (relation "measure (\<lambda>(h, s). length s)")
  fix h :: header and s x line rest y kv rest' k v
  assume a: "read_line s = Some x" "(line, rest) = x"
    and b: "y = read_continuations (trim_while is_blank line) rest" "(kv, rest') = y"
  have "length rest' \<le> length rest"
    using read_continuations_length [of "trim_while is_blank line" rest] b by (metis snd_conv)
  moreover have "length rest < length s" using a by (auto dest: read_line_length)
  ultimately have "length rest' < length s" by simp
  then show "((h, rest'), h, s) \<in> measure (\<lambda>(h, s). length s)"
    and "((hdr_Add h k (dropWhile is_blank v), rest'), h, s) \<in> measure (\<lambda>(h, s). length s)"
    by simp_all
qed simp

declare read_fields.simps [simp del]

definition ReadMIMEHeader :: "string \<Rightarrow> (header \<times> string) option" where
  "ReadMIMEHeader s = (if s \<noteq> [] \<and> is_blank (hd s) then None else read_fields [] s)"

section \<open>The length of the body\<close>

text \<open>A size in hexadecimal digits, at most sixteen; no digits mean zero.\<close>

definition parse_hex :: "string \<Rightarrow> nat option" where
  "parse_hex s =
     (if list_all is_hex s \<and> length s \<le> 16
      then Some (foldl (\<lambda>n c. 16 * n + unhex c) 0 s) else None)"

text \<open>
  A chunked body: the bytes that it yields before its end or the first error.
\<close>

function decode_chunked :: "string \<Rightarrow> string" where
  "decode_chunked s =
     (case Cut s [LF] of
        None \<Rightarrow> []
      | Some (l, rest) \<Rightarrow>
          if length l + 1 \<ge> 4096 then []
          else case parse_hex (takeWhile (\<lambda>c. c \<noteq> CHR '';'') (rev (dropWhile ascii_space (rev l)))) of
                 None \<Rightarrow> []
               | Some n \<Rightarrow>
                   if n = 0 then []
                   else if length rest < n + 2 \<or> take 2 (drop n rest) \<noteq> [CR, LF] then take n rest
                   else take n rest @ decode_chunked (drop (n + 2) rest))"
  by pat_completeness auto
termination
proof (relation "measure length")
  fix s x l rest n
  assume "Cut s [LF] = Some x" "(l, rest) = x"
  then have "length rest < length s" by (auto dest: Cut_Some_length)
  then show "(drop (n + 2) rest, s) \<in> measure length" by simp
qed simp

declare decode_chunked.simps [simp del]

text \<open>\<open>-1\<close> stands for a length that is not given, \<open>None\<close> for an error.\<close>

definition parseContentLength :: "string \<Rightarrow> int option" where
  "parseContentLength s =
     (let cl = TrimString s
      in if cl = [] then Some (- 1)
         else case parse_digits 9223372036854775807 0 cl of Inl _ \<Rightarrow> None | Inr n \<Rightarrow> Some n)"

definition dedup_length :: "header \<Rightarrow> header option" where
  "dedup_length h =
     (case hdr_Values h ''Content-Length'' of
        c # d # cs \<Rightarrow>
          if list_all (\<lambda>e. TrimString e = TrimString c) (d # cs)
          then Some (hdr_Add (hdr_Del h ''Content-Length'') ''Content-Length'' (TrimString c))
          else None
      | _ \<Rightarrow> Some h)"

definition fixLength :: "int \<Rightarrow> string \<Rightarrow> header \<Rightarrow> bool \<Rightarrow> (int \<times> header) option" where
  "fixLength status method h chunked =
     (case dedup_length h of
        None \<Rightarrow> None
      | Some h \<Rightarrow>
          if method = ''HEAD'' \<or> status div 100 = 1 \<or> status = 204 \<or> status = 304 then Some (0, h)
          else if chunked then Some (- 1, h)
          else let cl = TrimString (hdr_Get h ''Content-Length'')
               in if cl \<noteq> [] then map_option (\<lambda>n. (n, h)) (parseContentLength cl)
                  else Some (- 1, hdr_Del h ''Content-Length''))"

definition parseTransferEncoding :: "header \<Rightarrow> (bool \<times> header) option" where
  "parseTransferEncoding h =
     (case hdr_Values h ''Transfer-Encoding'' of
        [] \<Rightarrow> Some (False, h)
      | [te] \<Rightarrow>
          if ToLower te = ''chunked''
          then Some (True, hdr_Del (hdr_Del h ''Transfer-Encoding'') ''Content-Length'')
          else None
      | _ \<Rightarrow> None)"

definition comma_elements :: "string \<Rightarrow> string list" where
  "comma_elements v = filter (\<lambda>f. f \<noteq> []) (map TrimString (Split v '',''))"

definition fixTrailer :: "header \<Rightarrow> bool \<Rightarrow> header option" where
  "fixTrailer h chunked =
     (if hdr_Values h ''Trailer'' = [] \<or> \<not> chunked then Some h
      else if list_ex (\<lambda>k. canon_key k \<in> {''Transfer-Encoding'', ''Trailer'', ''Content-Length''})
                (concat (map comma_elements (hdr_Values h ''Trailer''))) then None
      else Some (hdr_Del h ''Trailer''))"

definition readTransfer :: "int \<Rightarrow> string \<Rightarrow> header \<Rightarrow> string \<Rightarrow> (header \<times> string) option" where
  "readTransfer status method h input =
     (case parseTransferEncoding h of
        None \<Rightarrow> None
      | Some (chunked, h1) \<Rightarrow>
          (case fixLength status method h1 chunked of
             None \<Rightarrow> None
           | Some (realLength, h2) \<Rightarrow>
               if method = ''HEAD'' \<and> parseContentLength (hdr_Get h2 ''Content-Length'') = None then None
               else (case fixTrailer h2 chunked of
                       None \<Rightarrow> None
                     | Some h3 \<Rightarrow>
                         Some (h3,
                           if chunked
                           then (if method = ''HEAD'' \<or> status div 100 = 1 \<or> status = 204 \<or> status = 304
                                 then [] else decode_chunked input)
                           else if realLength = 0 then []
                           else if realLength > 0 then take (nat realLength) input
                           else input))))"

section \<open>Reading a response\<close>

definition ParseHTTPVersion :: "string \<Rightarrow> bool" where
  "ParseHTTPVersion v \<longleftrightarrow>
     length v = 8 \<and> HasPrefix v ''HTTP/'' \<and> v ! 6 = CHR ''.'' \<and> is_digit (v ! 5) \<and> is_digit (v ! 7)"

definition http11 :: "string \<Rightarrow> bool" where
  "http11 v \<longleftrightarrow> digit_val (v ! 5) > 1 \<or> (digit_val (v ! 5) = 1 \<and> digit_val (v ! 7) \<ge> 1)"

text \<open>A version before 1.1 drops Transfer-Encoding unread.\<close>

definition drop_old_encoding :: "string \<Rightarrow> header \<Rightarrow> header" where
  "drop_old_encoding proto h = (if http11 proto then h else hdr_Del h ''Transfer-Encoding'')"

definition fixPragmaCacheControl :: "header \<Rightarrow> header" where
  "fixPragmaCacheControl h =
     (if hdr_Get h ''Pragma'' = ''no-cache'' \<and> hdr_Values h ''Cache-Control'' = []
      then hdr_Set h ''Cache-Control'' ''no-cache'' else h)"

definition read_status_line :: "string \<Rightarrow> (string \<times> int) option" where
  "read_status_line line =
     (case Cut line '' '' of
        None \<Rightarrow> None
      | Some (proto, status) \<Rightarrow>
          let code = takeWhile (\<lambda>c. c \<noteq> CHR '' '') (TrimLeft status '' '')
          in if length code \<noteq> 3 then None
             else case Atoi code of
                    Inl _ \<Rightarrow> None
                  | Inr n \<Rightarrow> if n < 0 \<or> \<not> ParseHTTPVersion proto then None else Some (proto, n))"

definition ReadResponse :: "string \<Rightarrow> request \<Rightarrow> response option" where
  "ReadResponse bytes req =
     (case read_line bytes of
        None \<Rightarrow> None
      | Some (line, rest) \<Rightarrow>
          (case read_status_line line of
             None \<Rightarrow> None
           | Some (proto, status) \<Rightarrow>
               (case ReadMIMEHeader rest of
                  None \<Rightarrow> None
                | Some (h, body) \<Rightarrow>
                    map_option
                      (\<lambda>(h', b). \<lparr>res_status = status, res_header = h', res_body = b,
                                  res_request = Some req\<rparr>)
                      (readTransfer status (req_method req)
                        (drop_old_encoding proto (fixPragmaCacheControl h)) body))))"

section \<open>Writing and reading a header\<close>

lemma clean_value_no_break: "LF \<notin> set (clean_value v) \<and> CR \<notin> set (clean_value v)"
proof -
  have "set (dropWhile P (rev (dropWhile P xs))) \<subseteq> set xs" for P and xs :: string
    using set_dropWhileD [of _ P xs] set_dropWhileD [of _ P "rev (dropWhile P xs)"] by fastforce
  then have "set (clean_value v) \<subseteq> set (headerNewlineToSpace v)"
    by (simp add: clean_value_def TrimString_def trim_while_def)
  moreover have "LF \<notin> set (headerNewlineToSpace v)" "CR \<notin> set (headerNewlineToSpace v)"
    by (auto simp: headerNewlineToSpace_def LF_def CR_def split: if_splits)
  ultimately show ?thesis by blast
qed

lemma trim_while_ends:
  "trim_while P s = [] \<or> (\<not> P (hd (trim_while P s)) \<and> \<not> P (last (trim_while P s)))"
proof -
  let ?d = "dropWhile P (rev (dropWhile P s))"
  show ?thesis
  proof (cases ?d)
    case Nil
    then show ?thesis by (simp add: trim_while_def)
  next
    case (Cons c cs)
    then have "?d \<noteq> []" by simp
    then have "\<not> P (hd ?d)" by (rule hd_dropWhile)
    moreover have "last ?d = hd (dropWhile P s)"
    proof -
      obtain us where "rev (dropWhile P s) = us @ ?d" by (metis takeWhile_dropWhile_id)
      then have "dropWhile P s = rev ?d @ rev us" by (metis rev_append rev_rev_ident)
      with \<open>?d \<noteq> []\<close> show ?thesis by (metis hd_append hd_rev rev_is_Nil_conv)
    qed
    moreover have "dropWhile P s \<noteq> []"
      using \<open>?d \<noteq> []\<close> by (cases "dropWhile P s") simp_all
    then have "\<not> P (hd (dropWhile P s))" by (rule hd_dropWhile)
    ultimately show ?thesis using \<open>?d \<noteq> []\<close> by (simp add: trim_while_def hd_rev last_rev)
  qed
qed

lemma clean_value_ends:
  "clean_value v = [] \<or> (\<not> is_blank (hd (clean_value v)) \<and> \<not> is_blank (last (clean_value v)))"
  using trim_while_ends [of ascii_space "headerNewlineToSpace v"]
  by (auto simp: clean_value_def TrimString_def ascii_space_def is_blank_def)

lemma read_line_crlf:
  assumes "LF \<notin> set l" shows "read_line (l @ [CR, LF] @ rest) = Some (l, rest)"
  using assms Cut_append [of LF "l @ [CR]" "[]" rest] by (auto simp: read_line_def CR_def LF_def)

lemma read_line_lf:
  assumes "LF \<notin> set l" and "CR \<notin> set l" shows "read_line (l @ LF # rest) = Some (l, rest)"
proof -
  have "Cut (l @ LF # rest) [LF] = Some (l, rest)"
    using Cut_append [of LF l "[]" rest] assms by simp
  moreover have "l = [] \<or> last l \<noteq> CR" using assms(2) last_in_set by fastforce
  ultimately show ?thesis by (auto simp: read_line_def)
qed

lemma read_continuations_none:
  assumes "s = [] \<or> \<not> is_blank (hd s)" shows "read_continuations buf s = (buf, s)"
  using assms by (subst read_continuations.simps) (simp add: dropWhile_hd Let_def)

lemma token_not_blank: "token_byte c \<Longrightarrow> \<not> is_blank c \<and> c \<noteq> CHR '':'' \<and> c \<noteq> LF \<and> c \<noteq> CR"
  by (auto simp: token_byte_def is_blank_def LF_def CR_def is_alnum_def is_lower_def is_upper_def
      is_digit_def byte_def)

text \<open>One header line is read back as its name and its cleaned value.\<close>

lemma trim_while_last: "s = [] \<or> \<not> P (last s) \<Longrightarrow> s \<noteq> [] \<Longrightarrow> \<not> P (hd s) \<Longrightarrow> trim_while P s = s"
  by (intro trim_while_id) auto

lemma read_fields_line:
  assumes k: "ValidHeaderFieldName k" and s: "s = [] \<or> \<not> is_blank (hd s)"
  shows "read_fields h (header_line k v @ s) = read_fields (hdr_Add h k (clean_value v)) s"
proof -
  let ?line = "k @ '': '' @ clean_value v"
  let ?kv = "if clean_value v = [] then k @ '':'' else ?line"
  have tok: "\<And>c. c \<in> set k \<Longrightarrow> \<not> is_blank c \<and> c \<noteq> CHR '':'' \<and> c \<noteq> LF \<and> c \<noteq> CR"
    using k token_not_blank by (auto simp: ValidHeaderFieldName_def list_all_iff)
  have kne: "k \<noteq> []" using k by (simp add: ValidHeaderFieldName_def)
  then have hd: "\<not> is_blank (hd k)" using tok by simp
  have "LF \<notin> set ?line" using tok clean_value_no_break [of v] by (auto simp: LF_def)
  then have rl: "read_line (header_line k v @ s) = Some (?line, s)"
    using read_line_crlf [of ?line s] by (simp add: header_line_def)
  have tr: "trim_while is_blank ?line = ?kv"
  proof (cases "clean_value v = []")
    case True
    have "rev ?line = '' '' @ CHR '':'' # rev k" using True by simp
    then show ?thesis
      using True kne hd by (cases k) (simp_all add: trim_while_def is_blank_def)
  next
    case False
    have "\<not> is_blank (last ?line)" using False clean_value_ends [of v] by simp
    moreover have "\<not> is_blank (hd ?line)" using kne hd by (cases k) simp_all
    ultimately show ?thesis using False kne trim_while_last [of ?line is_blank] by simp
  qed
  have cut: "Cut ?kv '':'' = Some (k, if clean_value v = [] then [] else CHR '' '' # clean_value v)"
    using tok Cut_append [of "CHR '':''" k "[]" "[]"]
      Cut_append [of "CHR '':''" k "[]" "CHR '' '' # clean_value v"] by auto
  have dw: "dropWhile is_blank (if clean_value v = [] then [] else CHR '' '' # clean_value v) = clean_value v"
    using clean_value_ends [of v] by (auto simp: is_blank_def dropWhile_hd)
  have "CHR '':'' \<in> set ?line" and "?line \<noteq> []" by simp_all
  then have "read_fields h (header_line k v @ s)
      = read_fields (hdr_Add h k (dropWhile is_blank (if clean_value v = [] then [] else CHR '' '' # clean_value v))) s"
    by (subst read_fields.simps)
       (simp only: rl option.case prod.case tr read_continuations_none [OF s] cut kne if_False if_True
        not_True_eq_False Let_def simp_thms)
  then show ?thesis unfolding dw .
qed

definition add_cleaned :: "header \<Rightarrow> string \<Rightarrow> string list \<Rightarrow> header" where
  "add_cleaned h k vs = foldl (\<lambda>h v. hdr_Add h k v) h (map clean_value vs)"

lemma hdr_Values_add_cleaned:
  "hdr_Values (add_cleaned h k vs) k' =
     (if canon_key k' = canon_key k then hdr_Values h k' @ map clean_value vs else hdr_Values h k')"
  by (simp add: add_cleaned_def hdr.vals_adds_list)

lemma hd_header_line: "ValidHeaderFieldName k \<Longrightarrow> header_line k v \<noteq> [] \<and> \<not> is_blank (hd (header_line k v))"
  using token_not_blank by (cases k) (auto simp: ValidHeaderFieldName_def header_line_def)

lemma read_fields_values:
  assumes "ValidHeaderFieldName k" and "s = [] \<or> \<not> is_blank (hd s)"
  shows "read_fields h (concat (map (header_line k) vs) @ s) = read_fields (add_cleaned h k vs) s"
proof (induction vs arbitrary: h)
  case (Cons v vs)
  have "concat (map (header_line k) vs) @ s = [] \<or> \<not> is_blank (hd (concat (map (header_line k) vs) @ s))"
    using assms hd_header_line [OF assms(1)] by (cases vs) auto
  then have "read_fields h (header_line k v @ concat (map (header_line k) vs) @ s)
      = read_fields (hdr_Add h k (clean_value v)) (concat (map (header_line k) vs) @ s)"
    by (rule read_fields_line [OF assms(1)])
  with Cons show ?case by (simp add: add_cleaned_def)
qed (simp add: add_cleaned_def)

definition header_lines :: "header \<Rightarrow> string" where
  "header_lines kvs =
     concat (map (\<lambda>(k, vs). if ValidHeaderFieldName k then concat (map (header_line k) vs) else []) kvs)"

lemma hd_header_lines:
  "s = [] \<or> \<not> is_blank (hd s) \<Longrightarrow> header_lines kvs @ s = [] \<or> \<not> is_blank (hd (header_lines kvs @ s))"
proof (induction kvs)
  case (Cons p kvs)
  obtain k vs where p: "p = (k, vs)" by (cases p)
  show ?case
  proof (cases "ValidHeaderFieldName k \<and> vs \<noteq> []")
    case True
    then obtain v ws where "vs = v # ws" by (cases vs) auto
    with True hd_header_line [of k v] show ?thesis by (simp add: header_lines_def p)
  next
    case False
    with Cons show ?thesis by (auto simp: header_lines_def p)
  qed
qed (simp add: header_lines_def)

lemma read_fields_lines:
  assumes "s = [] \<or> \<not> is_blank (hd s)"
  shows "read_fields h (header_lines kvs @ s) =
    read_fields (foldl (\<lambda>h (k, vs). if ValidHeaderFieldName k then add_cleaned h k vs else h) h kvs) s"
proof (induction kvs arbitrary: h)
  case (Cons p kvs)
  obtain k vs where p: "p = (k, vs)" by (cases p)
  show ?case
  proof (cases "ValidHeaderFieldName k")
    case True
    then have "read_fields h (concat (map (header_line k) vs) @ header_lines kvs @ s)
        = read_fields (add_cleaned h k vs) (header_lines kvs @ s)"
      using hd_header_lines [OF assms] by (rule read_fields_values)
    with True Cons show ?thesis by (simp add: header_lines_def p)
  next
    case False
    with Cons show ?thesis by (simp add: header_lines_def p)
  qed
qed (simp add: header_lines_def)

text \<open>A header whose names are all valid is read back with cleaned values.\<close>

definition wire_header :: "header \<Rightarrow> bool" where
  "wire_header h \<longleftrightarrow> wf_header h \<and> list_all (\<lambda>(k, vs). ValidHeaderFieldName k) h"

lemma foldl_add_cleaned:
  assumes "distinct (map fst kvs)"
    and "list_all (\<lambda>(k, vs). ValidHeaderFieldName k \<and> canon_key k = k) kvs"
  shows "hdr_Values (foldl (\<lambda>h (k, vs). if ValidHeaderFieldName k then add_cleaned h k vs else h) h kvs) name
       = hdr_Values h name @ map clean_value (case map_of kvs (canon_key name) of None \<Rightarrow> [] | Some vs \<Rightarrow> vs)"
  using assms
proof (induction kvs arbitrary: h)
  case (Cons p kvs)
  obtain k vs where p: "p = (k, vs)" by (cases p)
  have "canon_key name = k \<Longrightarrow> map_of kvs k = None"
    using Cons.prems(1) by (simp add: p map_of_eq_None_iff)
  with Cons p show ?case by (auto simp: hdr_Values_add_cleaned)
qed simp

lemma distinct_map_sort_key: "distinct (map fst (sort_key fst h)) = distinct (map fst h)"
  by (rule mset_eq_imp_distinct_iff) simp

text \<open>The lines are sorted by their names, so they do not depend on the order in which Go walks through the map.\<close>

lemma header_Write_order: "mset h = mset h' \<Longrightarrow> distinct (map fst h) \<Longrightarrow> header_Write h = header_Write h'"
proof -
  assume h: "mset h = mset h'" and "distinct (map fst h)"
  then have "inj_on fst (set h)" by (simp add: distinct_map)
  then have "sort_key fst h = sort_key fst h'"
    using h by (intro sort_key_inj_key_eq) simp_all
  then show ?thesis by (simp add: header_Write_def)
qed

lemma map_of_sort_key: "distinct (map fst h) \<Longrightarrow> map_of (sort_key fst h) = map_of h"
  by (subst map_of_inject_set) (simp_all add: distinct_map_sort_key)

lemma ReadMIMEHeader_Write:
  assumes "wire_header h"
  shows "\<exists>h'. ReadMIMEHeader (header_Write h @ LF # body) = Some (h', body)
           \<and> (\<forall>name. hdr_Values h' name = map clean_value (hdr_Values h name))"
proof -
  let ?kvs = "sort_key fst h"
  let ?h' = "foldl (\<lambda>h (k, vs). if ValidHeaderFieldName k then add_cleaned h k vs else h) [] ?kvs"
  have lf: "LF # body = [] \<or> \<not> is_blank (hd (LF # body))" by (simp add: is_blank_def LF_def)
  have w: "header_Write h = header_lines ?kvs" by (simp add: header_Write_def header_lines_def)
  have "read_fields ?h' (LF # body) = Some (?h', body)"
    using read_line_lf [of "[]" body] by (subst read_fields.simps) simp
  then have r: "read_fields [] (header_Write h @ LF # body) = Some (?h', body)"
    unfolding w read_fields_lines [OF lf] .
  have d: "distinct (map fst h)" and l: "list_all (\<lambda>(k, vs). ValidHeaderFieldName k \<and> canon_key k = k) h"
    using assms by (auto simp: wire_header_def wf_header_def list_all_iff)
  have "distinct (map fst ?kvs)" using d by (simp add: distinct_map_sort_key)
  moreover have "list_all (\<lambda>(k, vs). ValidHeaderFieldName k \<and> canon_key k = k) ?kvs"
    using l by (simp add: list_all_iff)
  ultimately have "hdr_Values ?h' name = map clean_value (hdr_Values h name)" for name
    using foldl_add_cleaned [of ?kvs "[]" name] map_of_sort_key [OF d] by (simp add: hdr_Values_def)
  with r show ?thesis
    using hd_header_lines [OF lf, of ?kvs] unfolding w ReadMIMEHeader_def by auto
qed

section \<open>Writing and reading the status line\<close>

lemma StatusText_no_break: "LF \<notin> set (StatusText n) \<and> CR \<notin> set (StatusText n)"
proof -
  have t: "list_all (\<lambda>(c, s). LF \<notin> set s \<and> CR \<notin> set s) status_texts" by code_simp
  show ?thesis
  proof (cases "map_of status_texts n")
    case (Some s)
    then have "(n, s) \<in> set status_texts" by (rule map_of_SomeD)
    with t Some show ?thesis by (auto simp: StatusText_def list_all_iff)
  qed (simp add: StatusText_def)
qed

lemma length_show_nat3: "100 \<le> n \<Longrightarrow> n \<le> 999 \<Longrightarrow> length (show_nat n) = 3"
proof -
  assume n: "100 \<le> n" "n \<le> 999"
  have "length (show_nat (n div 10 div 10)) = 1"
    by (subst show_nat.simps) (use n in simp)
  then have "length (show_nat (n div 10)) = 2"
    by (subst show_nat.simps) (use n in simp)
  then show ?thesis
    by (subst show_nat.simps) (use n in simp)
qed

lemma read_status_line_written:
  assumes "100 \<le> n" and "n \<le> 999"
  shows "read_status_line (''HTTP/1.1 '' @ show_nat n @ '' '' @ text) = Some (''HTTP/1.1'', int n)"
proof -
  have sp: "CHR '' '' \<notin> set (show_nat n)"
    using show_nat_digits [of "CHR '' ''" n] by (auto simp: is_digit_def byte_def)
  obtain c cs where c: "show_nat n = c # cs" by (cases "show_nat n") simp_all
  with sp have "TrimLeft (show_nat n @ '' '' @ text) '' '' = show_nat n @ '' '' @ text"
    by (auto simp: TrimLeft_def)
  moreover have "takeWhile (\<lambda>c. c \<noteq> CHR '' '') (show_nat n @ '' '' @ text) = show_nat n"
    using sp by (subst takeWhile_append2) auto
  moreover have "Atoi (show_nat n) = Inr (int n)" using assms by (intro Atoi_show_nat) simp
  moreover have "Cut (''HTTP/1.1'' @ '' '' @ show_nat n @ '' '' @ text) '' ''
      = Some (''HTTP/1.1'', show_nat n @ '' '' @ text)"
    using Cut_append [of "CHR '' ''" "''HTTP/1.1''" "[]"] by simp
  moreover have "ParseHTTPVersion ''HTTP/1.1''" by code_simp
  ultimately show ?thesis
    using length_show_nat3 [OF assms] by (simp add: read_status_line_def)
qed

section \<open>Headers that are read are well formed\<close>

lemma wf_header_Nil: "wf_header []"
  by (simp add: wf_header_def)

lemmas wf_header_ops = wf_header_Nil wf_header_Set wf_header_Add wf_header_Del

lemma wf_read_fields: "wf_header h \<Longrightarrow> read_fields h s = Some (h', rest) \<Longrightarrow> wf_header h'"
proof (induction h s rule: read_fields.induct)
  case (1 h s)
  show ?case
  proof (cases "read_line s")
    case None
    with 1(4) show ?thesis by (simp add: read_fields.simps [of h s])
  next
    case (Some p)
    obtain line r where p: "p = (line, r)" by (cases p)
    obtain kv r' where kv: "read_continuations (trim_while is_blank line) r = (kv, r')"
      by (cases "read_continuations (trim_while is_blank line) r")
    show ?thesis
    proof (cases "line = []")
      case True
      with 1(3,4) Some p show ?thesis by (simp add: read_fields.simps [of h s])
    next
      case False
      with 1(4) Some p kv obtain k v where c: "CHR '':'' \<in> set line" "Cut kv '':'' = Some (k, v)"
        by (auto simp: read_fields.simps [of h s] split: if_splits option.splits)
      note IH = 1(1,2) [OF Some p [symmetric] False _ kv [symmetric] refl c(2) refl]
      show ?thesis
      proof (cases "k = []")
        case True
        with 1(4) Some p kv c False have "read_fields h r' = Some (h', rest)"
          by (simp add: read_fields.simps [of h s])
        with IH(1) c(1) True 1(3) show ?thesis by simp
      next
        case k: False
        with 1(4) Some p kv c False
        have "read_fields (hdr_Add h k (dropWhile is_blank v)) r' = Some (h', rest)"
          by (simp add: read_fields.simps [of h s])
        with IH(2) c(1) k 1(3) show ?thesis by (simp add: wf_header_ops)
      qed
    qed
  qed
qed

lemma wf_parseTransferEncoding:
  "wf_header h \<Longrightarrow> parseTransferEncoding h = Some (c, h') \<Longrightarrow> wf_header h'"
  by (auto simp: parseTransferEncoding_def wf_header_ops split: list.splits if_splits)

lemma wf_fixLength: "wf_header h \<Longrightarrow> fixLength status method h c = Some (n, h') \<Longrightarrow> wf_header h'"
proof -
  have "wf_header g'" if "wf_header g" "dedup_length g = Some g'" for g g'
    using that by (auto simp: dedup_length_def wf_header_ops split: list.splits if_splits)
  then show "wf_header h \<Longrightarrow> fixLength status method h c = Some (n, h') \<Longrightarrow> wf_header h'"
    by (auto simp: fixLength_def Let_def wf_header_ops split: option.splits if_splits)
qed

lemma wf_fixTrailer: "wf_header h \<Longrightarrow> fixTrailer h c = Some h' \<Longrightarrow> wf_header h'"
  by (auto simp: fixTrailer_def wf_header_ops split: if_splits)

lemma wf_readTransfer:
  assumes "wf_header h" and "readTransfer status method h input = Some (h', body)"
  shows "wf_header h'"
proof -
  obtain c h1 where 1: "parseTransferEncoding h = Some (c, h1)"
    using assms(2) by (cases "parseTransferEncoding h") (auto simp: readTransfer_def)
  obtain n h2 where 2: "fixLength status method h1 c = Some (n, h2)"
    using assms(2) 1 by (cases "fixLength status method h1 c") (auto simp: readTransfer_def)
  have "fixTrailer h2 c = Some h'"
    using assms(2) 1 2 by (cases "fixTrailer h2 c") (auto simp: readTransfer_def split: if_splits)
  with assms(1) 1 2 show ?thesis
    using wf_parseTransferEncoding wf_fixLength wf_fixTrailer by blast
qed

lemma ReadResponse_wf:
  assumes "ReadResponse bytes req = Some r" shows "wf_header (res_header r)"
proof -
  obtain line rest where 1: "read_line bytes = Some (line, rest)"
    using assms by (cases "read_line bytes") (auto simp: ReadResponse_def)
  obtain proto status where 2: "read_status_line line = Some (proto, status)"
    using assms 1 by (cases "read_status_line line") (auto simp: ReadResponse_def)
  obtain h body where 3: "ReadMIMEHeader rest = Some (h, body)"
    using assms 1 2 by (cases "ReadMIMEHeader rest") (auto simp: ReadResponse_def)
  then have "read_fields [] rest = Some (h, body)" by (simp add: ReadMIMEHeader_def split: if_splits)
  then have "wf_header h" by (rule wf_read_fields [OF wf_header_Nil])
  then have "wf_header (drop_old_encoding proto (fixPragmaCacheControl h))"
    by (simp add: drop_old_encoding_def fixPragmaCacheControl_def wf_header_ops)
  moreover obtain b where "readTransfer status (req_method req)
      (drop_old_encoding proto (fixPragmaCacheControl h)) body = Some (res_header r, b)"
    using assms 1 2 3 by (auto simp: ReadResponse_def)
  ultimately show ?thesis by (rule wf_readTransfer)
qed

end
