(* ===== verification/Tee.thy ===== *)
theory Tee
  imports GoHttpMessage GoTime
begin

text \<open>
  The response saver, \<^verbatim>\<open>pkg/response-writer-tee/tee.go\<close>: a response writer that records the
  response as HTTP/1.1 bytes and passes it on to the client's response writer, unless there is
  none or the status code is the one to be filtered out.
\<close>

section \<open>The client's response writer\<close>

text \<open>
  The writer that Go's server hands to a handler: its header map, the status and header that the
  first \<^verbatim>\<open>WriteHeader\<close> has sent, and the bytes of the body that it has taken.
\<close>

record client_writer =
  cw_header :: header
  cw_sent :: "(int \<times> header) option"
  cw_body :: string

definition new_client :: client_writer where
  "new_client = \<lparr>cw_header = [], cw_sent = None, cw_body = []\<rparr>"

definition body_allowed :: "int \<Rightarrow> bool" where
  "body_allowed status \<longleftrightarrow> \<not> (100 \<le> status \<and> status \<le> 199) \<and> status \<noteq> 204 \<and> status \<noteq> 304"

definition cw_WriteHeader :: "client_writer \<Rightarrow> int \<Rightarrow> client_writer" where
  "cw_WriteHeader w code =
     (if cw_sent w = None then w\<lparr>cw_sent := Some (code, cw_header w)\<rparr> else w)"

definition cw_Write :: "client_writer \<Rightarrow> string \<Rightarrow> client_writer" where
  "cw_Write w b =
     (let w = cw_WriteHeader w 200
      in case cw_sent w of
           Some (status, _) \<Rightarrow> if body_allowed status then w\<lparr>cw_body := cw_body w @ b\<rparr> else w
         | None \<Rightarrow> w)"

definition copyHeader :: "header \<Rightarrow> header \<Rightarrow> header" where
  "copyHeader dst src = foldl (\<lambda>d (k, vv). foldl (\<lambda>d v. hdr_Add d k v) d vv) dst src"

section \<open>The saver\<close>

text \<open>
  \<open>rs_rw\<close> tells whether the saver (still) points to the client's writer, which its operations
  take as an argument and return.
\<close>

record ResponseSaver =
  rs_rw :: bool
  rs_b :: string
  rs_header :: header
  rs_status :: int
  rs_wroteHeaders :: bool
  rs_statusFilter :: int
  rs_CreatedAt :: time

definition NewResponseSaver :: "bool \<Rightarrow> int list \<Rightarrow> time \<Rightarrow> ResponseSaver" where
  "NewResponseSaver w statusFilter now =
     \<lparr>rs_rw = w, rs_b = [], rs_header = [], rs_status = 0, rs_wroteHeaders = False,
      rs_statusFilter = (case statusFilter of [f] \<Rightarrow> f | _ \<Rightarrow> 0), rs_CreatedAt = now\<rparr>"

definition status_line :: "int \<Rightarrow> string" where
  "status_line code = ''HTTP/1.1 '' @ show_int code @ '' '' @ StatusText code @ [LF]"

definition WriteHeader ::
    "ResponseSaver \<Rightarrow> client_writer \<Rightarrow> int \<Rightarrow> ResponseSaver \<times> client_writer" where
  "WriteHeader t w statusCode =
     (let t = (if statusCode = rs_statusFilter t then t\<lparr>rs_rw := False\<rparr> else t);
          t = t\<lparr>rs_wroteHeaders := True, rs_status := statusCode\<rparr>;
          t = t\<lparr>rs_b := rs_b t @ status_line statusCode @ header_Write (rs_header t) @ [LF]\<rparr>
      in if rs_rw t
         then (t, cw_WriteHeader (w\<lparr>cw_header := copyHeader (cw_header w) (rs_header t)\<rparr>) statusCode)
         else (t, w))"

definition saver_Write ::
    "ResponseSaver \<Rightarrow> client_writer \<Rightarrow> string \<Rightarrow> ResponseSaver \<times> client_writer" where
  "saver_Write t w b =
     (let (t, w) = (if \<not> rs_wroteHeaders t then WriteHeader t w 200 else (t, w));
          w = (if rs_rw t then cw_Write w b else w)
      in (t\<lparr>rs_b := rs_b t @ b\<rparr>, w))"

fun saver_Writes ::
    "ResponseSaver \<Rightarrow> client_writer \<Rightarrow> string list \<Rightarrow> ResponseSaver \<times> client_writer" where
  "saver_Writes t w [] = (t, w)"
| "saver_Writes t w (b # bs) = (let (t, w) = saver_Write t w b in saver_Writes t w bs)"

definition Response :: "ResponseSaver \<Rightarrow> string" where
  "Response t = rs_b t"

definition Updates :: "ResponseSaver \<Rightarrow> string list" where
  "Updates t = hdr_Values (rs_header t) ''cache-update''"

definition StatusCode :: "ResponseSaver \<Rightarrow> int" where
  "StatusCode t = rs_status t"

section \<open>The contract of a response writer\<close>

text \<open>
  What a handler relies on when it answers through \<^verbatim>\<open>http.ResponseWriter\<close>: the first status sends
  the header as it is then, bytes without a status before them send 200, and the bytes after it make
  up the body, where the status allows one.
\<close>

locale response_writer =
  fixes hdr :: "'w \<Rightarrow> header"
    and sent :: "'w \<Rightarrow> (int \<times> header) option"
    and taken :: "'w \<Rightarrow> string"
    and head :: "'w \<Rightarrow> int \<Rightarrow> 'w"
    and bytes :: "'w \<Rightarrow> string \<Rightarrow> 'w"
    and allows :: "int \<Rightarrow> bool"
  assumes sent_head: "sent w = None \<Longrightarrow> sent (head w c) = Some (c, hdr w)"
    and implicit_head: "sent w = None \<Longrightarrow> bytes w b = bytes (head w 200) b"
    and sent_bytes: "sent w = Some (c, h) \<Longrightarrow> sent (bytes w b) = Some (c, h)"
    and taken_bytes: "sent w = Some (c, h) \<Longrightarrow> taken (bytes w b) = taken w @ (if allows c then b else [])"
begin

lemma all_bytes:
  "sent w = Some (c, h) \<Longrightarrow> sent (foldl bytes w bs) = Some (c, h)
     \<and> taken (foldl bytes w bs) = taken w @ (if allows c then concat bs else [])"
  by (induction bs arbitrary: w) (auto simp: sent_bytes taken_bytes)

text \<open>A whole answer, with and without a status of its own.\<close>

lemma whole_answer:
  "sent w = None \<Longrightarrow> sent (foldl bytes (head w c) bs) = Some (c, hdr w)
     \<and> taken (foldl bytes (head w c) bs) = taken (head w c) @ (if allows c then concat bs else [])"
  by (simp add: all_bytes sent_head)

lemma bare_answer:
  "sent w = None \<Longrightarrow> foldl bytes w (b # bs) = foldl bytes (head w 200) (b # bs)"
  by (simp add: implicit_head)

end

interpretation client: response_writer cw_header cw_sent cw_body cw_WriteHeader cw_Write body_allowed
  by unfold_locales (auto simp: cw_WriteHeader_def cw_Write_def Let_def)

text \<open>The saver is a response writer too; what it takes is recorded whatever the status.\<close>

interpretation saver: response_writer "\<lambda>(t, w). rs_header t"
  "\<lambda>(t, w). if rs_wroteHeaders t then Some (rs_status t, rs_header t) else None"
  "\<lambda>(t, w). rs_b t" "\<lambda>(t, w). WriteHeader t w" "\<lambda>(t, w). saver_Write t w" "\<lambda>c. True"
  by unfold_locales
     (auto simp: WriteHeader_def saver_Write_def Let_def split: if_splits)

lemma saver_Writes_foldl: "saver_Writes t w bs = foldl (\<lambda>(t, w). saver_Write t w) (t, w) bs"
  by (induction bs arbitrary: t w) (simp_all add: case_prod_unfold Let_def)

section \<open>What is recorded and what is passed on\<close>

lemma saver_Writes_buffer:
  "rs_wroteHeaders t \<Longrightarrow>
     rs_b (fst (saver_Writes t w bs)) = rs_b t @ concat bs
     \<and> rs_header (fst (saver_Writes t w bs)) = rs_header t
     \<and> rs_status (fst (saver_Writes t w bs)) = rs_status t
     \<and> rs_rw (fst (saver_Writes t w bs)) = rs_rw t
     \<and> rs_CreatedAt (fst (saver_Writes t w bs)) = rs_CreatedAt t"
  by (induction bs arbitrary: t w) (simp_all add: saver_Write_def Let_def)

text \<open>A whole answer through the saver, by its contract.\<close>

lemma saver_answer:
  assumes "\<not> rs_wroteHeaders t" and "WriteHeader t w c = (t1, w1)"
  shows "rs_b (fst (saver_Writes t1 w1 bs)) = rs_b t1 @ concat bs
     \<and> rs_status (fst (saver_Writes t1 w1 bs)) = c \<and> rs_header (fst (saver_Writes t1 w1 bs)) = rs_header t"
  using saver.whole_answer [of "(t, w)" c bs] assms unfolding saver_Writes_foldl
  by (auto simp: case_prod_unfold split: if_splits)

lemma saver_Writes_client:
  "rs_wroteHeaders t \<Longrightarrow> snd (saver_Writes t w bs) = (if rs_rw t then foldl cw_Write w bs else w)"
  by (induction bs arbitrary: t w) (simp_all add: saver_Write_def Let_def)

lemma WriteHeader_wrote [simp]:
  "rs_wroteHeaders (fst (WriteHeader t w code))"
  "rs_status (fst (WriteHeader t w code)) = code"
  "rs_header (fst (WriteHeader t w code)) = rs_header t"
  "rs_CreatedAt (fst (WriteHeader t w code)) = rs_CreatedAt t"
  "rs_b (fst (WriteHeader t w code)) = rs_b t @ status_line code @ header_Write (rs_header t) @ [LF]"
  "rs_rw (fst (WriteHeader t w code)) = (rs_rw t \<and> code \<noteq> rs_statusFilter t)"
  by (simp_all add: WriteHeader_def Let_def)

text \<open>Copying a header adds its values to those that are there.\<close>

lemma hdr_Values_copyHeader:
  assumes "wf_header src"
  shows "hdr_Values (copyHeader dst src) name = hdr_Values dst name @ hdr_Values src name"
proof -
  have "hdr_Values (copyHeader dst src) name
      = hdr_Values dst name @ (case map_of src (canon_key name) of None \<Rightarrow> [] | Some vs \<Rightarrow> vs)"
    if "distinct (map fst src)" "list_all (\<lambda>(k, vs). canon_key k = k) src" for dst src
    using that
  proof (induction src arbitrary: dst)
    case (Cons p src)
    obtain k vs where p: "p = (k, vs)" by (cases p)
    have "canon_key name = k \<Longrightarrow> map_of src k = None"
      using Cons.prems(1) by (simp add: p map_of_eq_None_iff)
    with Cons p show ?case by (auto simp: copyHeader_def hdr.vals_adds_list)
  qed (simp add: copyHeader_def)
  moreover from assms have "distinct (map fst src)" "list_all (\<lambda>(k, vs). canon_key k = k) src"
    by (auto simp: wf_header_def list_all_iff)
  ultimately show ?thesis by (simp add: hdr_Values_def [of src])
qed

lemma saver_forwards:
  assumes "wf_header h" and "cw_sent w = None"
    and "WriteHeader ((NewResponseSaver True flt now)\<lparr>rs_header := h\<rparr>) w status = (t1, w1)"
    and "saver_Writes t1 w1 chunks = (t2, w2)"
  shows "StatusCode t2 = status
    \<and> (if status = (case flt of [f] \<Rightarrow> f | _ \<Rightarrow> 0) then w2 = w
       else \<exists>sent. cw_sent w2 = Some (status, sent)
          \<and> hdr_Values sent name = hdr_Values (cw_header w) name @ hdr_Values h name
          \<and> cw_body w2 = cw_body w @ (if body_allowed status then concat chunks else []))"
proof -
  let ?t = "(NewResponseSaver True flt now)\<lparr>rs_header := h\<rparr>"
  have f: "status = rs_statusFilter ?t \<longleftrightarrow> status = (case flt of [f] \<Rightarrow> f | _ \<Rightarrow> 0)"
    by (simp add: NewResponseSaver_def)
  have t1: "t1 = fst (WriteHeader ?t w status)" and w1: "w1 = snd (WriteHeader ?t w status)"
    using assms(3) by simp_all
  have t2: "t2 = fst (saver_Writes t1 w1 chunks)" and w2: "w2 = snd (saver_Writes t1 w1 chunks)"
    using assms(4) by simp_all
  have wrote: "rs_wroteHeaders t1" by (simp add: t1)
  have st: "StatusCode t2 = status"
    using saver_Writes_buffer [OF wrote] by (simp add: StatusCode_def t2) (simp add: t1)
  show ?thesis
  proof (cases "status = rs_statusFilter ?t")
    case True
    then have "\<not> rs_rw t1" by (simp add: t1)
    moreover from True have "w1 = w" by (simp add: w1 WriteHeader_def Let_def)
    ultimately have "w2 = w" using saver_Writes_client [OF wrote] by (simp add: w2)
    with st True f show ?thesis by simp
  next
    case False
    let ?w = "w\<lparr>cw_header := copyHeader (cw_header w) h\<rparr>"
    from False have "rs_rw t1" "w1 = cw_WriteHeader ?w status"
      by (simp_all add: t1 w1 WriteHeader_def Let_def NewResponseSaver_def)
    moreover from this have "w2 = foldl cw_Write w1 chunks"
      using saver_Writes_client [OF wrote] by (simp add: w2)
    ultimately have "cw_sent w2 = Some (status, copyHeader (cw_header w) h)
        \<and> cw_body w2 = cw_body w @ (if body_allowed status then concat chunks else [])"
      using client.whole_answer [of ?w status chunks] assms(2) by (simp add: cw_WriteHeader_def)
    with st False f show ?thesis by (simp add: hdr_Values_copyHeader [OF assms(1)])
  qed
qed



section \<open>Reading the recorded bytes back\<close>

definition clean_header :: "header \<Rightarrow> header" where
  "clean_header h = map (\<lambda>(k, vs). (k, map clean_value vs)) h"

lemma hdr_Values_clean: "hdr_Values (clean_header h) name = map clean_value (hdr_Values h name)"
  by (simp add: clean_header_def hdr_Values_def map_of_map split: option.splits)

lemma fixPragma_values:
  assumes "\<And>name. hdr_Values a name = hdr_Values b name"
  shows "hdr_Values (fixPragmaCacheControl a) name = hdr_Values (fixPragmaCacheControl b) name"
  using assms by (simp add: fixPragmaCacheControl_def hdr_Get_def hdr_ops)

text \<open>
  The length that a response announces: none, or one number, which is that of the bytes that
  follow, except where the method or the status excludes a body.
\<close>

definition bodyless :: "string \<Rightarrow> int \<Rightarrow> bool" where
  "bodyless method status \<longleftrightarrow> method = ''HEAD'' \<or> status div 100 = 1 \<or> status = 204 \<or> status = 304"

definition announced :: "string \<Rightarrow> int \<Rightarrow> header \<Rightarrow> string \<Rightarrow> bool" where
  "announced method status h body \<longleftrightarrow>
     hdr_Values h ''Transfer-Encoding'' = []
     \<and> (if bodyless method status then body = [] else True)
     \<and> (case hdr_Values h ''Content-Length'' of
          [] \<Rightarrow> True
        | [c] \<Rightarrow> (case Atoi c of
                   Inl _ \<Rightarrow> False
                 | Inr n \<Rightarrow> 0 \<le> n \<and> c = show_nat (nat n)
                            \<and> (bodyless method status \<or> n = int (length body)))
        | _ \<Rightarrow> False)"

lemma TrimString_digits: "TrimString (show_nat n) = show_nat n"
proof -
  have "\<not> ascii_space c" if "c \<in> set (show_nat n)" for c
    using show_nat_digits [OF that] by (auto simp: is_digit_def ascii_space_def LF_def CR_def byte_def)
  then show ?thesis
    unfolding TrimString_def
    by (intro trim_while_id) (metis hd_in_set last_in_set show_nat_nonempty)
qed

lemma clean_value_digits: "clean_value (show_nat n) = show_nat n"
proof -
  have "c \<noteq> LF \<and> c \<noteq> CR" if "c \<in> set (show_nat n)" for c
    using show_nat_digits [OF that] by (auto simp: is_digit_def LF_def CR_def byte_def)
  then have "headerNewlineToSpace (show_nat n) = show_nat n"
    unfolding headerNewlineToSpace_def by (intro map_idI) auto
  then show ?thesis by (simp add: clean_value_def TrimString_digits)
qed

lemma parseContentLength_digits:
  "int n \<le> 9223372036854775807 \<Longrightarrow> parseContentLength (show_nat n) = Some (int n)"
  by (simp add: parseContentLength_def TrimString_digits parse_show_nat)

lemma parse_digits_nonneg: "parse_digits b acc s = Inr n \<Longrightarrow> 0 \<le> acc \<Longrightarrow> 0 \<le> n"
  by (induction b acc s rule: parse_digits.induct) (auto simp: Let_def split: if_splits)

lemma Atoi_bound: "Atoi s = Inr n \<Longrightarrow> n \<le> 9223372036854775807"
  by (auto simp: Atoi_def Let_def split: if_splits sum.splits dest!: parse_digits_nonneg)

text \<open>The transfer rules leave the header and the body of such a response as they are.\<close>

lemma readTransfer_announced:
  assumes "announced method status g body"
    and g: "\<And>name. canon_key name \<noteq> ''Cache-Control'' \<Longrightarrow> hdr_Values h name = map clean_value (hdr_Values g name)"
  shows "\<exists>h'. readTransfer status method h body = Some (h', body)
           \<and> (\<forall>name. hdr_Values h' name = hdr_Values h name)"
proof -
  have canon: "canon_key ''Transfer-Encoding'' = ''Transfer-Encoding''"
    "canon_key ''Content-Length'' = ''Content-Length''" by code_simp+
  have te: "hdr_Values h ''Transfer-Encoding'' = []"
    using assms(1) g [of "''Transfer-Encoding''"] by (simp add: canon announced_def)
  have cl: "hdr_Values h ''Content-Length'' = [] \<or>
      (\<exists>n. hdr_Values h ''Content-Length'' = [show_nat n] \<and> int n \<le> 9223372036854775807
         \<and> (bodyless method status \<or> n = length body))"
  proof (cases "hdr_Values g ''Content-Length''")
    case Nil
    with g [of "''Content-Length''"] show ?thesis by (simp add: canon)
  next
    case (Cons c cs)
    with assms(1) obtain n where "cs = []" "Atoi c = Inr n" "0 \<le> n" "c = show_nat (nat n)"
      "bodyless method status \<or> n = int (length body)"
      by (auto simp: announced_def split: list.splits sum.splits)
    with Cons g [of "''Content-Length''"] Atoi_bound [of c n] show ?thesis
      by (intro disjI2 exI [of _ "nat n"]) (auto simp: canon clean_value_digits)
  qed
  have pte: "parseTransferEncoding h = Some (False, h)" by (simp add: parseTransferEncoding_def te)
  have tr: "fixTrailer h' False = Some h'" for h' by (simp add: fixTrailer_def)
  have dd: "dedup_length h = Some h" using cl by (auto simp: dedup_length_def)
  from cl show ?thesis
  proof
    assume none: "hdr_Values h ''Content-Length'' = []"
    let ?h' = "if bodyless method status then h else hdr_Del h ''Content-Length''"
    have "fixLength status method h False = Some (if bodyless method status then 0 else - 1, ?h')"
      using none by (auto simp: fixLength_def dd bodyless_def hdr_Get_def TrimString_def trim_while_def)
    moreover have v: "hdr_Values ?h' name = hdr_Values h name" for name
      using none hdr.vals_canon [of name "''Content-Length''" h] by (simp add: hdr_ops)
    moreover have "hdr_Get ?h' ''Content-Length'' = []" by (simp only: hdr_Get_def v none list.case)
    moreover have "parseContentLength [] = Some (- 1)"
      by (simp add: parseContentLength_def TrimString_def trim_while_def)
    moreover have "bodyless method status \<Longrightarrow> body = []" using assms(1) by (simp add: announced_def)
    ultimately have "readTransfer status method h body = Some (?h', body)"
      by (simp only: readTransfer_def pte option.case prod.case tr if_False simp_thms option.distinct)
         simp
    with v show ?thesis by blast
  next
    assume "\<exists>n. hdr_Values h ''Content-Length'' = [show_nat n] \<and> int n \<le> 9223372036854775807
         \<and> (bodyless method status \<or> n = length body)"
    then obtain n where n: "hdr_Values h ''Content-Length'' = [show_nat n]"
      "int n \<le> 9223372036854775807" "bodyless method status \<or> n = length body" by blast
    have get: "hdr_Get h ''Content-Length'' = show_nat n" using n(1) by (simp add: hdr_Get_def)
    have "fixLength status method h False = Some (if bodyless method status then 0 else int n, h)"
      by (auto simp: fixLength_def dd bodyless_def get TrimString_digits parseContentLength_digits [OF n(2)])
    moreover have "bodyless method status \<Longrightarrow> body = []" using assms(1) by (simp add: announced_def)
    ultimately have "readTransfer status method h body = Some (h, body)"
      using n(3) by (auto simp: readTransfer_def pte tr get parseContentLength_digits [OF n(2)])
    then show ?thesis by blast
  qed
qed

lemma saved_reads_back:
  assumes "wire_header h" and "100 \<le> status" and "status \<le> 999"
    and "announced (req_method req) status h (concat chunks)"
    and "WriteHeader ((NewResponseSaver tee flt now)\<lparr>rs_header := h\<rparr>) w status = (t1, w1)"
    and "saver_Writes t1 w1 chunks = (t2, w2)"
  shows "\<exists>r. ReadResponse (Response t2) req = Some r
     \<and> res_status r = status \<and> res_body r = concat chunks \<and> res_request r = Some req
     \<and> (\<forall>name. hdr_Values (res_header r) name = hdr_Values (fixPragmaCacheControl (clean_header h)) name)"
proof -
  let ?t = "(NewResponseSaver tee flt now)\<lparr>rs_header := h\<rparr>"
  let ?body = "concat chunks"
  have t1: "t1 = fst (WriteHeader ?t w status)" and t2: "t2 = fst (saver_Writes t1 w1 chunks)"
    using assms(5,6) by simp_all
  have bytes: "Response t2 = status_line status @ header_Write h @ LF # ?body"
    using saver_answer [OF _ assms(5), of chunks]
    by (simp add: Response_def t2 NewResponseSaver_def) (simp add: t1 NewResponseSaver_def)
  let ?line = "''HTTP/1.1 '' @ show_nat (nat status) @ '' '' @ StatusText status"
  have "c \<noteq> LF \<and> c \<noteq> CR" if "c \<in> set (show_nat (nat status))" for c
    using show_nat_digits [OF that] by (auto simp: is_digit_def LF_def CR_def byte_def)
  then have "LF \<notin> set ?line" "CR \<notin> set ?line"
    using StatusText_no_break [of status] by (auto simp: LF_def CR_def)
  then have "read_line (?line @ LF # header_Write h @ LF # ?body) = Some (?line, header_Write h @ LF # ?body)"
    by (rule read_line_lf)
  then have rl: "read_line (Response t2) = Some (?line, header_Write h @ LF # ?body)"
    using assms(2) by (simp add: bytes status_line_def show_int_def)
  have rs: "read_status_line ?line = Some (''HTTP/1.1'', status)"
    using read_status_line_written [of "nat status" "StatusText status"] assms(2,3) by simp
  obtain g where g: "ReadMIMEHeader (header_Write h @ LF # ?body) = Some (g, ?body)"
    "\<And>name. hdr_Values g name = map clean_value (hdr_Values h name)"
    using ReadMIMEHeader_Write [OF assms(1), of ?body] by blast
  have old: "drop_old_encoding ''HTTP/1.1'' g' = g'" for g'
  proof -
    have "http11 ''HTTP/1.1''" by code_simp
    then show ?thesis by (simp add: drop_old_encoding_def)
  qed
  have cc: "canon_key ''Cache-Control'' = ''Cache-Control''" by code_simp
  have "hdr_Values (fixPragmaCacheControl g) n = map clean_value (hdr_Values h n)"
    if "canon_key n \<noteq> ''Cache-Control''" for n
    using that g(2) by (simp add: fixPragmaCacheControl_def hdr_ops cc)
  then obtain h' where "readTransfer status (req_method req) (fixPragmaCacheControl g) ?body = Some (h', ?body)"
    and v: "\<And>n. hdr_Values h' n = hdr_Values (fixPragmaCacheControl g) n"
    using readTransfer_announced [OF assms(4)] by metis
  then have "ReadResponse (Response t2) req = Some
      \<lparr>res_status = status, res_header = h', res_body = ?body, res_request = Some req\<rparr>"
    unfolding ReadResponse_def rl option.case prod.case rs g(1) old by simp
  moreover have "hdr_Values h' name = hdr_Values (fixPragmaCacheControl (clean_header h)) name" for name
    unfolding v by (rule fixPragma_values) (simp add: g(2) hdr_Values_clean)
  ultimately show ?thesis by simp
qed

text \<open>C9. What the saver records of a response is read back as this response, under any request for
  which the announced length is right: the same status and body, and the same header up to the
  cleaning of values and Go's reading of \<^verbatim>\<open>Pragma: no-cache\<close> as Cache-Control.\<close>

theorem saved_response_reads_back:
  assumes "wire_header h" and "100 \<le> status" and "status \<le> 999"
    and "announced (req_method req) status h (concat chunks)"
    and "WriteHeader ((NewResponseSaver tee flt now)\<lparr>rs_header := h\<rparr>) w status = (t1, w1)"
    and "saver_Writes t1 w1 chunks = (t2, w2)"
  shows "\<exists>r. ReadResponse (Response t2) req = Some r
     \<and> res_status r = status \<and> res_body r = concat chunks \<and> res_request r = Some req
     \<and> hdr_Values (res_header r) name = hdr_Values (fixPragmaCacheControl (clean_header h)) name"
  using saved_reads_back [OF assms] by blast

definition wire_example :: header where
  "wire_example = [(''Etag'', [''v1'']), (''Content-Length'', [''3'']), (''Cache-Control'', ['' max-age=60''])]"

theorem saved_response_reads_back_witness:
  "\<exists>r. ReadResponse (Response (fst (case WriteHeader ((NewResponseSaver True [304] 0)\<lparr>rs_header := wire_example\<rparr>)
        new_client 200 of (t1, w1) \<Rightarrow> saver_Writes t1 w1 [''ab'', ''c''])))
       \<lparr>req_method = ''GET'', req_url = empty_url, req_header = [], req_host = [], req_body = [], req_remote = []\<rparr> = Some r
     \<and> res_status r = 200 \<and> res_body r = ''abc'' \<and> hdr_Values (res_header r) ''cache-control'' = [''max-age=60'']"
proof -
  let ?req = "\<lparr>req_method = ''GET'', req_url = empty_url, req_header = [], req_host = [], req_body = [], req_remote = []\<rparr>"
  let ?t = "(NewResponseSaver True [304] 0)\<lparr>rs_header := wire_example\<rparr>"
  obtain t1 w1 where a: "WriteHeader ?t new_client 200 = (t1, w1)" by (cases "WriteHeader ?t new_client 200")
  obtain t2 w2 where b: "saver_Writes t1 w1 [''ab'', ''c''] = (t2, w2)"
    by (cases "saver_Writes t1 w1 [''ab'', ''c'']")
  have h: "wire_header wire_example" by code_simp
  have n: "announced (req_method ?req) 200 wire_example (concat [''ab'', ''c''])" by code_simp
  have v: "hdr_Values (fixPragmaCacheControl (clean_header wire_example)) ''cache-control'' = [''max-age=60'']"
    by code_simp
  show ?thesis
    using saved_response_reads_back [OF h _ _ n a b, of "''cache-control''"] v
    unfolding a prod.case b fst_conv by auto
qed

end
