(* ===== verification/Store.thy ===== *)
theory Store
  imports GoTime "HOL-Library.Multiset"
begin

text \<open>
  The store of cache entries, \<^verbatim>\<open>cache/cache-provider.go\<close>: one SQLite table.  The table is a list
  of rows in insertion order; the database engine is a parameter (\<open>engine\<close>): its LIKE operator,
  the order in which a query without ORDER BY yields the rows, and what it reports as the rows
  affected by a statement that is not an update.  Every statement may fail; the failure is an
  argument of the operation.  The write mutex makes each operation one step.
\<close>

record CacheEntry =
  ce_Key :: string
  ce_Expires :: time
  ce_RequestedAt :: time
  ce_ReceivedAt :: time
  ce_Bytes :: string

text \<open>The two times may be NULL; \<open>None\<close> stands for it.\<close>

record row =
  row_key :: string
  row_expires :: int
  row_requested_at :: "int option"
  row_received_at :: "int option"
  row_bytes :: string

type_synonym table = "row list"

datatype sql_error = ErrNoRows | ScanError | DriverError

record engine =
  eng_like :: "string \<Rightarrow> string \<Rightarrow> bool"
  eng_scan :: "row list \<Rightarrow> row list"
  eng_affected :: "table \<Rightarrow> int"

section \<open>Queries\<close>

definition like_rows :: "engine \<Rightarrow> table \<Rightarrow> string \<Rightarrow> row list" where
  "like_rows eng t pre =
     filter (\<lambda>r. eng_like eng (pre @ ''%'') (row_key r)) (eng_scan eng t)"

text \<open>The loop over the rows; NULL cannot be scanned into an integer.\<close>

fun scan_entries :: "CacheEntry list \<Rightarrow> row list \<Rightarrow> CacheEntry list \<times> sql_error option" where
  "scan_entries entries [] = (entries, None)"
| "scan_entries entries (r # rows) =
     (case (row_requested_at r, row_received_at r) of
        (Some req, Some rec) \<Rightarrow>
          scan_entries (entries @ [\<lparr>ce_Key = row_key r, ce_Expires = from_Unix (row_expires r),
            ce_RequestedAt = from_Unix req, ce_ReceivedAt = from_Unix rec, ce_Bytes = row_bytes r\<rparr>])
            rows
      | _ \<Rightarrow> (entries, Some ScanError))"

definition All :: "engine \<Rightarrow> sql_error option \<Rightarrow> table \<Rightarrow> string \<Rightarrow> CacheEntry list \<times> sql_error option" where
  "All eng fault t pre =
     (case fault of
        Some e \<Rightarrow> if e = ErrNoRows then ([], None) else ([], Some e)
      | None \<Rightarrow> scan_entries [] (like_rows eng t pre))"

text \<open>\<open>now\<close> is the clock reading of \<^verbatim>\<open>Get\<close>.\<close>

definition find_row :: "table \<Rightarrow> string \<Rightarrow> row option" where
  "find_row t key = List.find (\<lambda>r. row_key r = key) t"

definition Get :: "sql_error option \<Rightarrow> time \<Rightarrow> table \<Rightarrow> string \<Rightarrow> string \<times> bool \<times> sql_error option" where
  "Get fault now t key =
     (case fault of
        Some e \<Rightarrow> ([], False, Some e)
      | None \<Rightarrow>
          (case find_row t key of
             None \<Rightarrow> ([], False, Some ErrNoRows)
           | Some r \<Rightarrow>
               if now > from_Unix (row_expires r) then ([], False, None)
               else (row_bytes r, True, None)))"

definition Oldest ::
    "engine \<Rightarrow> sql_error option \<Rightarrow> table \<Rightarrow> string \<Rightarrow> string \<times> time \<times> sql_error option" where
  "Oldest eng fault t pre =
     (let answer = (case fault of
            Some e \<Rightarrow> Inl e
          | None \<Rightarrow>
              (case sort_key row_expires (filter (\<lambda>r. row_expires r > 0) (like_rows eng t pre)) of
                 [] \<Rightarrow> Inl ErrNoRows
               | r # _ \<Rightarrow> Inr r))
      in case answer of
           Inl e \<Rightarrow> if e = ErrNoRows then ([], zero_time, None) else ([], zero_time, Some e)
         | Inr r \<Rightarrow> (row_key r, from_Unix (row_expires r), None))"

text \<open>
  \<^verbatim>\<open>Has\<close> executes a SELECT as if it were an update and asks for the rows affected: what it answers
  is up to the driver, and does not depend on the key.
\<close>

definition Has :: "engine \<Rightarrow> sql_error option \<Rightarrow> table \<Rightarrow> string \<Rightarrow> bool go_result" where
  "Has eng fault t key =
     (case fault of Some e \<Rightarrow> Panic | None \<Rightarrow> Returns (eng_affected eng t > 0))"

text \<open>The keys for which \<^verbatim>\<open>AllKeys\<close> calls its callback, in order.\<close>

definition AllKeys :: "engine \<Rightarrow> sql_error option \<Rightarrow> table \<Rightarrow> string \<Rightarrow> string list" where
  "AllKeys eng fault t pre =
     (case fault of Some e \<Rightarrow> [] | None \<Rightarrow> map row_key (like_rows eng t pre))"

section \<open>Updates\<close>

definition replace_row :: "row \<Rightarrow> table \<Rightarrow> table" where
  "replace_row r t = filter (\<lambda>q. row_key q \<noteq> row_key r) t @ [r]"

definition Put ::
    "sql_error option \<Rightarrow> table \<Rightarrow> string \<Rightarrow> time \<Rightarrow> string \<Rightarrow> table \<times> sql_error option" where
  "Put fault t key expires bytes =
     (case fault of
        Some e \<Rightarrow> (t, Some e)
      | None \<Rightarrow>
          (replace_row \<lparr>row_key = key, row_expires = time_Unix expires, row_requested_at = None,
             row_received_at = None, row_bytes = bytes\<rparr> t, None))"

definition row_of_entry :: "CacheEntry \<Rightarrow> row" where
  "row_of_entry ce =
     \<lparr>row_key = ce_Key ce, row_expires = time_Unix (ce_Expires ce),
      row_requested_at = Some (time_Unix (ce_RequestedAt ce)),
      row_received_at = Some (time_Unix (ce_ReceivedAt ce)), row_bytes = ce_Bytes ce\<rparr>"

definition PutCE :: "sql_error option \<Rightarrow> table \<Rightarrow> CacheEntry \<Rightarrow> table \<times> sql_error option" where
  "PutCE fault t ce =
     (case fault of
        Some e \<Rightarrow> (t, Some e)
      | None \<Rightarrow> (replace_row (row_of_entry ce) t, None))"

definition Purge :: "sql_error option \<Rightarrow> table \<Rightarrow> string \<Rightarrow> table go_result" where
  "Purge fault t key =
     (case fault of
        Some e \<Rightarrow> Panic
      | None \<Rightarrow> Returns (filter (\<lambda>r. row_key r \<noteq> key) t))"

section \<open>The engine\<close>

text \<open>
  What the code relies on: a pattern made of a text and a percent sign matches what starts with
  the text, and a query yields every row once.
\<close>

definition sqlite_laws :: "engine \<Rightarrow> bool" where
  "sqlite_laws eng \<longleftrightarrow>
     (\<forall>pre key. prefix pre key \<longrightarrow> eng_like eng (pre @ ''%'') key)
     \<and> (\<forall>rows. mset (eng_scan eng rows) = mset rows)"

text \<open>
  LIKE as SQLite documents it: a percent sign stands for any text, an underscore for any one
  character, and ASCII letters match in any case.
\<close>

fun sql_like :: "string \<Rightarrow> string \<Rightarrow> bool" where
  "sql_like [] s = (s = [])"
| "sql_like (p # ps) [] = (p = CHR ''%'' \<and> sql_like ps [])"
| "sql_like (p # ps) (c # cs) =
     (if p = CHR ''%'' then sql_like ps (c # cs) \<or> sql_like (p # ps) cs
      else (p = CHR ''_'' \<or> lower_byte p = lower_byte c) \<and> sql_like ps cs)"

definition sqlite :: engine where
  "sqlite = \<lparr>eng_like = sql_like, eng_scan = (\<lambda>rows. rows), eng_affected = (\<lambda>t. 0)\<rparr>"

lemma sql_like_percent: "sql_like ''%'' s"
  by (induction s) auto

lemma sql_like_rest:
  "sql_like (ps @ ''%'') s \<Longrightarrow> sql_like (CHR ''%'' # ps @ ''%'') s"
  by (cases s) auto

lemma sql_like_prefix: "sql_like (pre @ ''%'') (pre @ s)"
proof (induction pre)
  case Nil
  show ?case by (simp add: sql_like_percent)
next
  case (Cons c pre)
  then show ?case
    by (cases "c = CHR ''%''") (auto intro: sql_like_rest)
qed

lemma sqlite_laws_sqlite: "sqlite_laws sqlite"
  by (auto simp: sqlite_laws_def sqlite_def sql_like_prefix prefix_def)

lemma set_scan: "sqlite_laws eng \<Longrightarrow> set (eng_scan eng rows) = set rows"
  unfolding sqlite_laws_def by (metis set_mset_mset)

section \<open>The contract of a cache provider\<close>

text \<open>
  What the clients of the interface \<^verbatim>\<open>CacheProvider\<close> rely on.  \<open>look\<close> reads one key, \<open>norm\<close> is
  what a stored entry looks like when it is read back; the laws on \<open>all\<close> hold for a good engine.
\<close>

locale cache_provider =
  fixes inv :: "'t \<Rightarrow> bool"
    and look :: "'t \<Rightarrow> string \<Rightarrow> 'c option"
    and put :: "'t \<Rightarrow> 'c \<Rightarrow> 't"
    and purge :: "'t \<Rightarrow> string \<Rightarrow> 't"
    and all :: "'g \<Rightarrow> 't \<Rightarrow> string \<Rightarrow> 'c list"
    and good :: "'g \<Rightarrow> bool"
    and key :: "'c \<Rightarrow> string"
    and norm :: "'c \<Rightarrow> 'c"
  assumes inv_put: "inv t \<Longrightarrow> inv (put t c)"
    and inv_purge: "inv t \<Longrightarrow> inv (purge t k)"
    and look_put: "inv t \<Longrightarrow> look (put t c) k = (if k = key c then Some (norm c) else look t k)"
    and look_purge: "inv t \<Longrightarrow> look (purge t k') k = (if k = k' then None else look t k)"
    and all_sound: "good g \<Longrightarrow> inv t \<Longrightarrow> c \<in> set (all g t p) \<Longrightarrow> look t (key c) = Some c"
    and all_complete: "good g \<Longrightarrow> inv t \<Longrightarrow> look t k = Some c \<Longrightarrow> prefix p k \<Longrightarrow> c \<in> set (all g t p)"
begin

lemma all_after_put:
  "good g \<Longrightarrow> inv t \<Longrightarrow> prefix p (key c) \<Longrightarrow> norm c \<in> set (all g (put t c) p)"
  by (rule all_complete) (simp_all add: inv_put look_put)

lemma all_after_purge:
  "good g \<Longrightarrow> inv t \<Longrightarrow> c \<in> set (all g (purge t k) p) \<Longrightarrow> key c \<noteq> k"
  using all_sound [of g "purge t k" c p] by (auto simp: inv_purge look_purge split: if_splits)

text \<open>A property of every entry is kept by an update whose entry has it, and by a removal.\<close>

definition every :: "('c \<Rightarrow> bool) \<Rightarrow> 't \<Rightarrow> bool" where
  "every P t \<longleftrightarrow> inv t \<and> (\<forall>k c. look t k = Some c \<longrightarrow> P c)"

lemma every_put: "every P t \<Longrightarrow> P (norm c) \<Longrightarrow> every P (put t c)"
  by (simp add: every_def inv_put look_put)

lemma every_purge: "every P t \<Longrightarrow> every P (purge t k)"
  by (simp add: every_def inv_purge look_purge)

lemma every_all: "good g \<Longrightarrow> every P t \<Longrightarrow> c \<in> set (all g t p) \<Longrightarrow> P c"
  unfolding every_def using all_sound by blast

end

section \<open>The table keeps the contract\<close>

text \<open>The primary key, and times in every row, as \<^verbatim>\<open>PutCE\<close> writes them.\<close>

definition timed_row :: "row \<Rightarrow> bool" where
  "timed_row r \<longleftrightarrow> row_requested_at r \<noteq> None \<and> row_received_at r \<noteq> None"

definition wf_table :: "table \<Rightarrow> bool" where
  "wf_table t \<longleftrightarrow> distinct (map row_key t) \<and> list_all timed_row t"

definition entry_of_row :: "row \<Rightarrow> CacheEntry" where
  "entry_of_row r =
     \<lparr>ce_Key = row_key r, ce_Expires = from_Unix (row_expires r),
      ce_RequestedAt = from_Unix (the (row_requested_at r)),
      ce_ReceivedAt = from_Unix (the (row_received_at r)), ce_Bytes = row_bytes r\<rparr>"

definition look_entry :: "table \<Rightarrow> string \<Rightarrow> CacheEntry option" where
  "look_entry t key = map_option entry_of_row (find_row t key)"

text \<open>Times are kept in whole seconds.\<close>

definition to_seconds :: "CacheEntry \<Rightarrow> CacheEntry" where
  "to_seconds ce = ce\<lparr>ce_Expires := from_Unix (time_Unix (ce_Expires ce)),
     ce_RequestedAt := from_Unix (time_Unix (ce_RequestedAt ce)),
     ce_ReceivedAt := from_Unix (time_Unix (ce_ReceivedAt ce))\<rparr>"

lemma entry_of_row_of_entry [simp]: "entry_of_row (row_of_entry ce) = to_seconds ce"
  by (simp add: entry_of_row_def row_of_entry_def to_seconds_def)

lemma ce_Key_entry_of_row [simp]: "ce_Key (entry_of_row r) = row_key r"
  by (simp add: entry_of_row_def)

lemma scan_entries_timed:
  "list_all timed_row rows \<Longrightarrow> scan_entries es rows = (es @ map entry_of_row rows, None)"
  by (induction rows arbitrary: es) (auto simp: timed_row_def entry_of_row_def)

lemma scan_entries_untimed:
  "\<not> list_all timed_row rows \<Longrightarrow>
     scan_entries es rows = (es @ map entry_of_row (takeWhile timed_row rows), Some ScanError)"
  by (induction rows arbitrary: es) (auto simp: timed_row_def entry_of_row_def split: option.splits)

lemma find_row_filter:
  "find_row (filter (\<lambda>r. row_key r \<noteq> k') t) k = (if k = k' then None else find_row t k)"
  by (induction t) (auto simp: find_row_def)

lemma find_row_append:
  "find_row (t @ u) k = (case find_row t k of None \<Rightarrow> find_row u k | Some r \<Rightarrow> Some r)"
  by (induction t) (auto simp: find_row_def)

lemma find_row_replace: "find_row (replace_row r t) k = (if k = row_key r then Some r else find_row t k)"
  by (simp add: replace_row_def find_row_append find_row_filter split: option.splits)
     (simp add: find_row_def)

lemma find_row_Some: "wf_table t \<Longrightarrow> find_row t k = Some r \<longleftrightarrow> r \<in> set t \<and> row_key r = k"
  unfolding wf_table_def
proof (induction t)
  case (Cons q t)
  then show ?case by (auto simp: find_row_def image_iff)
qed (simp add: find_row_def)

lemma distinct_map_key_filter: "distinct (map row_key t) \<Longrightarrow> distinct (map row_key (filter P t))"
  by (induction t) auto

lemma wf_table_replace: "wf_table t \<Longrightarrow> timed_row r \<Longrightarrow> wf_table (replace_row r t)"
  by (auto simp: wf_table_def replace_row_def distinct_map_key_filter list_all_iff)

lemma wf_table_filter: "wf_table t \<Longrightarrow> wf_table (filter P t)"
  by (auto simp: wf_table_def distinct_map_key_filter list_all_iff)

lemma like_rows_timed: "sqlite_laws eng \<Longrightarrow> wf_table t \<Longrightarrow> list_all timed_row (like_rows eng t p)"
  by (auto simp: like_rows_def wf_table_def list_all_iff set_scan)

lemma All_timed:
  "sqlite_laws eng \<Longrightarrow> wf_table t \<Longrightarrow> All eng None t p = (map entry_of_row (like_rows eng t p), None)"
  by (simp add: All_def scan_entries_timed like_rows_timed)

interpretation db: cache_provider wf_table look_entry
  "\<lambda>t ce. fst (PutCE None t ce)" "\<lambda>t k. filter (\<lambda>r. row_key r \<noteq> k) t"
  "\<lambda>eng t p. fst (All eng None t p)" sqlite_laws ce_Key to_seconds
proof unfold_locales
  fix t :: table and c :: CacheEntry and k k' :: string
  assume t: "wf_table t"
  then show "wf_table (fst (PutCE None t c))"
    by (simp add: PutCE_def wf_table_replace timed_row_def row_of_entry_def)
  from t show "wf_table (filter (\<lambda>r. row_key r \<noteq> k) t)" by (rule wf_table_filter)
  show "look_entry (fst (PutCE None t c)) k
      = (if k = ce_Key c then Some (to_seconds c) else look_entry t k)"
    by (simp add: look_entry_def PutCE_def find_row_replace) (simp add: row_of_entry_def)
  show "look_entry (filter (\<lambda>r. row_key r \<noteq> k') t) k = (if k = k' then None else look_entry t k)"
    by (simp add: look_entry_def find_row_filter)
next
  fix g :: engine and t :: table and c :: CacheEntry and p :: string
  assume g: "sqlite_laws g" "wf_table t"
  assume "c \<in> set (fst (All g None t p))"
  with g show "look_entry t (ce_Key c) = Some c"
    by (auto simp: All_timed like_rows_def set_scan look_entry_def find_row_Some)
next
  fix g :: engine and t :: table and c :: CacheEntry and p k :: string
  assume g: "sqlite_laws g" "wf_table t"
  assume "look_entry t k = Some c" and "prefix p k"
  with g show "c \<in> set (fst (All g None t p))"
    by (auto simp: All_timed like_rows_def set_scan look_entry_def find_row_Some sqlite_laws_def)
qed

section \<open>What the operations promise\<close>

text \<open>C25. An entry that has been put is found by every prefix of its key, with its times rounded down
  to seconds; it is the only entry under its key, the entries under other keys are as before, and
  the table stays well formed.\<close>

theorem PutCE_All:
  assumes "sqlite_laws eng" and "wf_table t"
    and "PutCE None t ce = (t', err)" and "All eng None t' p = (entries, err')"
  shows "err = None \<and> err' = None \<and> wf_table t'
     \<and> (prefix p (ce_Key ce) \<longrightarrow> to_seconds ce \<in> set entries)
     \<and> list_all (\<lambda>c. look_entry t' (ce_Key c) = Some c
                    \<and> (if ce_Key c = ce_Key ce then c = to_seconds ce
                       else look_entry t (ce_Key c) = Some c)) entries"
proof -
  from assms(3) have t': "t' = fst (PutCE None t ce)" and e: "err = None" by (auto simp: PutCE_def)
  have w: "wf_table t'" unfolding t' using assms(2) by (rule db.inv_put)
  have "entries = fst (All eng None t' p)" using assms(4) by simp
  moreover have "err' = None" using All_timed [OF assms(1) w, of p] assms(4) by simp
  moreover have "look_entry t' (ce_Key c) = Some c
      \<and> (if ce_Key c = ce_Key ce then c = to_seconds ce else look_entry t (ce_Key c) = Some c)"
    if "c \<in> set (fst (All eng None t' p))" for c
    using db.all_sound [OF assms(1) w that] db.look_put [OF assms(2), of ce "ce_Key c"]
    unfolding t' by (auto split: if_splits)
  ultimately show ?thesis
    using e w db.all_after_put [OF assms(1,2), of p ce] unfolding list_all_iff t' by blast
qed

definition example_entry :: CacheEntry where
  "example_entry = \<lparr>ce_Key = ''http://o:GET:/a'', ce_Expires = 5, ce_RequestedAt = 2000000001,
     ce_ReceivedAt = 2999999999, ce_Bytes = ''x''\<rparr>"

theorem PutCE_All_witness:
  "to_seconds example_entry \<in> set (fst (All sqlite None (fst (PutCE None [] example_entry)) ''http://o:''))"
proof -
  have w: "wf_table []" by (simp add: wf_table_def)
  obtain t' err where p: "PutCE None [] example_entry = (t', err)" by (cases "PutCE None [] example_entry")
  obtain es err' where a: "All sqlite None t' ''http://o:'' = (es, err')" by (cases "All sqlite None t' ''http://o:''")
  have "prefix ''http://o:'' (ce_Key example_entry)" by code_simp
  then show ?thesis
    using PutCE_All [OF sqlite_laws_sqlite w p a] a p by simp
qed

text \<open>C26. A purged key is not found by any query, and every other entry stays.\<close>

theorem Purge_All:
  assumes "sqlite_laws eng" and "wf_table t" and "Purge None t k = Returns t'"
  shows "wf_table t' \<and> k \<notin> ce_Key ` set (fst (All eng None t' p))
     \<and> (k' \<noteq> k \<longrightarrow> look_entry t' k' = look_entry t k')"
proof -
  from assms(3) have t': "t' = filter (\<lambda>r. row_key r \<noteq> k) t" by (simp add: Purge_def)
  show ?thesis
    unfolding t'
    using db.inv_purge [OF assms(2)] db.all_after_purge [OF assms(1,2)]
      db.look_purge [OF assms(2), of k k'] by (auto simp del: fst_conv)
qed

theorem Purge_All_witness:
  "case Purge None (fst (PutCE None [] example_entry)) ''http://o:GET:/a'' of
     Returns t' \<Rightarrow> ''http://o:GET:/a'' \<notin> ce_Key ` set (fst (All sqlite None t' ''http://o:'')) | Panic \<Rightarrow> False"
proof -
  have w: "wf_table (fst (PutCE None [] example_entry))"
    by (rule db.inv_put) (simp add: wf_table_def)
  obtain t' where p: "Purge None (fst (PutCE None [] example_entry)) ''http://o:GET:/a'' = Returns t'"
    by (simp add: Purge_def)
  show ?thesis using Purge_All [OF sqlite_laws_sqlite w p, of _ "''http://o:''"] p by simp
qed

text \<open>A row written by \<^verbatim>\<open>Put\<close> has no times: \<^verbatim>\<open>Get\<close> returns its bytes until the second it expires,
  while \<^verbatim>\<open>All\<close> fails for every prefix of its key.\<close>

lemma Put_Get_All:
  assumes "sqlite_laws eng" and "Put None t key expires bytes = (t', err)" and "prefix p key"
  shows "Get None now t' key =
      (if from_Unix (time_Unix expires) < now then ([], False, None) else (bytes, True, None))
    \<and> snd (All eng None t' p) = Some ScanError"
proof -
  let ?r = "\<lparr>row_key = key, row_expires = time_Unix expires, row_requested_at = None,
             row_received_at = None, row_bytes = bytes\<rparr>"
  from assms(2) have t': "t' = replace_row ?r t" by (simp add: Put_def)
  have "?r \<in> set (eng_scan eng t')"
    unfolding set_scan [OF assms(1)] by (simp add: t' replace_row_def)
  moreover have "eng_like eng (p @ ''%'') key" using assms(1,3) by (simp add: sqlite_laws_def)
  ultimately have "?r \<in> set (like_rows eng t' p)" by (simp add: like_rows_def)
  moreover have "\<not> timed_row ?r" by (simp add: timed_row_def)
  ultimately have "\<not> list_all timed_row (like_rows eng t' p)"
    unfolding list_all_iff by blast
  then show ?thesis
    by (simp add: All_def scan_entries_untimed Get_def t' find_row_replace)
qed

text \<open>The oldest entry is one of the entries under the prefix that have a positive expiry, and
  none of them expires earlier; where there is none, no key is returned.\<close>

lemma Oldest_spec:
  "if filter (\<lambda>r. row_expires r > 0) (like_rows eng t p) = []
   then Oldest eng None t p = ([], zero_time, None)
   else \<exists>r. Oldest eng None t p = (row_key r, from_Unix (row_expires r), None)
          \<and> List.member (like_rows eng t p) r \<and> row_expires r > 0
          \<and> list_all (\<lambda>q. row_expires r \<le> row_expires q)
               (filter (\<lambda>q. row_expires q > 0) (like_rows eng t p))"
proof -
  let ?rows = "filter (\<lambda>r. row_expires r > 0) (like_rows eng t p)"
  show ?thesis
  proof (cases "sort_key row_expires ?rows")
    case Nil
    then have "?rows = []" by (metis set_empty set_sort)
    then show ?thesis by (simp add: Oldest_def)
  next
    case (Cons r rs)
    then have r: "r \<in> set ?rows" by (metis list.set_intros(1) set_sort)
    have "sorted (map row_expires (r # rs))" using Cons by (metis sorted_sort_key)
    moreover have "set ?rows = set (r # rs)" using Cons by (metis set_sort)
    ultimately have "list_all (\<lambda>q. row_expires r \<le> row_expires q) ?rows"
      by (auto simp: list_all_iff)
    moreover have "Oldest eng None t p = (row_key r, from_Unix (row_expires r), None)"
      using Cons by (simp add: Oldest_def)
    moreover have "?rows \<noteq> []" using r by (cases ?rows) simp_all
    ultimately show ?thesis using r by simp (rule exI [of _ r], simp)
  qed
qed

text \<open>A prefix is a LIKE pattern, not a text: with the documented LIKE operator the query for one
  URI also returns an entry of another one, and of another host.\<close>

lemma All_overmatches:
  "fst (All sqlite None (fst (PutCE None [] (example_entry\<lparr>ce_Key := ''HTTP://O:get:/aXb''\<rparr>))) ''http://o:GET:/a_b'')
     = [to_seconds (example_entry\<lparr>ce_Key := ''HTTP://O:get:/aXb''\<rparr>)]
   \<and> \<not> prefix ''http://o:GET:/a_b'' ''HTTP://O:get:/aXb''"
proof
  have "eng_like sqlite (''http://o:GET:/a_b'' @ ''%'') ''HTTP://O:get:/aXb''" by code_simp
  moreover have "eng_scan sqlite rows = rows" for rows by (simp add: sqlite_def)
  ultimately show "fst (All sqlite None (fst (PutCE None [] (example_entry\<lparr>ce_Key := ''HTTP://O:get:/aXb''\<rparr>)))
      ''http://o:GET:/a_b'') = [to_seconds (example_entry\<lparr>ce_Key := ''HTTP://O:get:/aXb''\<rparr>)]"
    by (simp add: All_def PutCE_def replace_row_def like_rows_def row_of_entry_def to_seconds_def)
  show "\<not> prefix ''http://o:GET:/a_b'' ''HTTP://O:get:/aXb''" by code_simp
qed

end
