(* ===== verification/Invalidation.thy ===== *)
theory Invalidation
  imports GoHttp
begin

text \<open>
  Section 4.4 of the RFC: \<^verbatim>\<open>rfc9111/4.4._invalidating-stored-responses.go\<close>, which URIs are
  invalidated (or updated) by the response to an unsafe request.
\<close>

definition nonErrorResponse :: "response \<Rightarrow> bool" where
  "nonErrorResponse res \<longleftrightarrow> (if res_status res \<ge> 200 \<and> res_status res \<le> 399 then True else False)"

definition UnsafeRequest :: "request \<Rightarrow> bool" where
  "UnsafeRequest req \<longleftrightarrow> req_method req \<noteq> ''GET'' \<and> req_method req \<noteq> ''HEAD''"

text \<open>
  \<^verbatim>\<open>u, err := url.Parse(rawURL); return u.RequestURI(), err\<close>: on a parse error \<open>u\<close> is nil and
  \<^verbatim>\<open>RequestURI\<close> dereferences it, so the error is never returned.
\<close>

definition getUri :: "string \<Rightarrow> string go_result" where
  "getUri rawURL = (case url_Parse rawURL of Some u \<Rightarrow> Returns (RequestURI u) | None \<Rightarrow> Panic)"

fun getUris_inner :: "string list \<Rightarrow> string list go_result" where
  "getUris_inner [] = Returns []"
| "getUris_inner (raw # raws) =
     bind_result (getUri raw) (\<lambda>uri. bind_result (getUris_inner raws) (\<lambda>uris. Returns (uri # uris)))"

definition getUris :: "string list list \<Rightarrow> string list go_result" where
  "getUris urls = getUris_inner (concat urls)"

definition GetInvalidateURIs :: "request \<Rightarrow> response \<Rightarrow> string list go_result" where
  "GetInvalidateURIs clientRequest originResponse =
     (if UnsafeRequest clientRequest \<and> nonErrorResponse originResponse then
        bind_result
          (getUris [hdr_Values (res_header originResponse) ''Location'',
                    hdr_Values (res_header originResponse) ''Content-Location''])
          (\<lambda>uris. Returns (url_String (req_url clientRequest) # uris))
      else Returns [])"

section \<open>What is invalidated\<close>

lemma getUris_inner_Returns:
  "(\<forall>raw \<in> set raws. url_Parse raw \<noteq> None) \<Longrightarrow>
     getUris_inner raws = Returns (map (\<lambda>raw. RequestURI (the (url_Parse raw))) raws)"
  by (induction raws) (auto simp: getUri_def)

lemma getUris_inner_Panic:
  "(\<exists>raw \<in> set raws. url_Parse raw = None) \<longleftrightarrow> getUris_inner raws = Panic"
proof (induction raws)
  case (Cons raw raws)
  then show ?case
    by (cases "url_Parse raw"; cases "getUris_inner raws") (auto simp: getUri_def)
qed simp

text \<open>The values that are parsed: those of the two headers, in this order.\<close>

definition location_values :: "response \<Rightarrow> string list" where
  "location_values res =
     hdr_Values (res_header res) ''Location'' @ hdr_Values (res_header res) ''Content-Location''"

text \<open>C34. A safe request and an error response invalidate nothing.  A non-error response to an
  unsafe request invalidates the target URI and the request URI of every Location and
  Content-Location value, in this order.\<close>

theorem GetInvalidateURIs_spec:
  assumes "\<forall>raw \<in> set (location_values res). url_Parse raw \<noteq> None"
  shows "GetInvalidateURIs req res =
     Returns (if UnsafeRequest req \<and> 200 \<le> res_status res \<and> res_status res \<le> 399
              then url_String (req_url req)
                   # map (\<lambda>raw. RequestURI (the (url_Parse raw))) (location_values res)
              else [])"
  using assms getUris_inner_Returns [of "location_values res"]
  by (auto simp: GetInvalidateURIs_def nonErrorResponse_def getUris_def location_values_def)

theorem GetInvalidateURIs_spec_witness:
  "GetInvalidateURIs
     \<lparr>req_method = ''POST'', req_url = empty_url\<lparr>u_path := ''/add''\<rparr>, req_header = [],
      req_host = [], req_body = [], req_remote = []\<rparr>
     \<lparr>res_status = 303, res_header = [(''Location'', [''http://other.example/list?p=1''])],
      res_body = [], res_request = None\<rparr>
   = Returns [''/add'', ''/list?p=1'']"
  (is "GetInvalidateURIs ?req ?res = _")
proof -
  have a: "\<forall>raw \<in> set (location_values ?res). url_Parse raw \<noteq> None" by code_simp
  show ?thesis
    by (subst GetInvalidateURIs_spec [OF a]) code_simp
qed

text \<open>A response to an unsafe request whose Location or Content-Location does not parse as a URL
  makes the computation panic, and only such a response does.\<close>

lemma GetInvalidateURIs_panic:
  "GetInvalidateURIs req res = Panic \<longleftrightarrow>
     UnsafeRequest req \<and> 200 \<le> res_status res \<and> res_status res \<le> 399
     \<and> (\<exists>raw \<in> set (location_values res). url_Parse raw = None)"
proof -
  have "getUris [hdr_Values (res_header res) ''Location'', hdr_Values (res_header res) ''Content-Location'']
      = getUris_inner (location_values res)"
    by (simp add: getUris_def location_values_def)
  then show ?thesis
    using getUris_inner_Panic [of "location_values res"]
    by (cases "getUris_inner (location_values res)")
       (auto simp: GetInvalidateURIs_def nonErrorResponse_def)
qed

end
