(* ===== verification/CacheUpdate.thy ===== *)
theory CacheUpdate
  imports Invalidation GoTime
begin

text \<open>
  The \<^verbatim>\<open>Cache-Update\<close> response header, \<^verbatim>\<open>pkg/cache-update/cache-update.go\<close>: which paths the
  response to an unsafe request asks to fetch anew, and after what delay.
\<close>

record CacheUpdate =
  cu_Path :: string
  cu_Delay :: duration

text \<open>
  The first match of \<^verbatim>\<open>(?i)\bdelay=(\d+)\<close>: the leftmost place that does not follow a word
  character, where \<^verbatim>\<open>delay=\<close> stands in any case before at least one digit.  The first argument
  tells whether the previous byte is a word character.
\<close>

definition word_byte :: "char \<Rightarrow> bool" where
  "word_byte c \<longleftrightarrow> is_alnum c \<or> c = CHR ''_''"

fun find_delay :: "bool \<Rightarrow> string \<Rightarrow> string option" where
  "find_delay prev [] = None"
| "find_delay prev (c # cs) =
     (let digits = takeWhile is_digit (drop 6 (c # cs))
      in if \<not> prev \<and> take 6 (ToLower (c # cs)) = ''delay='' \<and> digits \<noteq> [] then Some digits
         else find_delay (word_byte c) cs)"

definition getDelay :: "string \<Rightarrow> duration" where
  "getDelay update =
     (case find_delay False update of
        None \<Rightarrow> 0
      | Some digits \<Rightarrow>
          (case Atoi digits of
             Inl _ \<Rightarrow> 0
           | Inr delay \<Rightarrow> word_of_int delay * Second))"

text \<open>A missing request of the response is a nil pointer, dereferenced here.\<close>

definition getURL :: "request option \<Rightarrow> string \<Rightarrow> url go_result" where
  "getURL r update =
     (let possiblyRelativeURL = takeWhile (\<lambda>c. c \<noteq> CHR '';'') update
      in case r of
           None \<Rightarrow> Panic
         | Some req \<Rightarrow>
             Returns (ResolveReference (req_url req) (empty_url\<lparr>u_path := possiblyRelativeURL\<rparr>)))"

fun cache_updates_loop :: "request option \<Rightarrow> string list \<Rightarrow> CacheUpdate list go_result" where
  "cache_updates_loop r [] = Returns []"
| "cache_updates_loop r (update # rest) =
     (let path = hd (Split update '';'')
      in bind_result (getURL r path)
           (\<lambda>u. bind_result (cache_updates_loop r rest)
             (\<lambda>updates. Returns (\<lparr>cu_Path = u_path u, cu_Delay = getDelay update\<rparr> # updates))))"

definition GetCacheUpdates :: "request \<Rightarrow> response \<Rightarrow> CacheUpdate list go_result" where
  "GetCacheUpdates req res =
     (if \<not> UnsafeRequest req then Returns []
      else cache_updates_loop (res_request res) (hdr_Values (res_header res) ''Cache-Update''))"

section \<open>Delays\<close>

lemma take_lower: "take n (ToLower s) = ToLower (take n s)"
  by (simp add: ToLower_def take_map)

lemma lower_equals: "lower_byte c = CHR ''='' \<longleftrightarrow> c = CHR ''=''"
proof
  assume a: "lower_byte c = CHR ''=''"
  show "c = CHR ''=''"
  proof (cases "is_upper c")
    case True
    then have "byte (lower_byte c) \<ge> 97" by (simp add: byte_lower is_upper_def)
    with a show ?thesis by (simp add: byte_def)
  next
    case False
    with a show ?thesis by (simp add: lower_byte_def)
  qed
qed (simp add: lower_byte_def is_upper_def byte_def)

lemma equals_in_ToLower: "CHR ''='' \<in> set (ToLower s) \<longleftrightarrow> CHR ''='' \<in> set s"
  unfolding ToLower_def set_map image_iff using lower_equals by metis

text \<open>A text without an equals sign is passed over, up to the directive.\<close>

lemma find_delay_skip:
  assumes "CHR ''='' \<notin> set s" and "ToLower key = ''delay=''"
    and "digits \<noteq> []" and "list_all is_digit digits" and "rest = [] \<or> \<not> is_digit (hd rest)"
  shows "find_delay prev (s @ CHR '';'' # key @ digits @ rest) = Some digits"
  using assms(1)
proof (induction s arbitrary: prev)
  case Nil
  have k: "length key = 6" using arg_cong [OF assms(2), of length] by simp
  then obtain d ks where key: "key = d # ks" by (cases key) auto
  have t: "takeWhile is_digit (digits @ rest) = digits"
    using assms(4,5) by (cases rest) (simp_all add: list_all_iff takeWhile_append2)
  have "find_delay False (key @ digits @ rest) = Some digits"
  proof -
    have "drop 6 (key @ digits @ rest) = digits @ rest" "take 6 (key @ digits @ rest) = key"
      using k by simp_all
    then show ?thesis using t assms(2,3) unfolding key append_Cons
      by (subst find_delay.simps) (simp add: take_lower del: drop_Cons_numeral take_Cons_numeral)
  qed
  moreover have "\<not> word_byte (CHR '';'')" by code_simp
  moreover have "ToLower (CHR '';'' # xs) = CHR '';'' # ToLower xs" for xs
    by (simp add: ToLower_def lower_byte_def is_upper_def byte_def)
  ultimately show ?case by (simp add: Let_def)
next
  case (Cons c s)
  have "take 6 (ToLower (c # s @ CHR '';'' # key @ digits @ rest)) \<noteq> ''delay=''"
  proof
    assume a: "take 6 (ToLower (c # s @ CHR '';'' # key @ digits @ rest)) = ''delay=''"
    let ?l = "ToLower (c # s @ CHR '';'' # key @ digits @ rest)"
    show False
    proof (cases "length (c # s) \<ge> 6")
      case True
      then have "take 6 ?l = ToLower (take 6 (c # s))"
        by (simp add: take_lower)
      with a have "CHR ''='' \<in> set (ToLower (take 6 (c # s)))" by simp
      then have "CHR ''='' \<in> set (take 6 (c # s))"
        by (simp only: equals_in_ToLower)
      with Cons.prems show False by (meson in_set_takeD)
    next
      case False
      then have "?l ! length (c # s) = CHR '';''"
        by (simp add: ToLower_def nth_append lower_byte_def is_upper_def byte_def)
      moreover have "length (c # s) \<in> {1..5}" using False by auto
      moreover have "?l ! i = ''delay='' ! i" if "i < 6" for i
        using a that by (metis nth_take)
      ultimately have "''delay='' ! length (c # s) = CHR '';''" by simp
      moreover from False have "''delay='' ! length (c # s) \<in> set ''delay=''"
        by (intro nth_mem) simp
      ultimately show False by simp
    qed
  qed
  with Cons show ?case by (simp add: Let_def)
qed

text \<open>A Cache-Update value of a path, a semicolon and the directive \<open>delay=N\<close>, in any case, gives
  the delay of N seconds, as long as it fits a duration of 64-bit nanoseconds.\<close>

lemma getDelay_seconds:
  assumes "CHR ''='' \<notin> set path" and "ToLower key = ''delay=''" and "n \<le> 9223372036"
    and "rest = [] \<or> \<not> is_digit (hd rest)"
  shows "sint (getDelay (path @ CHR '';'' # key @ show_nat n @ rest)) = int n * ns_per_second"
proof -
  have "find_delay False (path @ CHR '';'' # key @ show_nat n @ rest) = Some (show_nat n)"
    using assms(1,2) show_nat_nonempty _ assms(4)
    by (rule find_delay_skip) (simp add: list_all_iff show_nat_digits)
  moreover have "Atoi (show_nat n) = Inr (int n)"
    using assms(3) by (intro Atoi_show_nat) simp
  moreover have n: "sint (word_of_int (int n) :: 64 word) = int n"
    using assms(3) by (intro sint_of_int) (simp add: in_int64_def)
  moreover have "sint (word_of_int (int n) * Second) = sint (word_of_int (int n) :: 64 word) * sint Second"
  proof (rule sint_mult64)
    show "in_int64 (sint (word_of_int (int n) :: 64 word) * sint Second)"
      unfolding n sint_Second using assms(3) by (simp add: in_int64_def)
  qed
  ultimately show ?thesis by (simp add: getDelay_def)
qed

lemma getDelay_seconds_example: "sint (getDelay ''/list;Delay=30; x'') = 30000000000"
proof -
  have "ToLower ''Delay='' = ''delay=''" and "show_nat 30 = ''30''" and "\<not> is_digit (hd ''; x'')"
    by code_simp+
  then show ?thesis
    using getDelay_seconds [of "''/list''" "''Delay=''" 30 "''; x''"] by simp
qed

text \<open>A delay beyond that wraps around: ten thousand million seconds become a negative
  duration, so that the update is not delayed at all.\<close>

lemma getDelay_wraps: "sint (getDelay ''/list;delay=10000000000'') < 0"
  by code_simp

section \<open>Paths\<close>

lemma Join_Split: "sep \<noteq> [] \<Longrightarrow> Join (Split s sep) sep = s"
proof (induction s sep rule: Split.induct)
  case (1 s sep)
  show ?case
  proof (cases "Cut s sep")
    case None
    then show ?thesis by (subst Split.simps) simp
  next
    case (Some p)
    then obtain a b where ab: "Cut s sep = Some (a, b)" by (cases p) auto
    have "Join (a # Split b sep) sep = a @ sep @ Join (Split b sep) sep"
      by (cases "Split b sep") simp_all
    with 1 ab Cut_Some [OF ab] show ?thesis by (subst Split.simps) simp
  qed
qed

text \<open>A path without dot segments resolves to itself.\<close>

lemma resolve_elems_plain:
  "list_all (\<lambda>e. e \<noteq> ''.'' \<and> e \<noteq> ''..'') es \<Longrightarrow>
     resolve_elems dst False es = dst @ concat (map (\<lambda>e. ''/'' @ e) es)"
  by (induction es arbitrary: dst) simp_all

lemma Join_concat: "Join (e # es) sep = e @ concat (map (\<lambda>e. sep @ e) es)"
  by (induction es arbitrary: e) simp_all

lemma resolvePath_rooted:
  assumes "list_all (\<lambda>e. e \<noteq> ''.'' \<and> e \<noteq> ''..'') (Split (CHR ''/'' # p) ''/'')"
  shows "resolvePath base (CHR ''/'' # p) = CHR ''/'' # p"
proof -
  let ?es = "Split (CHR ''/'' # p) ''/''"
  have es: "?es = [] # Split p ''/''"
    using Split_append [of "CHR ''/''" "[]" "[]" p] by simp
  have J: "concat (map (\<lambda>e. ''/'' @ e) (Split p ''/'')) = CHR ''/'' # p"
  proof -
    have "Join ([] # Split p ''/'') ''/'' = CHR ''/'' # p"
      unfolding es [symmetric] by (rule Join_Split) simp
    then show ?thesis unfolding Join_concat by (simp only: append_Nil)
  qed
  have "resolve_elems ''/'' True ?es = ''/'' @ CHR ''/'' # p"
    using assms resolve_elems_plain [of "Split p ''/''" "''/''"] unfolding es J by simp
  moreover have "last ?es \<noteq> ''.'' \<and> last ?es \<noteq> ''..''"
    using assms last_in_set [of ?es] by (simp add: list_all_iff)
  ultimately show ?thesis by (simp add: resolvePath_def Let_def)
qed

lemma Cut_char:
  "Cut s [c] = (if c \<in> set s then Some (takeWhile (\<lambda>x. x \<noteq> c) s, tl (dropWhile (\<lambda>x. x \<noteq> c) s))
                else None)"
  by (induction s) auto

lemma hd_Split_char: "hd (Split s [c]) = takeWhile (\<lambda>x. x \<noteq> c) s"
proof (cases "c \<in> set s")
  case False
  then have "takeWhile (\<lambda>x. x \<noteq> c) s = s" by (induction s) auto
  moreover have "Split s [c] = [s]" using False by (rule Split_absent)
  ultimately show ?thesis by (simp only: list.sel(1))
qed (subst Split.simps, simp add: Cut_char)

text \<open>A rooted path without dot segments, as it is escaped in a URL.\<close>

definition plain_path :: "string \<Rightarrow> bool" where
  "plain_path p \<longleftrightarrow> HasPrefix p ''/''
     \<and> list_all (\<lambda>e. e \<noteq> ''.'' \<and> e \<noteq> ''..'') (Split (escape EncPath p) ''/'')"

lemma getURL_plain:
  assumes "plain_path (takeWhile (\<lambda>c. c \<noteq> CHR '';'') update)"
  shows "\<exists>u. getURL (Some r) update = Returns u \<and> u_path u = takeWhile (\<lambda>c. c \<noteq> CHR '';'') update"
proof -
  let ?p = "takeWhile (\<lambda>c. c \<noteq> CHR '';'') update"
  obtain q where p: "?p = CHR ''/'' # q"
    using assms by (auto simp: plain_path_def HasPrefix_def prefix_def)
  have slash: "escape EncPath (CHR ''/'' # q) = CHR ''/'' # escape EncPath q" for q
    by (simp add: escape_def escape_char_def shouldEscape_def is_alnum_def is_lower_def is_upper_def
        is_digit_def byte_def)
  let ?ref = "empty_url\<lparr>u_path := CHR ''/'' # q\<rparr>"
  have e: "EscapedPath ?ref = escape EncPath (CHR ''/'' # q)"
    by (simp add: EscapedPath_def empty_url_def)
  have "resolvePath base (escape EncPath (CHR ''/'' # q)) = escape EncPath (CHR ''/'' # q)" for base
    using assms unfolding p slash plain_path_def by (intro resolvePath_rooted) simp
  then have "u_path (ResolveReference u ?ref) = CHR ''/'' # q" for u
    unfolding ResolveReference_def e Let_def setPath_or_keep_def setPath_def
    by (simp add: unescape_escape_path empty_url_def)
  then show ?thesis unfolding p getURL_def Let_def by simp
qed



end
