(* ===== verification/Proxy.thy ===== *)
theory Proxy
  imports Storing Tee Store CacheUpdate
begin

text \<open>
  The world the server runs in, and Go 1.19's \<^verbatim>\<open>httputil.ReverseProxy\<close>.  The state holds the
  table of cache entries, the requests that were sent to the origin and the goroutines that were
  started.  The origin, the clock, the time zones, the database engine and its failures are
  parameters, read at a running count of events so that each reading may differ.
\<close>

section \<open>The world\<close>

text \<open>
  What a round trip to the origin gives: an error, or a final response whose body may break off.
\<close>

datatype origin_reply =
    RoundTripError
  | Reply (rep_status: int) (rep_header: header) (rep_body: string) (rep_complete: bool)

record env =
  en_engine :: engine
  en_zones :: zones
  en_clock :: "nat \<Rightarrow> time"
  en_origin :: "nat \<Rightarrow> request \<Rightarrow> origin_reply"
  en_fault :: "nat \<Rightarrow> sql_error option"

text \<open>A goroutine: the work on a response that was sent, or an update that waits for its delay.\<close>

datatype task =
    UpdateResponse ResponseSaver request
  | DelayedUpdate CacheUpdate

record system =
  st_table :: table
  st_tick :: nat
  st_sent :: "request list"
  st_tasks :: "task list"

text \<open>
  An action is a sequence of atomic steps on the shared state, at the end of which it returns a
  value or has panicked; between two steps other threads may run.  Each effect (a reading of the
  clock, a round trip, a statement, a goroutine started) is one step.
\<close>

datatype 'a act = Done "'a go_result" | Step "system \<Rightarrow> 'a act \<times> system"

definition ret :: "'a \<Rightarrow> 'a act" where
  "ret x = Done (Returns x)"

definition panic :: "'a act" where
  "panic = Done Panic"

primrec andThen :: "'a act \<Rightarrow> ('a \<Rightarrow> 'b act) \<Rightarrow> 'b act" where
  "andThen (Done r) f = (case r of Returns x \<Rightarrow> f x | Panic \<Rightarrow> Done Panic)"
| "andThen (Step g) f = Step (\<lambda>s. map_prod (\<lambda>m. andThen m f) id (g s))"

definition lift_result :: "'a go_result \<Rightarrow> 'a act" where
  "lift_result r = Done r"

definition atomic :: "(system \<Rightarrow> 'a go_result \<times> system) \<Rightarrow> 'a act" where
  "atomic e = Step (\<lambda>s. map_prod Done id (e s))"

text \<open>A run of an action that nothing interrupts.\<close>

primrec run :: "'a act \<Rightarrow> system \<Rightarrow> 'a go_result \<times> system" where
  "run (Done r) = (\<lambda>s. (r, s))"
| "run (Step g) = (\<lambda>s. case map_prod run id (g s) of (continue, s') \<Rightarrow> continue s')"

text \<open>The same equations and the induction rule, with the pair of a step taken apart.\<close>

lemma run_Step: "run (Step g) s = run (fst (g s)) (snd (g s))"
  by (cases "g s") simp

lemma act_induct [case_names Done Step]:
  assumes "\<And>r. P (Done r)" and "\<And>g. (\<And>s. P (fst (g s))) \<Longrightarrow> P (Step g)"
  shows "P m"
proof (induction m)
  case (Step g)
  then show ?case by (intro assms(2)) (auto simp: fsts.simps intro: prod.collapse [symmetric])
qed (rule assms(1))

definition time_Now :: "env \<Rightarrow> time act" where
  "time_Now env = atomic (\<lambda>s. (Returns (en_clock env (st_tick s)), s\<lparr>st_tick := Suc (st_tick s)\<rparr>))"

definition round_trip :: "env \<Rightarrow> request \<Rightarrow> origin_reply act" where
  "round_trip env req = atomic (\<lambda>s. (Returns (en_origin env (st_tick s) req),
     s\<lparr>st_tick := Suc (st_tick s), st_sent := st_sent s @ [req]\<rparr>))"

definition spawn :: "task \<Rightarrow> unit act" where
  "spawn t = atomic (\<lambda>s. (Returns (), s\<lparr>st_tasks := st_tasks s @ [t]\<rparr>))"

text \<open>The operations of the store, each a statement that may fail.\<close>

definition cache_All :: "env \<Rightarrow> string \<Rightarrow> (CacheEntry list \<times> sql_error option) act" where
  "cache_All env pre = atomic (\<lambda>s. (Returns (All (en_engine env) (en_fault env (st_tick s)) (st_table s) pre),
     s\<lparr>st_tick := Suc (st_tick s)\<rparr>))"

definition cache_PutCE :: "env \<Rightarrow> CacheEntry \<Rightarrow> sql_error option act" where
  "cache_PutCE env ce = atomic (\<lambda>s. let (t, err) = PutCE (en_fault env (st_tick s)) (st_table s) ce
     in (Returns err, s\<lparr>st_tick := Suc (st_tick s), st_table := t\<rparr>))"

definition cache_Purge :: "env \<Rightarrow> string \<Rightarrow> unit act" where
  "cache_Purge env key = atomic (\<lambda>s. case Purge (en_fault env (st_tick s)) (st_table s) key of
       Returns t \<Rightarrow> (Returns (), s\<lparr>st_tick := Suc (st_tick s), st_table := t\<rparr>)
     | Panic \<Rightarrow> (Panic, s\<lparr>st_tick := Suc (st_tick s)\<rparr>))"

definition cache_Has :: "env \<Rightarrow> string \<Rightarrow> bool act" where
  "cache_Has env key = atomic (\<lambda>s. (Has (en_engine env) (en_fault env (st_tick s)) (st_table s) key,
     s\<lparr>st_tick := Suc (st_tick s)\<rparr>))"

definition cache_Oldest :: "env \<Rightarrow> string \<Rightarrow> (string \<times> time \<times> sql_error option) act" where
  "cache_Oldest env pre = atomic (\<lambda>s. (Returns (Oldest (en_engine env) (en_fault env (st_tick s)) (st_table s) pre),
     s\<lparr>st_tick := Suc (st_tick s)\<rparr>))"

definition cache_AllKeys :: "env \<Rightarrow> string \<Rightarrow> string list act" where
  "cache_AllKeys env pre = atomic (\<lambda>s. (Returns (AllKeys (en_engine env) (en_fault env (st_tick s)) (st_table s) pre),
     s\<lparr>st_tick := Suc (st_tick s)\<rparr>))"

section \<open>Headers of forwarded messages\<close>

text \<open>\<^verbatim>\<open>hopHeaders\<close> and the fields that the Connection header names.\<close>

definition hop_headers :: "string list" where
  "hop_headers = [''Connection'', ''Proxy-Connection'', ''Keep-Alive'', ''Proxy-Authenticate'',
     ''Proxy-Authorization'', ''Te'', ''Trailer'', ''Transfer-Encoding'', ''Upgrade'']"

definition connection_options :: "header \<Rightarrow> string list" where
  "connection_options h = concat (map comma_elements (hdr_Values h ''Connection''))"

definition remove_hop_headers :: "header \<Rightarrow> header" where
  "remove_hop_headers h = foldl hdr_Del h (connection_options h @ hop_headers)"

definition HeaderValuesContainsToken :: "string list \<Rightarrow> string \<Rightarrow> bool" where
  "HeaderValuesContainsToken values token \<longleftrightarrow>
     list_ex (\<lambda>v. list_ex (\<lambda>p. ToLower (trim_while is_blank p) = ToLower token) (Split v '',''))
       values"

definition upgradeType :: "header \<Rightarrow> string" where
  "upgradeType h =
     (if HeaderValuesContainsToken (hdr_Values h ''Connection'') ''Upgrade''
      then hdr_Get h ''Upgrade'' else [])"

definition printable :: "char \<Rightarrow> bool" where
  "printable c \<longleftrightarrow> 32 \<le> byte c \<and> byte c \<le> 126"

lemma printable_code [code]:
  "printable (Char b0 b1 b2 b3 b4 b5 b6 b7) \<longleftrightarrow> 
     \<not> b7 \<and> (b6 \<or> b5) \<and> \<not> (b6 \<and> b5 \<and> b4 \<and> b3 \<and> b2 \<and> b1 \<and> b0)"
  unfolding printable_def byte_Char
  by (cases b0; cases b1; cases b2; cases b3; cases b4; cases b5; cases b6; cases b7; simp)

definition IsPrint :: "string \<Rightarrow> bool" where
  "IsPrint s \<longleftrightarrow> list_all printable s"

text \<open>\<^verbatim>\<open>net.SplitHostPort\<close>, the host.\<close>

definition split_host :: "string \<Rightarrow> string option" where
  "split_host s =
     (case last_index (CHR '':'') s of
        None \<Rightarrow> None
      | Some i \<Rightarrow>
          if HasPrefix s ''['' then
            (let e = length (takeWhile (\<lambda>c. c \<noteq> CHR '']'') s)
             in if e + 1 = i \<and> CHR ''['' \<notin> set (tl s) \<and> CHR '']'' \<notin> set (drop (e + 1) s)
                then Some (take (e - 1) (tl s)) else None)
          else if CHR '':'' \<in> set (take i s) \<or> CHR ''['' \<in> set s \<or> CHR '']'' \<in> set s then None
          else Some (take i s))"

text \<open>The request that the proxy sends to the origin, after the director has changed it.\<close>

definition forwarded_header :: "request \<Rightarrow> header" where
  "forwarded_header req =
     (let h0 = req_header req;
          up = upgradeType h0;
          h = remove_hop_headers h0;
          h = (if HeaderValuesContainsToken (hdr_Values h0 ''Te'') ''trailers''
               then hdr_Set h ''Te'' ''trailers'' else h);
          h = (if up \<noteq> [] then hdr_Set (hdr_Set h ''Connection'' ''Upgrade'') ''Upgrade'' up else h)
      in case split_host (req_remote req) of
           None \<Rightarrow> h
         | Some ip \<Rightarrow>
             hdr_Set h ''X-Forwarded-For''
               (Join (hdr_Values h ''X-Forwarded-For'' @ [ip]) '', ''))"

section \<open>The reverse proxy\<close>

text \<open>
  \<open>director\<close> and \<open>modify\<close> are the configured functions.  On an error the default error handler
  answers 502; so does a switch of protocols, which needs a connection that the saver cannot give.
  A body that breaks off aborts a request that comes from the server (\<open>in_server\<close>), while a
  request the program has made itself ends as if the body were complete.
\<close>

definition bad_gateway ::
    "ResponseSaver \<Rightarrow> client_writer \<Rightarrow> (ResponseSaver \<times> client_writer) act" where
  "bad_gateway t w = ret (WriteHeader t w 502)"

definition send_reply ::
    "bool \<Rightarrow> ResponseSaver \<Rightarrow> client_writer \<Rightarrow> response \<Rightarrow> bool
     \<Rightarrow> (ResponseSaver \<times> client_writer) act" where
  "send_reply in_server t w res complete =
     (let t = t\<lparr>rs_header := copyHeader (rs_header t) (res_header res)\<rparr>;
          (t, w) = WriteHeader t w (res_status res);
          (t, w) = (if res_body res = [] then (t, w) else saver_Write t w (res_body res))
      in if \<not> complete \<and> in_server then panic else ret (t, w))"

definition apply_modifier :: "(response \<Rightarrow> response option) option \<Rightarrow> response \<Rightarrow> response option" where
  "apply_modifier modify res = (case modify of None \<Rightarrow> Some res | Some f \<Rightarrow> f res)"

definition ReverseProxy_ServeHTTP ::
    "env \<Rightarrow> (request \<Rightarrow> request) \<Rightarrow> (response \<Rightarrow> response option) option \<Rightarrow> bool
     \<Rightarrow> ResponseSaver \<Rightarrow> client_writer \<Rightarrow> request \<Rightarrow> (ResponseSaver \<times> client_writer) act" where
  "ReverseProxy_ServeHTTP env director modify in_server t w req =
     (let directed = director req
      in if \<not> IsPrint (upgradeType (req_header directed)) then bad_gateway t w
         else
           let outreq = directed\<lparr>req_header := forwarded_header directed\<rparr>
           in andThen (round_trip env outreq)
                (\<lambda>reply. case reply of
                   RoundTripError \<Rightarrow> bad_gateway t w
                 | Reply status h body complete \<Rightarrow>
                     if status = 101 then bad_gateway t w
                     else
                       case apply_modifier modify
                              \<lparr>res_status = status, res_header = remove_hop_headers h,
                               res_body = body, res_request = Some outreq\<rparr> of
                         None \<Rightarrow> bad_gateway t w
                       | Some res \<Rightarrow> send_reply in_server t w res complete))"

section \<open>Runs\<close>

text \<open>
  What a run of each form of action gives: the form in which runs are evaluated and reasoned
  about.
\<close>

named_theorems run_simps \<open>what a run of an action gives\<close>

lemma run_ret [run_simps]: "run (ret x) s = (Returns x, s)"
  by (simp add: ret_def)

lemma run_panic [run_simps]: "run panic s = (Panic, s)"
  by (simp add: panic_def)

lemma run_lift_result [run_simps]: "run (lift_result r) s = (r, s)"
  by (simp add: lift_result_def)

lemma run_atomic: "run (atomic e) s = e s"
  by (cases "e s") (simp add: atomic_def)

lemma run_andThen [run_simps]:
  "run (andThen m f) s = (case run m s of (Returns x, s') \<Rightarrow> run (f x) s' | (Panic, s') \<Rightarrow> (Panic, s'))"
proof (induction m arbitrary: s rule: act_induct)
  case (Done r)
  then show ?case by (cases r) simp_all
next
  case (Step g)
  show ?case by (simp add: run_Step Step del: run.simps(2))
qed

lemma run_effects [run_simps]:
  "run (time_Now env) s = (Returns (en_clock env (st_tick s)), s\<lparr>st_tick := Suc (st_tick s)\<rparr>)"
  "run (round_trip env req) s = (Returns (en_origin env (st_tick s) req),
     s\<lparr>st_tick := Suc (st_tick s), st_sent := st_sent s @ [req]\<rparr>)"
  "run (spawn t) s = (Returns (), s\<lparr>st_tasks := st_tasks s @ [t]\<rparr>)"
  "run (cache_All env pre) s =
     (Returns (All (en_engine env) (en_fault env (st_tick s)) (st_table s) pre), s\<lparr>st_tick := Suc (st_tick s)\<rparr>)"
  "run (cache_PutCE env ce) s = (let (t, err) = PutCE (en_fault env (st_tick s)) (st_table s) ce
     in (Returns err, s\<lparr>st_tick := Suc (st_tick s), st_table := t\<rparr>))"
  "run (cache_Purge env key) s = (case Purge (en_fault env (st_tick s)) (st_table s) key of
       Returns t \<Rightarrow> (Returns (), s\<lparr>st_tick := Suc (st_tick s), st_table := t\<rparr>)
     | Panic \<Rightarrow> (Panic, s\<lparr>st_tick := Suc (st_tick s)\<rparr>))"
  "run (cache_Has env key) s =
     (Has (en_engine env) (en_fault env (st_tick s)) (st_table s) key, s\<lparr>st_tick := Suc (st_tick s)\<rparr>)"
  "run (cache_Oldest env pre) s =
     (Returns (Oldest (en_engine env) (en_fault env (st_tick s)) (st_table s) pre), s\<lparr>st_tick := Suc (st_tick s)\<rparr>)"
  "run (cache_AllKeys env pre) s =
     (Returns (AllKeys (en_engine env) (en_fault env (st_tick s)) (st_table s) pre), s\<lparr>st_tick := Suc (st_tick s)\<rparr>)"
  by (simp_all add: time_Now_def round_trip_def spawn_def cache_All_def cache_PutCE_def cache_Purge_def
      cache_Has_def cache_Oldest_def cache_AllKeys_def run_atomic)

lemma run_let [run_simps]: "run (let x = e in f x) s = (let x = e in run (f x) s)"
  by (simp add: Let_def)

lemma run_if [run_simps]: "run (if b then f else g) s = (if b then run f s else run g s)"
  by simp

lemma run_prod [run_simps]: "run (case p of (x, y) \<Rightarrow> f x y) s = (case p of (x, y) \<Rightarrow> run (f x y) s)"
  by (cases p) simp

lemma run_option [run_simps]:
  "run (case y of None \<Rightarrow> m | Some x \<Rightarrow> f x) s = (case y of None \<Rightarrow> run m s | Some x \<Rightarrow> run (f x) s)"
  by (cases y) simp_all

lemma run_sum [run_simps]:
  "run (case y of Inl e \<Rightarrow> f e | Inr x \<Rightarrow> g x) s = (case y of Inl e \<Rightarrow> run (f e) s | Inr x \<Rightarrow> run (g x) s)"
  by (cases y) simp_all

lemma run_reply [run_simps]:
  "run (case y of RoundTripError \<Rightarrow> g | Reply a b c d \<Rightarrow> f a b c d) s =
     (case y of RoundTripError \<Rightarrow> run g s | Reply a b c d \<Rightarrow> run (f a b c d) s)"
  by (cases y) simp_all

lemma run_case_task [run_simps]:
  "run (case y of UpdateResponse a b \<Rightarrow> g a b | DelayedUpdate b \<Rightarrow> f b) s =
     (case y of UpdateResponse a b \<Rightarrow> run (g a b) s | DelayedUpdate b \<Rightarrow> run (f b) s)"
  by (cases y) simp_all

section \<open>Properties kept by actions\<close>

text \<open>
  Every row of the table and every goroutine has a property; each step of an action keeps this
  from any state in which it holds, whatever other threads did since the step before, and what
  the action returns has a property of its own.
\<close>

definition holds :: "(row \<Rightarrow> bool) \<Rightarrow> (task \<Rightarrow> bool) \<Rightarrow> system \<Rightarrow> bool" where
  "holds T K s \<longleftrightarrow> wf_table (st_table s) \<and> list_all T (st_table s) \<and> list_all K (st_tasks s)"

primrec triple :: "(row \<Rightarrow> bool) \<Rightarrow> (task \<Rightarrow> bool) \<Rightarrow> 'a act \<Rightarrow> ('a \<Rightarrow> bool) \<Rightarrow> bool" where
  "triple T K (Done r) Q \<longleftrightarrow> (\<forall>x. r = Returns x \<longrightarrow> Q x)"
| "triple T K (Step g) Q \<longleftrightarrow>
     (\<forall>s. holds T K s \<longrightarrow> holds T K (snd (g s)) \<and> fst (map_prod (\<lambda>m. triple T K m Q) id (g s)))"

abbreviation anything :: "'a \<Rightarrow> bool" where "anything \<equiv> \<lambda>_. True"

named_theorems triples \<open>what the actions keep and return\<close>

lemma triple_Step:
  "triple T K (Step g) Q \<longleftrightarrow>
     (\<forall>s. holds T K s \<longrightarrow> holds T K (snd (g s)) \<and> triple T K (fst (g s)) Q)"
  by simp

lemma triple_run:
  "triple T K m Q \<Longrightarrow> holds T K s \<Longrightarrow> run m s = (r, s') \<Longrightarrow> holds T K s' \<and> (\<forall>x. r = Returns x \<longrightarrow> Q x)"
proof (induction m arbitrary: s rule: act_induct)
  case (Step g)
  then show ?case unfolding triple_Step run_Step by blast
qed auto

lemma triple_holds: "triple T K m Q \<Longrightarrow> holds T K s \<Longrightarrow> run m s = (r, s') \<Longrightarrow> holds T K s'"
  using triple_run by blast

lemma triple_atomic:
  "(\<And>s. holds T K s \<Longrightarrow> holds T K (snd (e s)) \<and> (\<forall>x. fst (e s) = Returns x \<longrightarrow> Q x)) \<Longrightarrow> triple T K (atomic e) Q"
  by (auto simp: atomic_def)

lemma triple_weaken: "triple T K m Q \<Longrightarrow> (\<And>x. Q x \<Longrightarrow> R x) \<Longrightarrow> triple T K m R"
  by (induction m rule: act_induct) simp_all

lemma triple_ret [triples]: "Q x \<Longrightarrow> triple T K (ret x) Q"
  by (simp add: ret_def)

lemma triple_panic [triples]: "triple T K panic Q"
  by (simp add: panic_def)

lemma triple_andThen:
  "triple T K m Q \<Longrightarrow> (\<And>x. Q x \<Longrightarrow> triple T K (f x) R) \<Longrightarrow> triple T K (andThen m f) R"
proof (induction m rule: act_induct)
  case (Done r)
  then show ?case by (cases r) simp_all
qed simp

text \<open>The common case: nothing is known of the value in between.\<close>

lemma triple_then [triples]:
  "triple T K m anything \<Longrightarrow> (\<And>x. triple T K (f x) R) \<Longrightarrow> triple T K (andThen m f) R"
  by (rule triple_andThen)

lemma triple_lift_result: "(\<And>x. r = Returns x \<Longrightarrow> Q x) \<Longrightarrow> triple T K (lift_result r) Q"
  by (simp add: lift_result_def)

lemma triple_reads [triples]:
  "triple T K (time_Now env) anything" "triple T K (round_trip env req) anything"
  "triple T K (cache_Has env k) anything" "triple T K (cache_Oldest env p) anything"
  "triple T K (cache_AllKeys env p) anything" "triple T K (lift_result r) anything"
  "triple T K (cache_All env p) anything"
  by (simp_all add: time_Now_def round_trip_def cache_Has_def cache_Oldest_def cache_AllKeys_def
      cache_All_def triple_lift_result)
     (rule triple_atomic, simp add: holds_def)+

lemma triple_spawn [triples]: "K t \<Longrightarrow> triple T K (spawn t) anything"
  unfolding spawn_def by (rule triple_atomic) (simp add: holds_def)

lemma triple_PutCE [triples]:
  assumes "T (row_of_entry ce)" shows "triple T K (cache_PutCE env ce) anything"
proof -
  have "timed_row (row_of_entry ce)" by (simp add: timed_row_def row_of_entry_def)
  then have "wf_table (replace_row (row_of_entry ce) t) \<and> list_all T (replace_row (row_of_entry ce) t)"
    if "wf_table t" "list_all T t" for t
    using that assms by (simp add: wf_table_replace) (simp add: replace_row_def list_all_iff)
  then show ?thesis
    unfolding cache_PutCE_def
    by (intro triple_atomic) (auto simp: holds_def PutCE_def split: option.splits)
qed

lemma triple_Purge [triples]: "triple T K (cache_Purge env key) anything"
proof -
  have "list_all T (filter P t)" if "list_all T t" for P t using that by (simp add: list_all_iff)
  then show ?thesis
    unfolding cache_Purge_def
    by (intro triple_atomic) (auto simp: holds_def Purge_def wf_table_filter split: option.splits)
qed

text \<open>What a query returns are entries of rows of the table.\<close>

lemma All_rows:
  assumes "sqlite_laws eng" and "wf_table t" and "list_all T t"
  shows "list_all (\<lambda>ce. \<exists>r. T r \<and> ce = entry_of_row r) (fst (All eng fault t p))"
proof (cases fault)
  case None
  then show ?thesis
    using assms(3) set_scan [OF assms(1)] unfolding None All_timed [OF assms(1,2)]
    by (auto simp: list_all_iff like_rows_def)
next
  case (Some e)
  then show ?thesis by (auto simp: All_def)
qed

lemma triple_All:
  assumes "sqlite_laws (en_engine env)"
  shows "triple T K (cache_All env p)
    (\<lambda>(entries, err). list_all (\<lambda>ce. \<exists>r. T r \<and> ce = entry_of_row r) entries)"
  unfolding cache_All_def
  by (intro triple_atomic) (auto simp: holds_def case_prod_unfold All_rows [OF assms])

lemma triple_if [triples]: "triple T K m Q \<Longrightarrow> triple T K n Q \<Longrightarrow> triple T K (if b then m else n) Q"
  by simp

lemma triple_option [triples]:
  "triple T K m Q \<Longrightarrow> (\<And>x. triple T K (f x) Q) \<Longrightarrow> triple T K (case y of None \<Rightarrow> m | Some x \<Rightarrow> f x) Q"
  by (simp split: option.splits)

lemma triple_prod [triples]:
  "(\<And>x y. triple T K (f x y) Q) \<Longrightarrow> triple T K (case p of (x, y) \<Rightarrow> f x y) Q"
  by (simp split: prod.splits)

text \<open>
  What a saver holds once a response has gone through it: the record of a response that the origin
  gave (and that the configured modifier may have changed), or the proxy's own answer 502, which
  has no header.
\<close>

definition origin_record ::
    "env \<Rightarrow> (response \<Rightarrow> response option) option \<Rightarrow> ResponseSaver \<Rightarrow> bool" where
  "origin_record env modify t \<longleftrightarrow>
     (\<exists>n outreq status h body complete res.
        en_origin env n outreq = Reply status h body complete
        \<and> apply_modifier modify \<lparr>res_status = status, res_header = remove_hop_headers h,
             res_body = body, res_request = Some outreq\<rparr> = Some res
        \<and> rs_status t = res_status res
        \<and> rs_header t = copyHeader [] (res_header res)
        \<and> rs_b t = status_line (res_status res) @ header_Write (rs_header t) @ LF # res_body res)"

definition recorded :: "env \<Rightarrow> (response \<Rightarrow> response option) option \<Rightarrow> ResponseSaver \<Rightarrow> bool" where
  "recorded env modify t \<longleftrightarrow>
     origin_record env modify t \<or> rs_status t = 502 \<and> rs_header t = []"

definition fresh_saver :: "ResponseSaver \<Rightarrow> bool" where
  "fresh_saver t \<longleftrightarrow> rs_b t = [] \<and> rs_header t = []"

lemma fresh_New [simp]: "fresh_saver (NewResponseSaver w flt now)"
  by (simp add: fresh_saver_def NewResponseSaver_def)

lemma saver_Write_wrote:
  "rs_wroteHeaders t \<Longrightarrow> rs_b (fst (saver_Write t w b)) = rs_b t @ b
     \<and> rs_header (fst (saver_Write t w b)) = rs_header t
     \<and> rs_status (fst (saver_Write t w b)) = rs_status t
     \<and> rs_CreatedAt (fst (saver_Write t w b)) = rs_CreatedAt t
     \<and> rs_rw (fst (saver_Write t w b)) = rs_rw t"
  by (simp add: saver_Write_def Let_def)

lemma triple_bad_gateway:
  "fresh_saver t \<Longrightarrow> triple T K (bad_gateway t w) (\<lambda>(t, w). recorded env modify t)"
  unfolding bad_gateway_def
  by (rule triple_ret) (simp add: case_prod_unfold recorded_def fresh_saver_def)

text \<open>The saver and the client's writer after a whole reply.\<close>

definition after_reply ::
    "ResponseSaver \<Rightarrow> client_writer \<Rightarrow> response \<Rightarrow> ResponseSaver \<times> client_writer" where
  "after_reply t w res =
     (case WriteHeader (t\<lparr>rs_header := copyHeader (rs_header t) (res_header res)\<rparr>) w (res_status res) of
        (t, w) \<Rightarrow> if res_body res = [] then (t, w) else saver_Write t w (res_body res))"

lemma send_reply_after:
  "send_reply in_server t w res complete =
     (if \<not> complete \<and> in_server then panic else ret (after_reply t w res))"
  by (simp add: send_reply_def after_reply_def Let_def case_prod_unfold)

lemma after_reply_saver:
  assumes "fresh_saver t"
  shows "rs_header (fst (after_reply t w res)) = copyHeader [] (res_header res)
    \<and> rs_status (fst (after_reply t w res)) = res_status res
    \<and> rs_CreatedAt (fst (after_reply t w res)) = rs_CreatedAt t
    \<and> rs_b (fst (after_reply t w res)) =
        status_line (res_status res) @ header_Write (copyHeader [] (res_header res)) @ LF # res_body res"
proof -
  let ?t = "t\<lparr>rs_header := copyHeader (rs_header t) (res_header res)\<rparr>"
  obtain t1 w1 where a: "WriteHeader ?t w (res_status res) = (t1, w1)"
    by (cases "WriteHeader ?t w (res_status res)")
  have "rs_wroteHeaders t1" "rs_header t1 = copyHeader [] (res_header res)"
    "rs_status t1 = res_status res" "rs_CreatedAt t1 = rs_CreatedAt t"
    "rs_b t1 = status_line (res_status res) @ header_Write (copyHeader [] (res_header res)) @ [LF]"
    using WriteHeader_wrote [of ?t w "res_status res"] assms unfolding a fst_conv
    by (simp_all add: fresh_saver_def)
  then show ?thesis
    using saver_Write_wrote [of t1 w1 "res_body res"] by (simp add: after_reply_def a)
qed

lemma triple_send_reply:
  assumes "fresh_saver t" and "en_origin env n outreq = Reply status h body complete"
    and "apply_modifier modify \<lparr>res_status = status, res_header = remove_hop_headers h,
             res_body = body, res_request = Some outreq\<rparr> = Some res"
  shows "triple T K (send_reply in_server t w res c) (\<lambda>(t, w). recorded env modify t)"
proof -
  have "origin_record env modify (fst (after_reply t w res))"
    unfolding origin_record_def
    by (rule exI [of _ n], rule exI [of _ outreq], rule exI [of _ status], rule exI [of _ h],
        rule exI [of _ body], rule exI [of _ complete], rule exI [of _ res])
       (simp add: assms(2,3) after_reply_saver [OF assms(1)])
  then show ?thesis
    unfolding send_reply_after by (auto intro!: triples simp: recorded_def case_prod_unfold)
qed

lemma triple_round_trip: "triple T K (round_trip env req) (\<lambda>reply. \<exists>n. en_origin env n req = reply)"
  unfolding round_trip_def by (rule triple_atomic) (auto simp: holds_def)

lemma triple_ReverseProxy:
  assumes "fresh_saver t"
  shows "triple T K (ReverseProxy_ServeHTTP env director modify in_server t w req)
           (\<lambda>(t, w). recorded env modify t)"
proof -
  have "triple T K
      (case reply of
         RoundTripError \<Rightarrow> bad_gateway t w
       | Reply status h body complete \<Rightarrow>
           if status = 101 then bad_gateway t w
           else case apply_modifier modify \<lparr>res_status = status, res_header = remove_hop_headers h,
                       res_body = body, res_request = Some outreq\<rparr> of
                  None \<Rightarrow> bad_gateway t w
                | Some res \<Rightarrow> send_reply in_server t w res complete)
      (\<lambda>(t, w). recorded env modify t)"
    if "\<exists>n. en_origin env n outreq = reply" for reply outreq
  proof (cases reply)
    case (Reply status h body complete)
    with that obtain n where "en_origin env n outreq = Reply status h body complete" by blast
    then show ?thesis
      using triple_bad_gateway [OF assms] triple_send_reply [OF assms]
      by (auto simp: Reply split: option.splits)
  qed (simp add: triple_bad_gateway [OF assms])
  then show ?thesis
    unfolding ReverseProxy_ServeHTTP_def Let_def
    by (intro triple_if triple_bad_gateway [OF assms] triple_andThen [OF triple_round_trip])
qed

end
