(* ===== verification/CacheStatus.thy ===== *)
theory CacheStatus
  imports GoStrings
begin

text \<open>
  The \<^verbatim>\<open>Cache-Status\<close> header of RFC 9211, \<^verbatim>\<open>rfc9211/2._cache-status.go\<close>.
\<close>

type_synonym FwdReason = string

definition StatusHit :: string where "StatusHit = ''hit''"

definition StatusFwd :: string where "StatusFwd = ''fwd''"

definition FwdReasonBypass :: FwdReason where "FwdReasonBypass = ''bypass''"

definition FwdReasonMethod :: FwdReason where "FwdReasonMethod = ''method''"

definition FwdReasonUriMiss :: FwdReason where "FwdReasonUriMiss = ''uri-miss''"

definition FwdReasonVaryMiss :: FwdReason where "FwdReasonVaryMiss = ''vary-miss''"

definition FwdReasonMiss :: FwdReason where "FwdReasonMiss = ''miss''"

definition FwdReasonRequest :: FwdReason where "FwdReasonRequest = ''request''"

definition FwdReasonStale :: FwdReason where "FwdReasonStale = ''stale''"

definition FwdReasonPartial :: FwdReason where "FwdReasonPartial = ''partial''"

lemmas fwd_reason_defs =
  FwdReasonBypass_def FwdReasonMethod_def FwdReasonUriMiss_def FwdReasonVaryMiss_def
  FwdReasonMiss_def FwdReasonRequest_def FwdReasonStale_def FwdReasonPartial_def

record cache_status =
  cs_status :: string
  cs_detail :: string
  cs_fwd_reason :: FwdReason
  cs_stored :: bool
  cs_ttl :: int

definition empty_status :: cache_status where
  "empty_status =
     \<lparr>cs_status = [], cs_detail = [], cs_fwd_reason = [], cs_stored = False, cs_ttl = 0\<rparr>"

definition Hit :: "cache_status \<Rightarrow> cache_status" where
  "Hit cs = cs\<lparr>cs_status := StatusHit\<rparr>"

definition Forward :: "cache_status \<Rightarrow> FwdReason \<Rightarrow> cache_status" where
  "Forward cs reason = cs\<lparr>cs_status := StatusFwd, cs_fwd_reason := reason\<rparr>"

definition CacheStatus_String :: "cache_status \<Rightarrow> string" where
  "CacheStatus_String cs =
     (let status = ''Always-Cache; '' @ cs_status cs;
          status = (if cs_status cs = ''fwd'' \<and> cs_fwd_reason cs \<noteq> []
                    then status @ ''='' @ cs_fwd_reason cs else status);
          status = (if cs_detail cs \<noteq> [] then status @ ''; detail='' @ cs_detail cs else status);
          status = (if cs_stored cs then status @ ''; stored'' else status);
          status = (if cs_ttl cs \<noteq> 0 then status @ ''; ttl='' @ show_int (cs_ttl cs) else status)
      in status)"

lemma hit_header: "CacheStatus_String (Hit empty_status) = ''Always-Cache; hit''"
  by (simp add: CacheStatus_String_def Hit_def empty_status_def StatusHit_def)

lemma forward_header:
  "reason \<noteq> [] \<Longrightarrow> CacheStatus_String (Forward empty_status reason) = ''Always-Cache; fwd='' @ reason"
  by (simp add: CacheStatus_String_def Forward_def empty_status_def StatusFwd_def)

end
