(* ===== verification/GoFloat.thy ===== *)
theory GoFloat
  imports GoTime "HOL-Library.Log_Nat"
begin

text \<open>
  The \<^verbatim>\<open>float64\<close> arithmetic behind \<^verbatim>\<open>Duration.Seconds\<close> and the formatting of a float
  without decimals: IEEE double precision numbers as rationals, rounded to the nearest with
  ties to even.  Overflow and subnormal numbers are out of reach of a duration.
\<close>

definition pow2 :: "int \<Rightarrow> rat" where
  "pow2 e = (if 0 \<le> e then 2 ^ nat e else 1 / 2 ^ nat (- e))"

definition round_half_even :: "rat \<Rightarrow> int" where
  "round_half_even x =
     (let f = \<lfloor>x\<rfloor>; d = x - of_int f
      in if d < 1 / 2 then f else if 1 / 2 < d then f + 1 else if even f then f else f + 1)"

text \<open>The exponent \<open>e\<close> with \<open>2^e \<le> x < 2^(e+1)\<close> of a positive rational.\<close>

definition exponent :: "rat \<Rightarrow> int" where
  "exponent x =
     (case quotient_of x of (a, b) \<Rightarrow>
        let e = bitlen a - bitlen b in if x < pow2 e then e - 1 else e)"

definition f64 :: "rat \<Rightarrow> rat" where
  "f64 x =
     (if x = 0 then 0
      else let e = exponent \<bar>x\<bar> - 52 in of_int (round_half_even (x / pow2 e)) * pow2 e)"

text \<open>\<^verbatim>\<open>Duration.Seconds\<close>: whole seconds and the rest, both truncated towards zero.\<close>

definition Duration_Seconds :: "duration \<Rightarrow> rat" where
  "Duration_Seconds d =
     (let i = sint d;
          sec = sgn i * (\<bar>i\<bar> div ns_per_second);
          nsec = sgn i * (\<bar>i\<bar> mod ns_per_second)
      in f64 (f64 (of_int sec) + f64 (f64 (of_int nsec) / of_int ns_per_second)))"

text \<open>\<^verbatim>\<open>Sprintf("%.f", x)\<close>: the nearest integer, ties to even, with the sign of \<open>x\<close>.\<close>

definition format_f0 :: "rat \<Rightarrow> string" where
  "format_f0 x =
     (if x < 0 then CHR ''-'' # show_nat (nat \<bar>round_half_even x\<bar>)
      else show_nat (nat (round_half_even x)))"

section \<open>Rounding between integers\<close>

lemma pow2_pos [simp]: "0 < pow2 e"
  by (simp add: pow2_def)

lemma round_half_even_bounds:
  assumes "of_int k \<le> x" and "x \<le> of_int l"
  shows "k \<le> round_half_even x \<and> round_half_even x \<le> l"
proof -
  have "k \<le> \<lfloor>x\<rfloor>" using assms(1) by (simp add: le_floor_iff)
  moreover have "\<lfloor>x\<rfloor> \<le> l" using floor_mono [OF assms(2)] by simp
  moreover have "\<lfloor>x\<rfloor> + 1 \<le> l" if "\<not> x - of_int \<lfloor>x\<rfloor> < 1 / 2"
  proof -
    have "of_int \<lfloor>x\<rfloor> < x" using that by simp
    then have "(of_int \<lfloor>x\<rfloor> :: rat) < of_int l" using assms(2) by simp
    then show ?thesis by simp
  qed
  ultimately show ?thesis
    unfolding round_half_even_def Let_def by auto
qed

lemma round_half_even_int [simp]: "round_half_even (of_int k) = k"
  using round_half_even_bounds [of k "of_int k" k] by simp

lemma bitlen_pos: "0 < a \<Longrightarrow> 0 < bitlen a"
  using bitlen_bounds [of a] by (cases "bitlen a \<le> 0") auto

lemma f64_zero [simp]: "f64 0 = 0"
  by (simp add: f64_def)

lemma pow2_le_exponent:
  assumes "0 < x"
  shows "pow2 (exponent x) \<le> x"
proof -
  obtain a b where q: "quotient_of x = (a, b)" by fastforce
  have b: "0 < b" using q by (rule quotient_of_denom_pos)
  have x: "x = of_int a / of_int b" using q by (rule quotient_of_div)
  have a: "0 < a" using assms b x by (simp add: zero_less_divide_iff)
  let ?e = "bitlen a - bitlen b"
  show ?thesis
  proof (cases "x < pow2 ?e")
    case False
    then show ?thesis by (simp add: exponent_def q)
  next
    case True
    have la: "2 ^ nat (bitlen a - 1) \<le> a" and lb: "b < 2 ^ nat (bitlen b)"
      using a b bitlen_bounds by auto
    have ba: "0 < bitlen a" "0 < bitlen b" using a b by (simp_all only: bitlen_pos)
    have "pow2 (?e - 1) * of_int b \<le> (of_int a :: rat)"
    proof -
      have "pow2 (?e - 1) * 2 ^ nat (bitlen b) = (2 :: rat) ^ nat (bitlen a - 1)"
      proof (cases "0 \<le> ?e - 1")
        case True
        then show ?thesis using ba
          by (simp add: pow2_def power_add [symmetric] nat_add_distrib [symmetric])
      next
        case False
        have "(2 :: rat) ^ nat (bitlen b) = 2 ^ nat (bitlen a - 1) * 2 ^ nat (- (?e - 1))"
          using ba False by (simp add: power_add [symmetric] nat_add_distrib [symmetric])
        then show ?thesis using False by (simp add: pow2_def)
      qed
      moreover have "(of_int b :: rat) \<le> 2 ^ nat (bitlen b)"
        using lb by (metis less_imp_le of_int_le_iff of_int_numeral of_int_power)
      moreover have "(2 :: rat) ^ nat (bitlen a - 1) \<le> of_int a"
        using la by (metis of_int_le_iff of_int_numeral of_int_power)
      ultimately show ?thesis
        by (metis (no_types, lifting) mult_left_mono order_trans pow2_pos less_imp_le)
    qed
    then have "pow2 (?e - 1) \<le> x"
      using b by (simp add: x le_divide_eq)
    with True show ?thesis by (simp add: exponent_def q)
  qed
qed

lemma exponent_less:
  assumes "0 < x" and "x < 2 ^ n"
  shows "exponent x < int n"
proof (rule ccontr)
  assume "\<not> exponent x < int n"
  then have "(2 :: rat) ^ n \<le> pow2 (exponent x)"
    by (simp add: pow2_def power_increasing le_nat_iff)
  with pow2_le_exponent [OF assms(1)] assms(2) show False by linarith
qed

lemma of_int_div_pow2:
  assumes "e \<le> 0"
  shows "of_int k / pow2 e = (of_int (k * 2 ^ nat (- e)) :: rat)"
  using assms by (cases "e = 0") (simp_all add: pow2_def)

text \<open>
  A value between two neighbouring whole numbers below \<open>2^52\<close> stays between them when it
  is rounded to double precision.
\<close>

lemma f64_between:
  assumes "0 \<le> k" and "k < 2 ^ 52" and "of_int k \<le> x" and "x \<le> of_int (k + 1)"
  shows "of_int k \<le> f64 x \<and> f64 x \<le> of_int (k + 1)"
proof (cases "x = 0")
  case True
  with assms show ?thesis by (simp add: f64_def)
next
  case False
  with assms(1,3) have pos: "0 < x" by (metis of_int_0_le_iff order_le_less order_trans)
  define e where "e = exponent \<bar>x\<bar> - 52"
  have "x < 2 ^ 53"
  proof -
    have "x \<le> of_int (2 ^ 52)" using assms(2,4) by (metis of_int_le_iff order_trans zless_imp_add1_zle)
    then show ?thesis by simp
  qed
  then have e: "e \<le> 0" using exponent_less [OF pos, of 53] pos by (simp add: e_def)
  have "of_int k / pow2 e \<le> x / pow2 e" and "x / pow2 e \<le> of_int (k + 1) / pow2 e"
    using assms(3,4) by (simp_all only: divide_right_mono less_imp_le [OF pow2_pos])
  then have "k * 2 ^ nat (- e) \<le> round_half_even (x / pow2 e)"
    and "round_half_even (x / pow2 e) \<le> (k + 1) * 2 ^ nat (- e)"
    unfolding of_int_div_pow2 [OF e] using round_half_even_bounds by blast+
  then have "of_int (k * 2 ^ nat (- e)) * pow2 e \<le> of_int (round_half_even (x / pow2 e)) * pow2 e"
    and "of_int (round_half_even (x / pow2 e)) * pow2 e \<le> of_int ((k + 1) * 2 ^ nat (- e)) * pow2 e"
    by (simp_all only: mult_right_mono less_imp_le [OF pow2_pos] of_int_le_iff)
  moreover have "of_int (m * 2 ^ nat (- e)) * pow2 e = (of_int m :: rat)" for m
    using of_int_div_pow2 [OF e, of m] pow2_pos [of e] by (metis less_irrefl nonzero_divide_eq_eq)
  ultimately show ?thesis
    using False by (simp only: f64_def Let_def e_def [symmetric] if_False)
qed

lemma f64_int:
  assumes "0 \<le> k" and "k < 2 ^ 52"
  shows "f64 (of_int k) = of_int k"
proof (cases "k = 0")
  case False
  have 1: "of_int k \<le> f64 (of_int k)" using f64_between [of k "of_int k"] assms by simp
  have 2: "f64 (of_int k) \<le> of_int k" using f64_between [of "k - 1" "of_int k"] assms False by simp
  from 1 2 show ?thesis by simp
qed (simp add: f64_def)

text \<open>The seconds of a duration that is not negative, as a formatted number.\<close>

lemma format_Duration_Seconds:
  assumes "0 \<le> sint d"
  shows "\<exists>n. format_f0 (Duration_Seconds d) = show_nat n
           \<and> sint d div ns_per_second \<le> int n \<and> int n \<le> sint d div ns_per_second + 1
           \<and> (sint d mod ns_per_second = 0 \<longrightarrow> int n = sint d div ns_per_second)"
proof -
  let ?s = "sint d div ns_per_second" and ?m = "sint d mod ns_per_second"
  have s: "0 \<le> ?s" "?s < 2 ^ 52"
    using assms sint_in_int64 [of d] by (simp_all add: in_int64_def)
  have m: "0 \<le> ?m" "?m < ns_per_second" by simp_all
  have fm: "f64 (of_int ?m) = of_int ?m" by (rule f64_int) (use m in auto)
  define fr where "fr = f64 (of_int ?m / of_int ns_per_second)"
  have fr: "0 \<le> fr \<and> fr \<le> 1"
    using f64_between [of 0 "of_int ?m / of_int ns_per_second"] m by (simp add: fr_def)
  have D: "Duration_Seconds d = f64 (of_int ?s + fr)"
  proof (cases "sint d = 0")
    case False
    with assms have "sgn (sint d) = 1" "\<bar>sint d\<bar> = sint d" by simp_all
    then show ?thesis
      by (simp only: Duration_Seconds_def Let_def mult_1 f64_int [OF s] fm fr_def)
  qed (simp add: Duration_Seconds_def fr_def)
  have b: "of_int ?s \<le> f64 (of_int ?s + fr) \<and> f64 (of_int ?s + fr) \<le> of_int (?s + 1)"
    by (rule f64_between) (use s fr in auto)
  then have r: "?s \<le> round_half_even (Duration_Seconds d)"
    "round_half_even (Duration_Seconds d) \<le> ?s + 1"
    unfolding D using round_half_even_bounds by blast+
  have z: "round_half_even (Duration_Seconds d) = ?s" if "?m = 0"
    unfolding D fr_def that by (simp add: f64_int [OF s])
  have "(0 :: rat) \<le> of_int ?s" using s(1) by simp
  with b have nn: "\<not> Duration_Seconds d < 0" unfolding D by linarith
  show ?thesis
    using r s z nn by (intro exI [of _ "nat (round_half_even (Duration_Seconds d))"])
      (simp add: format_f0_def)
qed

end
