(* ===== verification/Reuse.thy ===== *)
theory Reuse
  imports Storing Invalidation CacheStatus GoFloat
begin

text \<open>
  Section 4 of the RFC: \<^verbatim>\<open>rfc9111/4.0_constructing-responses-from-caches.go\<close> (whether a stored
  response must not be reused), \<^verbatim>\<open>4.1._calculating-cache-keys-with-the-vary-header-field.go\<close>,
  \<^verbatim>\<open>4.3.1._sending-a-validation-request.go\<close>, and \<^verbatim>\<open>MustNotReuse\<close> and \<^verbatim>\<open>AddAgeHeader\<close> of
  \<^verbatim>\<open>rfc9111/rfc9111.go\<close>.
\<close>

section \<open>Selecting header fields\<close>

definition FieldAbsent :: "header \<Rightarrow> string \<Rightarrow> bool" where
  "FieldAbsent h name \<longleftrightarrow> length (hdr_Values h name) = 0"

fun match_items :: "request \<Rightarrow> request \<Rightarrow> string list \<Rightarrow> bool" where
  "match_items req originalReq [] = True"
| "match_items req originalReq (item # items) =
     (if hdr_Get (req_header req) item \<noteq> hdr_Get (req_header originalReq) item then False
      else if (FieldAbsent (req_header req) item \<or> FieldAbsent (req_header originalReq) item)
              \<and> \<not> (FieldAbsent (req_header req) item \<and> FieldAbsent (req_header originalReq) item)
      then False
      else if item = ''*'' then False
      else match_items req originalReq items)"

definition headerFieldsMatch :: "request \<Rightarrow> request \<Rightarrow> response \<Rightarrow> bool" where
  "headerFieldsMatch req originalReq storedRes =
     match_items req originalReq (GetListHeader (res_header storedRes) ''Vary'')"

section \<open>Validation requests\<close>

text \<open>
  The request to validate shares the header map of the client request, so the preconditions
  set on it are seen there too: \<open>client_after\<close> is the client request after the call.  Without a
  client request the loop over the Vary fields adds to a nil request.
\<close>

datatype cond_outcome = CondPanic | CondErr | CondOk request

definition base_request :: "request option \<Rightarrow> response \<Rightarrow> request option" where
  "base_request req res = (case req of Some r \<Rightarrow> Some r | None \<Rightarrow> res_request res)"

definition vary_values :: "request \<Rightarrow> response \<Rightarrow> string list" where
  "vary_values orig res =
     concat (map (hdr_Values (req_header orig)) (GetListHeader (res_header res) ''Vary''))"

definition set_preconditions :: "header \<Rightarrow> response \<Rightarrow> header" where
  "set_preconditions h res =
     (let lastModified = hdr_Get (res_header res) ''Last-Modified'';
          h = (if lastModified \<noteq> [] then hdr_Set h ''If-Modified-Since'' lastModified else h);
          etag = hdr_Get (res_header res) ''ETag''
      in if etag \<noteq> [] then hdr_Set h ''If-None-Match'' etag else h)"

definition generateConditionalRequest :: "request option \<Rightarrow> response \<Rightarrow> cond_outcome" where
  "generateConditionalRequest req res =
     (case base_request req res of
        None \<Rightarrow> CondPanic
      | Some baseRequest \<Rightarrow>
          (case NewRequest (req_method baseRequest) (url_String (req_url baseRequest))
                  (req_body baseRequest) of
             None \<Rightarrow> CondErr
           | Some downstreamReq \<Rightarrow>
               (case req of
                  Some r \<Rightarrow>
                    CondOk (downstreamReq\<lparr>req_header := set_preconditions (req_header r) res\<rparr>)
                | None \<Rightarrow>
                    if vary_values baseRequest res \<noteq> [] then CondPanic
                    else CondOk (downstreamReq
                           \<lparr>req_header := set_preconditions (req_header downstreamReq) res\<rparr>))))"

definition client_after :: "request \<Rightarrow> request option \<Rightarrow> request" where
  "client_after req validationReq =
     (case validationReq of None \<Rightarrow> req | Some v \<Rightarrow> req\<lparr>req_header := req_header v\<rparr>)"

section \<open>Whether a stored response must not be reused\<close>

definition mustWriteThrough :: "request \<Rightarrow> response \<Rightarrow> bool" where
  "mustWriteThrough req res \<longleftrightarrow>
     (if HasDirective (response_cc res) ''safe'' then False
      else if UnsafeRequest req then True else False)"

text \<open>
  A validation request is made at two places, with the same error path: the warning is logged
  and the reason stale is returned without a request (\<open>Inl\<close>).
\<close>

definition make_validation ::
    "request \<Rightarrow> response \<Rightarrow> (FwdReason + (FwdReason \<times> request option)) go_result" where
  "make_validation req res =
     (let reason = FwdReasonStale
      in case generateConditionalRequest (Some req) res of
           CondPanic \<Rightarrow> Panic
         | CondErr \<Rightarrow> Returns (Inl reason)
         | CondOk validationRequest \<Rightarrow> Returns (Inr (reason, Some validationRequest)))"

text \<open>
  \<open>nowL\<close> and \<open>nowA\<close> are the two clock readings of \<^verbatim>\<open>isFresh\<close>.  The first check dereferences the
  request of the stored response.
\<close>

definition mustNotReuse ::
    "zones \<Rightarrow> time \<Rightarrow> time \<Rightarrow> request \<Rightarrow> response \<Rightarrow> time \<Rightarrow> time
     \<Rightarrow> (FwdReason \<times> request option) go_result" where
  "mustNotReuse tz nowL nowA req res requestTime responseTime =
     (case res_request res of
        None \<Rightarrow> Panic
      | Some originalReq \<Rightarrow>
          if url_String (req_url req) \<noteq> url_String (req_url originalReq)
          then Returns (FwdReasonUriMiss, None)
          else if \<not> headerFieldsMatch req originalReq res then Returns (FwdReasonVaryMiss, None)
          else
            bind_result
              (if HasDirective (response_cc res) ''no-cache'' then make_validation req res
               else Returns (Inr ([], None)))
              (\<lambda>checked. case checked of
                 Inl reason \<Rightarrow> Returns (reason, None)
               | Inr (reason, validationRequest) \<Rightarrow>
                   if \<not> isFresh tz nowL nowA res responseTime requestTime then
                     (if validationRequest = None then
                        bind_result (make_validation req res)
                          (\<lambda>made. case made of
                             Inl reason \<Rightarrow> Returns (reason, None)
                           | Inr result \<Rightarrow> Returns result)
                      else Returns (FwdReasonStale, validationRequest))
                   else Returns (reason, validationRequest)))"

datatype reuse_result = ReuseErr field_error | Reuse FwdReason "request option"

text \<open>\<^verbatim>\<open>MustNotReuse\<close>; a missing stored response is a nil pointer, dereferenced at once.\<close>

definition MustNotReuse ::
    "zones \<Rightarrow> time \<Rightarrow> time \<Rightarrow> request \<Rightarrow> response option \<Rightarrow> time \<Rightarrow> time
     \<Rightarrow> reuse_result go_result" where
  "MustNotReuse tz nowL nowA clientRequest stored requestTime responseTime =
     (case stored of
        None \<Rightarrow> Panic
      | Some storedResponse \<Rightarrow>
          if res_header storedResponse = [] then Returns (ReuseErr HeadersEmpty)
          else if res_status storedResponse = 0 then Returns (ReuseErr StatusEmpty)
          else case res_request storedResponse of
                 None \<Rightarrow> Returns (ReuseErr RequestEmpty)
               | Some original \<Rightarrow>
                   if req_method original = [] then Returns (ReuseErr MethodEmpty)
                   else if mustWriteThrough clientRequest storedResponse
                   then Returns (Reuse FwdReasonMethod None)
                   else bind_result
                          (mustNotReuse tz nowL nowA clientRequest storedResponse
                             requestTime responseTime)
                          (\<lambda>(fwdReason, validationRequest).
                             Returns (Reuse fwdReason validationRequest)))"

section \<open>The Age header\<close>

definition toDeltaSeconds :: "duration \<Rightarrow> string" where
  "toDeltaSeconds d = format_f0 (Duration_Seconds d)"

definition AddAgeHeader :: "zones \<Rightarrow> time \<Rightarrow> response \<Rightarrow> time \<Rightarrow> time \<Rightarrow> response" where
  "AddAgeHeader tz now storedResponse responseTime requestTime =
     (let age = current_age tz now storedResponse responseTime requestTime
      in storedResponse
           \<lparr>res_header := hdr_Set (res_header storedResponse) ''Age'' (toDeltaSeconds age)\<rparr>)"

definition constructResponse :: "zones \<Rightarrow> time \<Rightarrow> response \<Rightarrow> time \<Rightarrow> time \<Rightarrow> response" where
  "constructResponse tz now storedResponse responseTime requestTime =
     (let res = \<lparr>res_status = res_status storedResponse, res_header = res_header storedResponse,
                 res_body = res_body storedResponse, res_request = None\<rparr>;
          age = current_age tz now storedResponse responseTime requestTime
      in res\<lparr>res_header := hdr_Set (res_header res) ''Age'' (toDeltaSeconds age)\<rparr>)"

definition ConstructReusableResponse ::
    "zones \<Rightarrow> time \<Rightarrow> time \<Rightarrow> time \<Rightarrow> request \<Rightarrow> response \<Rightarrow> time \<Rightarrow> time
     \<Rightarrow> (response option \<times> request option \<times> FwdReason) go_result" where
  "ConstructReusableResponse tz nowL nowA now req res requestTime responseTime =
     (if mustWriteThrough req res then Returns (None, None, FwdReasonMethod)
      else bind_result (mustNotReuse tz nowL nowA req res requestTime responseTime)
             (\<lambda>(fwdReason, validationRequest).
                Returns (Some (constructResponse tz now res responseTime requestTime),
                         validationRequest, fwdReason)))"

section \<open>Facts on selection and validation\<close>

lemma match_items_iff:
  "match_items req orig items \<longleftrightarrow>
     list_all (\<lambda>item. item \<noteq> ''*''
                 \<and> hdr_Get (req_header req) item = hdr_Get (req_header orig) item
                 \<and> FieldAbsent (req_header req) item = FieldAbsent (req_header orig) item) items"
  by (induction items) auto

lemmas headerFieldsMatch_iff = headerFieldsMatch_def [unfolded match_items_iff]

lemma canon_precondition_names:
  "canon_key ''If-Modified-Since'' = ''If-Modified-Since''"
  "canon_key ''If-None-Match'' = ''If-None-Match''"
  by code_simp+

lemma set_preconditions_values:
  "hdr_Values (set_preconditions h res) name =
     (if canon_key name = ''If-None-Match'' \<and> hdr_Get (res_header res) ''ETag'' \<noteq> []
      then [hdr_Get (res_header res) ''ETag'']
      else if canon_key name = ''If-Modified-Since'' \<and> hdr_Get (res_header res) ''Last-Modified'' \<noteq> []
      then [hdr_Get (res_header res) ''Last-Modified'']
      else hdr_Values h name)"
  by (simp add: set_preconditions_def Let_def hdr_ops canon_precondition_names)

lemma generate_Some:
  "generateConditionalRequest (Some r) res =
     (case NewRequest (req_method r) (url_String (req_url r)) (req_body r) of
        None \<Rightarrow> CondErr
      | Some d \<Rightarrow> CondOk (d\<lparr>req_header := set_preconditions (req_header r) res\<rparr>))"
  by (simp add: generateConditionalRequest_def base_request_def split: option.splits)

lemma make_validation_cases:
  "make_validation req res =
     (case NewRequest (req_method req) (url_String (req_url req)) (req_body req) of
        None \<Rightarrow> Returns (Inl FwdReasonStale)
      | Some d \<Rightarrow> Returns (Inr (FwdReasonStale,
                     Some (d\<lparr>req_header := set_preconditions (req_header req) res\<rparr>))))"
  by (simp add: make_validation_def generate_Some split: option.splits)

text \<open>The whole decision on a stored response with its original request, as one case analysis.\<close>

lemma mustNotReuse_cases:
  assumes "res_request res = Some orig"
  shows "mustNotReuse tz nowL nowA req res qt rt = Returns
    (if url_String (req_url req) \<noteq> url_String (req_url orig) then (FwdReasonUriMiss, None)
     else if \<not> headerFieldsMatch req orig res then (FwdReasonVaryMiss, None)
     else if HasDirective (response_cc res) ''no-cache'' \<or> \<not> isFresh tz nowL nowA res rt qt then
       (FwdReasonStale,
        map_option (\<lambda>d. d\<lparr>req_header := set_preconditions (req_header req) res\<rparr>)
          (NewRequest (req_method req) (url_String (req_url req)) (req_body req)))
     else ([], None))"
proof -
  define made where "made = NewRequest (req_method req) (url_String (req_url req)) (req_body req)"
  have mv: "make_validation req res = (case made of
        None \<Rightarrow> Returns (Inl FwdReasonStale)
      | Some d \<Rightarrow> Returns (Inr (FwdReasonStale,
                     Some (d\<lparr>req_header := set_preconditions (req_header req) res\<rparr>))))"
    unfolding made_def by (rule make_validation_cases)
  show ?thesis
    unfolding made_def [symmetric] using assms
    by (cases made) (simp_all add: mustNotReuse_def mv)
qed

lemma MustNotReuse_cases:
  assumes "res_header res \<noteq> []" and "res_status res \<noteq> 0" and "res_request res = Some orig"
    and "req_method orig \<noteq> []"
  shows "MustNotReuse tz nowL nowA req (Some res) qt rt =
    (if mustWriteThrough req res then Returns (Reuse FwdReasonMethod None)
     else bind_result (mustNotReuse tz nowL nowA req res qt rt) (\<lambda>(r, v). Returns (Reuse r v)))"
  using assms by (simp add: MustNotReuse_def)

text \<open>The conditions under which a stored response is sent without contacting the origin.\<close>

definition may_reuse ::
    "zones \<Rightarrow> time \<Rightarrow> time \<Rightarrow> request \<Rightarrow> response \<Rightarrow> request \<Rightarrow> time \<Rightarrow> time \<Rightarrow> bool" where
  "may_reuse tz nowL nowA req res orig qt rt \<longleftrightarrow>
     url_String (req_url req) = url_String (req_url orig)
     \<and> headerFieldsMatch req orig res
     \<and> \<not> HasDirective (response_cc res) ''no-cache''
     \<and> isFresh tz nowL nowA res rt qt
     \<and> (\<not> UnsafeRequest req \<or> HasDirective (response_cc res) ''safe'')"

lemma fwd_reasons_nonempty [simp]:
  "FwdReasonUriMiss \<noteq> []" "FwdReasonVaryMiss \<noteq> []" "FwdReasonStale \<noteq> []" "FwdReasonMethod \<noteq> []"
  by (simp_all add: fwd_reason_defs)

lemma mustWriteThrough_iff:
  "mustWriteThrough req res \<longleftrightarrow> UnsafeRequest req \<and> \<not> HasDirective (response_cc res) ''safe''"
  by (auto simp: mustWriteThrough_def)

lemma MustNotReuse_direct:
  "MustNotReuse tz nowL nowA req (Some res) qt rt = Returns (Reuse [] None) \<longleftrightarrow>
     (\<exists>orig. res_request res = Some orig \<and> req_method orig \<noteq> [] \<and> res_header res \<noteq> []
        \<and> res_status res \<noteq> 0 \<and> may_reuse tz nowL nowA req res orig qt rt)"
proof (cases "res_header res \<noteq> [] \<and> res_status res \<noteq> 0 \<and> (\<exists>orig. res_request res = Some orig \<and> req_method orig \<noteq> [])")
  case True
  then obtain orig where o: "res_header res \<noteq> []" "res_status res \<noteq> 0" "res_request res = Some orig"
    "req_method orig \<noteq> []" by blast
  show ?thesis
    unfolding MustNotReuse_cases [OF o] mustNotReuse_cases [OF o(3)] mustWriteThrough_iff may_reuse_def
    using o by auto
qed (auto simp: MustNotReuse_def split: option.splits)


lemma MustNotReuse_validation:
  assumes "MustNotReuse tz nowL nowA req (Some res) qt rt = Returns (Reuse reason (Some v))"
  shows "reason = FwdReasonStale \<and> req_header v = set_preconditions (req_header req) res"
proof -
  from assms obtain orig where o: "res_header res \<noteq> []" "res_status res \<noteq> 0"
    "res_request res = Some orig" "req_method orig \<noteq> []"
    by (auto simp: MustNotReuse_def split: if_splits option.splits)
  from assms show ?thesis
    unfolding MustNotReuse_cases [OF o] mustNotReuse_cases [OF o(3)]
    by (auto split: if_splits)
qed

text \<open>C32. A validation request is only made with the reason stale.  It carries the client's header
  with the stored entity tag in If-None-Match and the stored modification date in
  If-Modified-Since, where the stored response has them, in place of the client's own; the client
  request itself is left with this header.\<close>

theorem validation_request_header:
  assumes "MustNotReuse tz nowL nowA req (Some res) qt rt = Returns (Reuse reason (Some v))"
  shows "reason = FwdReasonStale
     \<and> req_header (client_after req (Some v)) = req_header v
     \<and> hdr_Values (req_header v) name =
         (if canon_key name = ''If-None-Match'' \<and> hdr_Get (res_header res) ''ETag'' \<noteq> []
          then [hdr_Get (res_header res) ''ETag'']
          else if canon_key name = ''If-Modified-Since'' \<and> hdr_Get (res_header res) ''Last-Modified'' \<noteq> []
          then [hdr_Get (res_header res) ''Last-Modified'']
          else hdr_Values (req_header req) name)"
  using MustNotReuse_validation [OF assms] by (simp add: set_preconditions_values client_after_def)

text \<open>Deciding on reuse panics exactly if there is no stored response at all (it could not be
  read back from its bytes).\<close>

lemma MustNotReuse_panics_iff:
  "MustNotReuse tz nowL nowA req stored qt rt = Panic \<longleftrightarrow> stored = None"
proof (cases stored)
  case (Some res)
  show ?thesis
  proof (cases "res_request res")
    case (Some orig)
    with \<open>stored = Some res\<close> show ?thesis
      by (auto simp: MustNotReuse_def mustNotReuse_cases split: prod.splits)
  qed (simp add: MustNotReuse_def Some)
qed (simp add: MustNotReuse_def)

text \<open>A stored response that is stale, for the examples.\<close>

definition stored_example :: response where
  "stored_example =
     (plain_response 200 [(''Date'', [''Sun, 06 Nov 1994 08:49:37 GMT'']), (''Etag'', [''v1'']),
                          (''Cache-Control'', [''max-age=60''])])
       \<lparr>res_request := Some (example_request ''GET'' [])\<rparr>"

theorem validation_request_header_witness:
  "hdr_Values (req_header (case MustNotReuse utc_zones 784111900000000000 784111900000000000
        (example_request ''GET'' [(''If-None-Match'', [''v0''])]) (Some stored_example)
        784111776000000000 784111777000000000 of
          Returns (Reuse _ (Some v)) \<Rightarrow> v)) ''if-none-match'' = [''v1'']"
proof -
  let ?req = "example_request ''GET'' [(''If-None-Match'', [''v0''])]"
  let ?m = "MustNotReuse utc_zones 784111900000000000 784111900000000000 ?req (Some stored_example)
        784111776000000000 784111777000000000"
  have "case ?m of Returns (Reuse _ (Some v)) \<Rightarrow> True | _ \<Rightarrow> False" by code_simp
  then obtain reason v where m: "?m = Returns (Reuse reason (Some v))"
    by (auto split: go_result.splits reuse_result.splits option.splits)
  have k: "canon_key ''if-none-match'' = ''If-None-Match''"
    and e: "hdr_Get (res_header stored_example) ''ETag'' = ''v1''" by code_simp+
  show ?thesis
    using validation_request_header [OF m, of "''if-none-match''"] by (simp add: m k e)
qed

section \<open>The Age header that is sent\<close>

text \<open>The Age header of a response sent from the cache is its current age in seconds, rounded to
  a neighbouring whole number (and exact for whole seconds), in place of any Age header it had;
  no other field changes.\<close>

lemma AddAgeHeader_value:
  assumes "0 \<le> sint (current_age tz now res rt qt)"
  shows "\<exists>n. hdr_Values (res_header (AddAgeHeader tz now res rt qt)) name =
           (if canon_key name = ''Age'' then [show_nat n] else hdr_Values (res_header res) name)
         \<and> sint (current_age tz now res rt qt) div ns_per_second \<le> int n
         \<and> int n \<le> sint (current_age tz now res rt qt) div ns_per_second + 1"
proof -
  from format_Duration_Seconds [OF assms] obtain n where
    n: "toDeltaSeconds (current_age tz now res rt qt) = show_nat n"
    and b: "sint (current_age tz now res rt qt) div ns_per_second \<le> int n"
      "int n \<le> sint (current_age tz now res rt qt) div ns_per_second + 1"
    unfolding toDeltaSeconds_def by blast
  have "canon_key ''Age'' = ''Age''" by code_simp
  then show ?thesis
    using n b by (intro exI [of _ n]) (simp add: AddAgeHeader_def hdr_ops)
qed

end
