(* ===== verification/CacheKey.thy ===== *)
theory CacheKey
  imports Reuse
begin

text \<open>
  Cache keys, \<^verbatim>\<open>pkg/cache-key/key.go\<close>: the key of a stored response is the origin, the method
  and the request URI, a tab, the value of the \<^verbatim>\<open>Cache-Key\<close> header, and one line for each request
  header field selected by Vary.  A request can be rebuilt from a key.
\<close>

definition originSeparator :: string where "originSeparator = '':''"

definition methodSeparator :: string where "methodSeparator = '':''"

definition varySeparator :: string where "varySeparator = [CHR 0x09]"

definition newline :: string where "newline = [CHR 0x0A]"

record CacheKeyer =
  OriginId :: string
  OriginPrefix :: string

definition NewCacheKeyer :: "string \<Rightarrow> CacheKeyer" where
  "NewCacheKeyer originId =
     \<lparr>OriginId = originId, OriginPrefix = originId @ originSeparator\<rparr>"

definition MethodPrefix :: "CacheKeyer \<Rightarrow> string \<Rightarrow> string" where
  "MethodPrefix c method = OriginId c @ originSeparator @ method @ methodSeparator"

definition GetKeyPrefix :: "CacheKeyer \<Rightarrow> request \<Rightarrow> string" where
  "GetKeyPrefix c r =
     (let key = OriginId c @ originSeparator @ req_method r @ methodSeparator
                @ RequestURI (req_url r) @ varySeparator;
          ck = hdr_Get (req_header r) ''Cache-Key''
      in if ck \<noteq> [] then key @ ck else key)"

fun add_vary_lines :: "string \<Rightarrow> header \<Rightarrow> string list \<Rightarrow> string" where
  "add_vary_lines key reqHeader [] = key"
| "add_vary_lines key reqHeader (name # names) =
     (let key = (if \<not> FieldAbsent reqHeader name
                 then key @ newline @ ToLower name @ '': '' @ hdr_Get reqHeader name
                 else key)
      in add_vary_lines key reqHeader names)"

definition AddVaryKeys :: "string \<Rightarrow> request \<Rightarrow> response \<Rightarrow> string" where
  "AddVaryKeys pre req res =
     add_vary_lines pre (req_header req) (GetListHeader (res_header res) ''Vary'')"

text \<open>The loop over the lines of a key indexes the second part of each line.\<close>

fun vary_headers_loop :: "header \<Rightarrow> string list \<Rightarrow> header go_result" where
  "vary_headers_loop h [] = Returns h"
| "vary_headers_loop h (line # lines) =
     (case SplitN2 line '': '' of
        [name, value] \<Rightarrow> vary_headers_loop (hdr_Add h name value) lines
      | _ \<Rightarrow> Panic)"

definition GetVaryHeaders :: "string \<Rightarrow> header go_result" where
  "GetVaryHeaders key = vary_headers_loop [] (tl (Split key newline))"

datatype key_error = OriginMismatch | MalformedKey | BadRequest

definition GetRequestFromKey :: "CacheKeyer \<Rightarrow> string \<Rightarrow> (key_error + request) go_result" where
  "GetRequestFromKey c key =
     (if \<not> HasPrefix key (OriginPrefix c) then Returns (Inl OriginMismatch)
      else let keyNoOrigin = TrimPrefix key (OriginPrefix c)
           in case Cut keyNoOrigin varySeparator of
                None \<Rightarrow> Returns (Inl MalformedKey)
              | Some (keyNoVary, _) \<Rightarrow>
                  (case Cut keyNoVary methodSeparator of
                     None \<Rightarrow> Returns (Inl MalformedKey)
                   | Some (method, uri) \<Rightarrow>
                       (case NewRequest method uri [] of
                          None \<Rightarrow> Returns (Inl BadRequest)
                        | Some req \<Rightarrow>
                            bind_result (GetVaryHeaders key)
                              (\<lambda>h. Returns (Inr (req\<lparr>req_header := h\<rparr>))))))"

section \<open>Well-formed parts\<close>

text \<open>
  A keyer as \<^verbatim>\<open>NewCacheKeyer\<close> makes it for an origin without line breaks, and a request as it
  is read from the network: a token as method, no tab or line break in the URI, no line break in
  a header value.
\<close>

definition wf_keyer :: "CacheKeyer \<Rightarrow> bool" where
  "wf_keyer c \<longleftrightarrow> OriginPrefix c = OriginId c @ originSeparator \<and> CHR 0x0A \<notin> set (OriginId c)"

definition wf_key_request :: "request \<Rightarrow> bool" where
  "wf_key_request r \<longleftrightarrow>
     valid_method (req_method r)
     \<and> CHR 0x09 \<notin> set (RequestURI (req_url r)) \<and> CHR 0x0A \<notin> set (RequestURI (req_url r))
     \<and> list_all (\<lambda>(k, vs). list_all (\<lambda>v. CHR 0x0A \<notin> set v) vs) (req_header r)"

definition wf_vary :: "string list \<Rightarrow> bool" where
  "wf_vary names \<longleftrightarrow> list_all (\<lambda>name. list_all token_byte name) names"

lemma wf_vary_name: "wf_vary names \<Longrightarrow> name \<in> set names \<Longrightarrow> list_all token_byte name"
  by (induction names) (auto simp: wf_vary_def)

lemma wf_vary_filter: "wf_vary names \<Longrightarrow> wf_vary (filter P names)"
  by (induction names) (auto simp: wf_vary_def)

lemma wf_keyer_New: "CHR 0x0A \<notin> set originId \<Longrightarrow> wf_keyer (NewCacheKeyer originId)"
  by (simp add: wf_keyer_def NewCacheKeyer_def)

lemma hdr_Get_in:
  assumes "hdr_Get h k \<noteq> []"
  shows "\<exists>vs. (canon_key k, vs) \<in> set h \<and> hdr_Get h k \<in> set vs"
  using assms
  by (fastforce simp: hdr_Get_def hdr_Values_def split: option.splits list.splits
      dest!: map_of_SomeD)

lemma hdr_Get_no_newline:
  assumes "wf_key_request r"
  shows "CHR 0x0A \<notin> set (hdr_Get (req_header r) k)"
proof (cases "hdr_Get (req_header r) k = []")
  case False
  with hdr_Get_in obtain vs where "(canon_key k, vs) \<in> set (req_header r)"
    and "hdr_Get (req_header r) k \<in> set vs" by blast
  with assms show ?thesis by (fastforce simp: wf_key_request_def list_all_iff)
qed simp

lemma not_token_sep: "token_byte c \<Longrightarrow> c \<noteq> CHR '':'' \<and> c \<noteq> CHR 0x09 \<and> c \<noteq> CHR 0x0A"
  by (auto simp: token_byte_def is_alnum_def is_lower_def is_upper_def is_digit_def byte_def)

lemma token_free:
  assumes "list_all token_byte s"
  shows "CHR '':'' \<notin> set s" "CHR 0x09 \<notin> set s" "CHR 0x0A \<notin> set s"
  using assms not_token_sep by (auto simp: list_all_iff)

lemma list_all_token_lower: "list_all token_byte (ToLower s) = list_all token_byte s"
  by (simp add: ToLower_def list.pred_map comp_def)

section \<open>The shape of a key\<close>

text \<open>The lines that the Vary fields add, in order.\<close>

definition vary_lines :: "header \<Rightarrow> string list \<Rightarrow> string list" where
  "vary_lines h names =
     map (\<lambda>name. ToLower name @ '': '' @ hdr_Get h name) (filter (\<lambda>n. \<not> FieldAbsent h n) names)"

lemma add_vary_lines_Join:
  "add_vary_lines key h names = Join (key # vary_lines h names) newline"
proof (induction names arbitrary: key)
  case (Cons name names)
  have J: "Join ((key @ newline @ l) # ls) newline = Join (key # l # ls) newline" for key l ls
    by (cases ls) simp_all
  show ?case
    using J [of key "ToLower name @ '': '' @ hdr_Get h name"]
    by (simp add: Cons vary_lines_def)
qed (simp add: vary_lines_def)

lemma GetKeyPrefix_eq:
  "GetKeyPrefix c r = OriginId c @ '':'' @ req_method r @ '':'' @ RequestURI (req_url r)
     @ CHR 0x09 # hdr_Get (req_header r) ''Cache-Key''"
  by (simp add: GetKeyPrefix_def Let_def originSeparator_def methodSeparator_def varySeparator_def)

lemma Split_key:
  assumes "wf_keyer c" and "wf_key_request r" and "wf_vary names"
  shows "Split (add_vary_lines (GetKeyPrefix c r) (req_header r) names) newline
       = GetKeyPrefix c r # vary_lines (req_header r) names"
proof -
  have "CHR 0x0A \<notin> set (GetKeyPrefix c r)"
    using assms hdr_Get_no_newline [OF assms(2)] token_free(3) [of "req_method r"]
    by (simp add: GetKeyPrefix_eq wf_keyer_def wf_key_request_def valid_method_def)
  moreover have "CHR 0x0A \<notin> set l" if "l \<in> set (vary_lines (req_header r) names)" for l
  proof -
    from that obtain name where "name \<in> set names"
      and l: "l = ToLower name @ '': '' @ hdr_Get (req_header r) name"
      by (auto simp: vary_lines_def)
    with assms(3) have "list_all token_byte (ToLower name)"
      by (simp add: list_all_token_lower wf_vary_name)
    then show ?thesis
      using token_free(3) hdr_Get_no_newline [OF assms(2)] by (simp add: l)
  qed
  ultimately show ?thesis
    unfolding add_vary_lines_Join newline_def by (intro Split_Join) auto
qed

lemma vary_headers_loop_lines:
  assumes "wf_vary names"
  shows "vary_headers_loop h0 (map (\<lambda>name. ToLower name @ '': '' @ f name) names)
       = Returns (foldl (\<lambda>h name. hdr_Add h (ToLower name) (f name)) h0 names)"
  using assms
proof (induction names arbitrary: h0)
  case (Cons name names)
  then have "list_all token_byte (ToLower name)"
    by (simp add: list_all_token_lower wf_vary_def)
  then have "Cut (ToLower name @ '': '' @ f name) '': '' = Some (ToLower name, f name)"
    using Cut_append [of "CHR '':''" "ToLower name" "'' ''" "f name"] token_free(1) by simp
  with Cons show ?case by (simp add: SplitN2_def wf_vary_def)
qed simp

text \<open>The fields rebuilt from a key: each selected field once per mention in Vary.\<close>

lemma rebuilt_values:
  assumes "wf_vary names"
  shows "hdr_Values (foldl (\<lambda>h name. hdr_Add h (ToLower name) (f name)) h0 names) k
       = hdr_Values h0 k @ map f (filter (\<lambda>name. canon_key name = canon_key k) names)"
  using assms
proof (induction names arbitrary: h0)
  case (Cons name names)
  have "canon_key (ToLower name) = canon_key name"
    using Cons.prems by (intro canon_key_ToLower) (simp add: wf_vary_def)
  with Cons show ?case by (auto simp: hdr_ops wf_vary_def)
qed simp

section \<open>Keys and back\<close>

lemma Join_prefix: "Join (k # ls) sep = k @ concat (map (\<lambda>l. sep @ l) ls)"
  by (induction ls arbitrary: k) simp_all

lemma GetVaryHeaders_key:
  assumes "wf_keyer c" and "wf_key_request r" and "wf_vary names"
  shows "GetVaryHeaders (add_vary_lines (GetKeyPrefix c r) (req_header r) names) = Returns
     (foldl (\<lambda>h name. hdr_Add h (ToLower name) (hdr_Get (req_header r) name)) []
        (filter (\<lambda>n. \<not> FieldAbsent (req_header r) n) names))"
proof -
  have "wf_vary (filter (\<lambda>n. \<not> FieldAbsent (req_header r) n) names)"
    using assms(3) by (rule wf_vary_filter)
  then show ?thesis
    unfolding GetVaryHeaders_def Split_key [OF assms] vary_lines_def list.sel
    by (rule vary_headers_loop_lines)
qed

text \<open>The request that a key is turned back into.\<close>

definition rebuilt_header :: "request \<Rightarrow> string list \<Rightarrow> header" where
  "rebuilt_header r names =
     foldl (\<lambda>h name. hdr_Add h (ToLower name) (hdr_Get (req_header r) name)) []
       (filter (\<lambda>n. \<not> FieldAbsent (req_header r) n) names)"

definition rebuilt_request :: "request \<Rightarrow> url \<Rightarrow> string list \<Rightarrow> request" where
  "rebuilt_request r u names =
     \<lparr>req_method = req_method r, req_url = u\<lparr>u_host := removeEmptyPort (u_host u)\<rparr>,
      req_header = rebuilt_header r names, req_host = removeEmptyPort (u_host u),
      req_body = [], req_remote = []\<rparr>"

lemma rebuilt_header_values:
  assumes "wf_vary names"
  shows "hdr_Values (rebuilt_header r names) k =
     map (hdr_Get (req_header r))
       (filter (\<lambda>name. \<not> FieldAbsent (req_header r) name \<and> canon_key name = canon_key k) names)"
  unfolding rebuilt_header_def rebuilt_values [OF wf_vary_filter [OF assms]]
  by (simp add: hdr_Values_def conj_commute)

lemma GetRequestFromKey_key:
  assumes "wf_keyer c" and "wf_key_request r" and "wf_vary names"
    and "url_Parse (RequestURI (req_url r)) = Some u"
  shows "GetRequestFromKey c (add_vary_lines (GetKeyPrefix c r) (req_header r) names)
       = Returns (Inr (rebuilt_request r u names))"
proof -
  let ?key = "add_vary_lines (GetKeyPrefix c r) (req_header r) names"
  define rest where "rest = hdr_Get (req_header r) ''Cache-Key''
      @ concat (map (\<lambda>l. newline @ l) (vary_lines (req_header r) names))"
  define path where "path = req_method r @ CHR '':'' # RequestURI (req_url r)"
  have full: "?key = OriginPrefix c @ path @ CHR 0x09 # rest"
    using assms(1)
    by (simp add: add_vary_lines_Join Join_prefix GetKeyPrefix_eq rest_def path_def wf_keyer_def
        originSeparator_def)
  have m: "valid_method (req_method r)" "CHR '':'' \<notin> set (req_method r)" "CHR 0x09 \<notin> set path"
    using assms(2) token_free [of "req_method r"]
    by (auto simp: wf_key_request_def valid_method_def path_def)
  have cut1: "Cut (path @ CHR 0x09 # rest) varySeparator = Some (path, rest)"
    using Cut_append [OF m(3), of "[]" rest] by (simp add: varySeparator_def)
  have cut2: "Cut path methodSeparator = Some (req_method r, RequestURI (req_url r))"
    using Cut_append [OF m(2), of "[]" "RequestURI (req_url r)"]
    by (simp add: methodSeparator_def path_def)
  have "GetVaryHeaders (OriginPrefix c @ path @ CHR 0x09 # rest) = Returns (rebuilt_header r names)"
    using GetVaryHeaders_key [OF assms(1-3)] unfolding full rebuilt_header_def .
  moreover have "req_method r \<noteq> []" using m(1) by (simp add: valid_method_def)
  ultimately show ?thesis
    unfolding GetRequestFromKey_def full using m(1) assms(4)
    by (simp add: HasPrefix_def TrimPrefix_def cut1 cut2 NewRequest_def Let_def rebuilt_request_def)
qed

text \<open>C27. A request can be rebuilt from its key: for a request whose URI parses, the key that
  \<^verbatim>\<open>GetKeyPrefix\<close> and \<^verbatim>\<open>AddVaryKeys\<close> make gives back a request with the same method and URI,
  and with exactly the header fields that Vary selected, each holding the value that the
  original request had (once for each time Vary names it).\<close>

theorem GetRequestFromKey_roundtrip:
  assumes "wf_keyer c" and "wf_key_request r"
    and "wf_vary (GetListHeader (res_header res) ''Vary'')"
    and "url_Parse (RequestURI (req_url r)) = Some u"
  shows "\<exists>req. GetRequestFromKey c (AddVaryKeys (GetKeyPrefix c r) r res) = Returns (Inr req)
     \<and> req_method req = req_method r
     \<and> req_url req = u\<lparr>u_host := removeEmptyPort (u_host u)\<rparr>
     \<and> hdr_Values (req_header req) k =
         map (hdr_Get (req_header r))
           (filter (\<lambda>name. \<not> FieldAbsent (req_header r) name \<and> canon_key name = canon_key k)
              (GetListHeader (res_header res) ''Vary''))"
  using GetRequestFromKey_key [OF assms] rebuilt_header_values [OF assms(3)]
  by (simp add: AddVaryKeys_def rebuilt_request_def)

definition page_request :: "string \<Rightarrow> header \<Rightarrow> request" where
  "page_request method h =
     \<lparr>req_method = method, req_url = empty_url\<lparr>u_path := ''/page'', u_raw_query := ''p=1''\<rparr>,
      req_header = h, req_host = ''localhost'', req_body = [], req_remote = []\<rparr>"

theorem GetRequestFromKey_roundtrip_witness:
  "\<exists>req. GetRequestFromKey (NewCacheKeyer ''http://localhost:8081'')
           (AddVaryKeys (GetKeyPrefix (NewCacheKeyer ''http://localhost:8081'')
                           (page_request ''GET'' [(''Accept'', [''text/html''])]))
              (page_request ''GET'' [(''Accept'', [''text/html''])])
              (plain_response 200 [(''Vary'', [''accept, Cookie''])])) = Returns (Inr req)
     \<and> hdr_Values (req_header req) ''Accept'' = [''text/html'']"
proof -
  let ?c = "NewCacheKeyer ''http://localhost:8081''"
  let ?r = "page_request ''GET'' [(''Accept'', [''text/html''])]"
  let ?res = "plain_response 200 [(''Vary'', [''accept, Cookie''])]"
  have c: "wf_keyer ?c" by (rule wf_keyer_New) simp
  have r: "wf_key_request ?r" by code_simp
  have v: "wf_vary (GetListHeader (res_header ?res) ''Vary'')" by code_simp
  have u: "url_Parse (RequestURI (req_url ?r))
      = Some (empty_url\<lparr>u_path := ''/page'', u_raw_query := ''p=1''\<rparr>)" by code_simp
  have k: "map (hdr_Get (req_header ?r))
           (filter (\<lambda>name. \<not> FieldAbsent (req_header ?r) name \<and> canon_key name = canon_key ''Accept'')
              (GetListHeader (res_header ?res) ''Vary'')) = [''text/html'']" by code_simp
  show ?thesis
    using GetRequestFromKey_roundtrip [OF c r v u, of "''Accept''"] unfolding k by blast
qed

text \<open>A header that holds exactly the selected fields of another agrees with it on each of them.\<close>

lemma selected_values_agree:
  assumes "item \<in> set names"
    and vals: "\<And>k. hdr_Values h' k = map (hdr_Get h)
      (filter (\<lambda>name. \<not> FieldAbsent h name \<and> canon_key name = canon_key k) names)"
  shows "hdr_Get h item = hdr_Get h' item \<and> FieldAbsent h item = FieldAbsent h' item"
proof (cases "FieldAbsent h item")
  case True
  have "FieldAbsent h n" if "canon_key n = canon_key item" for n
    using True hdr.vals_canon [OF that, of h] by (simp add: FieldAbsent_def)
  then have "filter (\<lambda>name. \<not> FieldAbsent h name \<and> canon_key name = canon_key item) names = []"
    by (auto simp: filter_empty_conv)
  then have "hdr_Values h' item = []" using vals [of item] by simp
  moreover have "hdr_Values h item = []" using True by (simp add: FieldAbsent_def)
  ultimately show ?thesis by (simp add: FieldAbsent_def hdr_Get_def)
next
  case False
  let ?hits = "filter (\<lambda>name. \<not> FieldAbsent h name \<and> canon_key name = canon_key item) names"
  from False assms(1) have "item \<in> set ?hits" by simp
  then obtain n ns where n: "?hits = n # ns" by (cases ?hits) auto
  then have "n \<in> set ?hits" by simp
  then have "canon_key n = canon_key item" by simp
  then have "hdr_Get h n = hdr_Get h item"
    using hdr.vals_canon [of n item h] by (simp add: hdr_Get_def)
  moreover from vals [of item] n have "hdr_Values h' item = hdr_Get h n # map (hdr_Get h) ns"
    by (simp only: list.map)
  ultimately show ?thesis using False by (simp add: FieldAbsent_def hdr_Get_def [of h'])
qed

lemma stored_selected:
  assumes "wf_keyer c" and "wf_key_request r"
    and "wf_vary (GetListHeader (res_header res) ''Vary'')"
    and "server_url (req_url r)"
  shows "\<exists>req. GetRequestFromKey c (AddVaryKeys (GetKeyPrefix c r) r res) = Returns (Inr req)
     \<and> url_String (req_url r) = url_String (req_url req)
     \<and> (headerFieldsMatch r req res
          \<longleftrightarrow> \<not> List.member (GetListHeader (res_header res) ''Vary'') ''*'')"
proof -
  let ?names = "GetListHeader (res_header res) ''Vary''"
  obtain u where u: "url_Parse (RequestURI (req_url r)) = Some u"
    "url_String u = url_String (req_url r)" "u_host u = []"
    using url_String_parse_RequestURI [OF assms(4)] by (elim exE conjE)
  let ?req = "rebuilt_request r u ?names"
  have req: "GetRequestFromKey c (AddVaryKeys (GetKeyPrefix c r) r res) = Returns (Inr ?req)"
    unfolding AddVaryKeys_def using assms(1-3) u(1) by (rule GetRequestFromKey_key)
  have vals: "hdr_Values (req_header ?req) k = map (hdr_Get (req_header r))
      (filter (\<lambda>name. \<not> FieldAbsent (req_header r) name \<and> canon_key name = canon_key k) ?names)" for k
    using rebuilt_header_values [OF assms(3)] by (simp add: rebuilt_request_def)
  have "req_url ?req = u"
    by (simp add: u(3) removeEmptyPort_def last_index_def rebuilt_request_def)
  then have url: "url_String (req_url r) = url_String (req_url ?req)" using u(2) by simp
  have agree: "hdr_Get (req_header r) item = hdr_Get (req_header ?req) item
      \<and> FieldAbsent (req_header r) item = FieldAbsent (req_header ?req) item"
    if "item \<in> set ?names" for item
    using that vals by (rule selected_values_agree)
  have "headerFieldsMatch r ?req res \<longleftrightarrow> list_all (\<lambda>item. item \<noteq> ''*'') ?names"
    unfolding headerFieldsMatch_iff list_all_iff using agree by blast
  also have "\<dots> \<longleftrightarrow> \<not> List.member ?names ''*''"
    unfolding list_all_iff List.member_iff by blast
  finally show ?thesis using req url by blast
qed

text \<open>C8. A response that is stored under the key of a request is selected for this request: the
  request rebuilt from the key has the same URL, as printed, and agrees with it on every field
  that Vary names (unless Vary names \<open>*\<close>).\<close>

theorem stored_response_selected:
  assumes "wf_keyer c" and "wf_key_request r"
    and "wf_vary (GetListHeader (res_header res) ''Vary'')"
    and "server_url (req_url r)"
  shows "\<exists>req. GetRequestFromKey c (AddVaryKeys (GetKeyPrefix c r) r res) = Returns (Inr req)
     \<and> url_String (req_url r) = url_String (req_url req)
     \<and> (headerFieldsMatch r req res
          \<longleftrightarrow> \<not> List.member (GetListHeader (res_header res) ''Vary'') ''*'')"
  using assms by (rule stored_selected)

theorem stored_response_selected_witness:
  "\<exists>req. GetRequestFromKey (NewCacheKeyer ''http://localhost:8081'')
           (AddVaryKeys (GetKeyPrefix (NewCacheKeyer ''http://localhost:8081'')
                           (page_request ''GET'' [(''Accept'', [''text/html''])]))
              (page_request ''GET'' [(''Accept'', [''text/html''])])
              (plain_response 200 [(''Vary'', [''accept, Cookie''])])) = Returns (Inr req)
     \<and> headerFieldsMatch (page_request ''GET'' [(''Accept'', [''text/html''])]) req
           (plain_response 200 [(''Vary'', [''accept, Cookie''])])"
proof -
  let ?c = "NewCacheKeyer ''http://localhost:8081''"
  let ?r = "page_request ''GET'' [(''Accept'', [''text/html''])]"
  let ?res = "plain_response 200 [(''Vary'', [''accept, Cookie''])]"
  have c: "wf_keyer ?c" by (rule wf_keyer_New) simp
  have r: "wf_key_request ?r" by code_simp
  have v: "wf_vary (GetListHeader (res_header ?res) ''Vary'')" by code_simp
  have u: "server_url (req_url ?r)" by code_simp
  have m: "\<not> List.member (GetListHeader (res_header ?res) ''Vary'') ''*''" by code_simp
  show ?thesis using stored_response_selected [OF c r v u] m by blast
qed

end
