(* ===== verification/Server.thy ===== *)
theory Server
  imports Proxy CacheKey
begin

text \<open>
  The cache itself, \<^verbatim>\<open>always-cache.go\<close> and \<^verbatim>\<open>updater.go\<close>: answering a client from the store or
  from the origin, storing what the origin sends, and updating or invalidating stored entries.
  Logging has no effect on the state and is left out.
\<close>

section \<open>Configuration\<close>

record Config =
  cfg_OriginURL :: url
  cfg_OriginHost :: string
  cfg_RequestModifier :: "(request \<Rightarrow> request) option"
  cfg_ResponseModifier :: "(response \<Rightarrow> response option) option"
  cfg_DisableUpdates :: bool

record AlwaysCache =
  ac_keyer :: CacheKeyer
  ac_updateTimeout :: duration
  ac_director :: "request \<Rightarrow> request"
  ac_server_name :: string
  ac_modifyResponse :: "(response \<Rightarrow> response option) option"
  ac_modifyRequest :: "(request \<Rightarrow> request) option"

definition createDirector :: "string \<Rightarrow> string \<Rightarrow> string \<Rightarrow> request \<Rightarrow> request" where
  "createDirector scheme host hostHeader req =
     (let req = req\<lparr>req_url := (req_url req)\<lparr>u_scheme := scheme, u_host := host\<rparr>\<rparr>
      in if hostHeader \<noteq> [] then req\<lparr>req_host := hostHeader\<rparr> else req)"

text \<open>The second component tells whether the update loop is started.\<close>

definition CreateCache :: "Config \<Rightarrow> AlwaysCache \<times> bool" where
  "CreateCache config =
     (let host = u_host (cfg_OriginURL config);
          hostHeader = (if cfg_OriginHost config \<noteq> [] then cfg_OriginHost config else host);
          timeout = (if \<not> cfg_DisableUpdates config then Second else 0)
      in (\<lparr>ac_keyer = NewCacheKeyer (url_String (cfg_OriginURL config)),
           ac_updateTimeout = timeout,
           ac_director = createDirector (u_scheme (cfg_OriginURL config)) host hostHeader,
           ac_server_name = cfg_OriginHost config,
           ac_modifyResponse = cfg_ResponseModifier config,
           ac_modifyRequest = cfg_RequestModifier config\<rparr>,
          timeout \<noteq> 0))"

section \<open>Small functions\<close>

definition isRedirect :: "int \<Rightarrow> bool" where
  "isRedirect statusCode \<longleftrightarrow>
     (if statusCode = 301 \<or> statusCode = 302 \<or> statusCode = 303 \<or> statusCode = 307 \<or> statusCode = 308
      then True else False)"

definition getRequestSourceIp :: "request \<Rightarrow> string" where
  "getRequestSourceIp r =
     (let ipAndPort = req_remote r
      in case last_index (CHR '':'') ipAndPort of
           None \<Rightarrow> ipAndPort
         | Some portSepIdx \<Rightarrow> take portSepIdx ipAndPort)"

text \<open>The server's own \<^verbatim>\<open>copyHeader\<close> leaves out three fields; \<^verbatim>\<open>copyHeadersTo\<close> replaces values.\<close>

definition copyHeader_server :: "header \<Rightarrow> header \<Rightarrow> header" where
  "copyHeader_server dst src =
     foldl (\<lambda>d (k, vv).
        if k \<noteq> ''X-Forwarded-For'' \<and> k \<noteq> ''X-Forwarded-Proto'' \<and> k \<noteq> ''X-Forwarded-Host''
        then foldl (\<lambda>d v. hdr_Add d k v) d vv else d) dst src"

definition copyHeadersTo :: "header \<Rightarrow> header \<Rightarrow> header" where
  "copyHeadersTo dst src = foldl (\<lambda>d (k, vv). foldl (\<lambda>d v. hdr_Set d k v) d vv) dst src"

section \<open>Writing to the store\<close>

datatype write_error = FieldError field_error | StoreError sql_error

definition saved_response :: "ResponseSaver \<Rightarrow> request \<Rightarrow> response" where
  "saved_response rw r =
     \<lparr>res_status = StatusCode rw, res_header = rs_header rw, res_body = [], res_request = Some r\<rparr>"

definition entry_key :: "AlwaysCache \<Rightarrow> ResponseSaver \<Rightarrow> request \<Rightarrow> string" where
  "entry_key a rw r =
     (let keyPrefix = GetKeyPrefix (ac_keyer a) r
      in AddVaryKeys keyPrefix r
           \<lparr>res_status = 0, res_header = rs_header rw, res_body = [], res_request = None\<rparr>)"

definition writeCache ::
    "AlwaysCache \<Rightarrow> env \<Rightarrow> ResponseSaver \<Rightarrow> request \<Rightarrow> (bool \<times> write_error option) act" where
  "writeCache a env rw r =
     (let res = saved_response rw r
      in case MustNotStore res of
           Inl err \<Rightarrow> ret (False, Some (FieldError err))
         | Inr noStore \<Rightarrow>
             if noStore then ret (False, None)
             else andThen (time_Now env) (\<lambda>nowL. andThen (time_Now env) (\<lambda>nowE. andThen (time_Now env) (\<lambda>now.
                    let ce = \<lparr>ce_Key = entry_key a rw r,
                              ce_Expires = GetExpiration (en_zones env) nowL nowE res,
                              ce_RequestedAt = rs_CreatedAt rw,
                              ce_ReceivedAt = now,
                              ce_Bytes = Response rw\<rparr>
                    in andThen (cache_PutCE env ce) (\<lambda>err.
                         ret (err = None, map_option StoreError err))))))"

definition saveRequest ::
    "AlwaysCache \<Rightarrow> env \<Rightarrow> request \<Rightarrow> string \<Rightarrow> (bool \<times> write_error option) act" where
  "saveRequest a env req key =
     andThen (time_Now env) (\<lambda>created.
     andThen (ReverseProxy_ServeHTTP env (ac_director a) (ac_modifyResponse a) False
                (NewResponseSaver False [] created) new_client req) (\<lambda>(rw, w).
     writeCache a env rw req))"

section \<open>Updating and invalidating\<close>

fun revalidateUris :: "AlwaysCache \<Rightarrow> env \<Rightarrow> string list \<Rightarrow> unit act" where
  "revalidateUris a env [] = ret ()"
| "revalidateUris a env (uri # uris) =
     (case NewRequest ''GET'' uri [] of
        None \<Rightarrow> revalidateUris a env uris
      | Some req \<Rightarrow>
          let key = GetKeyPrefix (ac_keyer a) req
          in andThen (cache_Has env key) (\<lambda>has.
               andThen (if has then andThen (saveRequest a env req key) (\<lambda>_. ret ()) else ret ()) (\<lambda>_.
               revalidateUris a env uris)))"

fun invalidateUris :: "AlwaysCache \<Rightarrow> env \<Rightarrow> string list \<Rightarrow> unit act" where
  "invalidateUris a env [] = ret ()"
| "invalidateUris a env (uri # uris) =
     (case NewRequest ''GET'' uri [] of
        None \<Rightarrow> invalidateUris a env uris
      | Some req \<Rightarrow>
          andThen (cache_Purge env (GetKeyPrefix (ac_keyer a) req)) (\<lambda>_.
          invalidateUris a env uris))"

text \<open>The function that \<^verbatim>\<open>saveUpdates\<close> runs at once or after the delay.\<close>

definition run_update :: "AlwaysCache \<Rightarrow> env \<Rightarrow> CacheUpdate \<Rightarrow> unit act" where
  "run_update a env update =
     (case NewRequest ''GET'' (cu_Path update) [] of
        None \<Rightarrow> ret ()
      | Some req \<Rightarrow>
          andThen (saveRequest a env req (GetKeyPrefix (ac_keyer a) req)) (\<lambda>_. ret ()))"

fun saveUpdates :: "AlwaysCache \<Rightarrow> env \<Rightarrow> CacheUpdate list \<Rightarrow> unit act" where
  "saveUpdates a env [] = ret ()"
| "saveUpdates a env (update # updates) =
     andThen (if 0 <s cu_Delay update then spawn (DelayedUpdate update) else run_update a env update)
       (\<lambda>_. saveUpdates a env updates)"

definition updateIfNeeded :: "AlwaysCache \<Rightarrow> env \<Rightarrow> request \<Rightarrow> response \<Rightarrow> unit act" where
  "updateIfNeeded a env downReq upRes =
     andThen (lift_result (GetInvalidateURIs downReq upRes)) (\<lambda>uris.
     andThen (if ac_updateTimeout a = 0 then invalidateUris a env uris else revalidateUris a env uris) (\<lambda>_.
     andThen (lift_result (GetCacheUpdates downReq upRes)) (\<lambda>updates.
     saveUpdates a env updates)))"

definition updateResposeAndLocations ::
    "AlwaysCache \<Rightarrow> env \<Rightarrow> ResponseSaver \<Rightarrow> request \<Rightarrow> unit act" where
  "updateResposeAndLocations a env rw r =
     andThen (writeCache a env rw r) (\<lambda>_. updateIfNeeded a env r (saved_response rw r))"

text \<open>
  \<^verbatim>\<open>updateEntry\<close>: fetch again, a second time where the first did not store anything, and purge
  the key where this fails too.
\<close>

definition updateEntry :: "AlwaysCache \<Rightarrow> env \<Rightarrow> string \<Rightarrow> unit act" where
  "updateEntry a env key =
     andThen (lift_result (GetRequestFromKey (ac_keyer a) key)) (\<lambda>parsed.
       case parsed of
         Inl err \<Rightarrow> cache_Purge env key
       | Inr req \<Rightarrow>
           andThen (saveRequest a env req key) (\<lambda>(cached, err).
           andThen (if \<not> cached \<or> err \<noteq> None then saveRequest a env req key else ret (cached, err))
             (\<lambda>(cached, err). if err \<noteq> None \<or> \<not> cached then cache_Purge env key else ret ())))"

text \<open>One round of the loop in \<^verbatim>\<open>updateCache\<close>; the waiting between rounds is left out.\<close>

definition updateCache_round :: "AlwaysCache \<Rightarrow> env \<Rightarrow> unit act" where
  "updateCache_round a env =
     andThen (cache_Oldest env (MethodPrefix (ac_keyer a) ''GET'')) (\<lambda>(key, expiry, err).
       if err \<noteq> None then ret ()
       else if key = [] then ret ()
       else andThen (time_Now env) (\<lambda>now.
              if time_Sub expiry now <=s ac_updateTimeout a then updateEntry a env key else ret ()))"

fun update_keys :: "AlwaysCache \<Rightarrow> env \<Rightarrow> string list \<Rightarrow> unit act" where
  "update_keys a env [] = ret ()"
| "update_keys a env (key # keys) = andThen (updateEntry a env key) (\<lambda>_. update_keys a env keys)"

definition updateAll :: "AlwaysCache \<Rightarrow> env \<Rightarrow> unit act" where
  "updateAll a env = andThen (cache_AllKeys env (OriginPrefix (ac_keyer a))) (update_keys a env)"

section \<open>Answering a client\<close>

text \<open>A stored entry as a response; an error of either step gives no response.\<close>

definition createStoredResponse :: "AlwaysCache \<Rightarrow> CacheEntry \<Rightarrow> response option go_result" where
  "createStoredResponse a ce =
     bind_result (GetRequestFromKey (ac_keyer a) (ce_Key ce))
       (\<lambda>parsed. Returns (case parsed of
          Inl err \<Rightarrow> None
        | Inr originalReq \<Rightarrow> ReadResponse (ce_Bytes ce) originalReq))"

definition getResponsesForUri :: "AlwaysCache \<Rightarrow> env \<Rightarrow> request \<Rightarrow> CacheEntry list act" where
  "getResponsesForUri a env r =
     andThen (cache_All env (GetKeyPrefix (ac_keyer a) r)) (\<lambda>(entries, err).
       ret (if err \<noteq> None then [] else entries))"

definition sendStoredResponse ::
    "env \<Rightarrow> client_writer \<Rightarrow> response \<Rightarrow> CacheEntry \<Rightarrow> cache_status \<Rightarrow> client_writer act" where
  "sendStoredResponse env w res ce cacheStatus =
     andThen (time_Now env) (\<lambda>now.
       let res = AddAgeHeader (en_zones env) now res (ce_ReceivedAt ce) (ce_RequestedAt ce);
           w = w\<lparr>cw_header := copyHeader_server (cw_header w) (res_header res)\<rparr>;
           w = w\<lparr>cw_header := hdr_Add (cw_header w) ''Cache-Status'' (CacheStatus_String cacheStatus)\<rparr>;
           w = cw_WriteHeader w (res_status res)
       in ret (if res_body res = [] then w else cw_Write w (res_body res)))"

text \<open>The request to validate was made by the program, so the proxy does not abort on it.\<close>

definition sendToClientIfValidationFailed ::
    "AlwaysCache \<Rightarrow> env \<Rightarrow> client_writer \<Rightarrow> request \<Rightarrow> request \<Rightarrow> (bool \<times> client_writer) act" where
  "sendToClientIfValidationFailed a env w clientRequest validationReq =
     andThen (time_Now env) (\<lambda>created.
     andThen (ReverseProxy_ServeHTTP env (ac_director a) (ac_modifyResponse a) False
                (NewResponseSaver True [304] created) w validationReq) (\<lambda>(rwtee, w).
       if StatusCode rwtee \<noteq> 304
       then andThen (spawn (UpdateResponse rwtee clientRequest)) (\<lambda>_. ret (True, w))
       else ret (False, w)))"

text \<open>
  \<^verbatim>\<open>reuseOrValidate\<close> returns the forward reason with the client request, whose header the
  validation request shares, and the client's writer.
\<close>

definition reuseOrValidate ::
    "AlwaysCache \<Rightarrow> env \<Rightarrow> client_writer \<Rightarrow> request \<Rightarrow> CacheEntry
     \<Rightarrow> (FwdReason \<times> request \<times> client_writer) act" where
  "reuseOrValidate a env w r ce =
     andThen (lift_result (createStoredResponse a ce)) (\<lambda>res.
     andThen (time_Now env) (\<lambda>nowL. andThen (time_Now env) (\<lambda>nowA.
     andThen (lift_result (MustNotReuse (en_zones env) nowL nowA r res
                             (ce_RequestedAt ce) (ce_ReceivedAt ce))) (\<lambda>decision.
       case decision of
         ReuseErr err \<Rightarrow> ret (FwdReasonMiss, r, w)
       | Reuse fwdReason validationReq \<Rightarrow>
           let cs = Hit empty_status;
               r' = client_after r validationReq;
               use_stored = (\<lambda>w. case res of
                   None \<Rightarrow> panic
                 | Some stored \<Rightarrow>
                     andThen (sendStoredResponse env w stored ce cs) (\<lambda>w. ret (cs_fwd_reason cs, r', w)))
           in case validationReq of
                Some v \<Rightarrow>
                  andThen (sendToClientIfValidationFailed a env w r' v) (\<lambda>(sent, w).
                    if sent then ret ([], r', w) else use_stored w)
              | None \<Rightarrow> if fwdReason \<noteq> [] then ret (fwdReason, r', w) else use_stored w))))"

definition proxy :: "AlwaysCache \<Rightarrow> env \<Rightarrow> client_writer \<Rightarrow> request \<Rightarrow> client_writer act" where
  "proxy a env w r =
     (let cs = Forward empty_status FwdReasonUriMiss;
          w = w\<lparr>cw_header := hdr_Add (cw_header w) ''Cache-Status'' (CacheStatus_String cs)\<rparr>
      in andThen (time_Now env) (\<lambda>created.
         andThen (ReverseProxy_ServeHTTP env (ac_director a) (ac_modifyResponse a) True
                    (NewResponseSaver True [] created) w r) (\<lambda>(rwtee, w).
         andThen (if isRedirect (StatusCode rwtee) then updateResposeAndLocations a env rwtee r
                  else spawn (UpdateResponse rwtee r)) (\<lambda>_. ret w))))"

fun serve_entries ::
    "AlwaysCache \<Rightarrow> env \<Rightarrow> client_writer \<Rightarrow> request \<Rightarrow> CacheEntry list \<Rightarrow> client_writer act" where
  "serve_entries a env w r [] = proxy a env w r"
| "serve_entries a env w r (ce # ces) =
     andThen (reuseOrValidate a env w r ce) (\<lambda>(fwdReason, r, w).
       if fwdReason = [] then ret w else serve_entries a env w r ces)"

definition ServeHTTP :: "AlwaysCache \<Rightarrow> env \<Rightarrow> client_writer \<Rightarrow> request \<Rightarrow> client_writer act" where
  "ServeHTTP a env w r =
     (let r = (case ac_modifyRequest a of None \<Rightarrow> r | Some f \<Rightarrow> f r)
      in andThen (getResponsesForUri a env r) (\<lambda>entries. serve_entries a env w r entries))"

section \<open>Goroutines\<close>

definition run_task :: "AlwaysCache \<Rightarrow> env \<Rightarrow> task \<Rightarrow> unit act" where
  "run_task a env t =
     (case t of
        UpdateResponse rw r \<Rightarrow> updateResposeAndLocations a env rw r
      | DelayedUpdate update \<Rightarrow> run_update a env update)"

lemma run_case_decision [run_simps]:
  "run (case y of ReuseErr a \<Rightarrow> g a | Reuse a b \<Rightarrow> f a b) s =
     (case y of ReuseErr a \<Rightarrow> run (g a) s | Reuse a b \<Rightarrow> run (f a b) s)"
  by (cases y) simp_all

definition start :: system where
  "start = \<lparr>st_table = [], st_tick = 0, st_sent = [], st_tasks = []\<rparr>"

end
