(* ===== verification/Frame.thy ===== *)
theory Frame
  imports Server
begin

text \<open>
  What the handler and its goroutines leave alone.  A relation between the state before and after
  that every single effect respects is respected by every operation: this is shown once, for any
  such relation, and used for the requests sent, the goroutines started and the rows of other
  origins in a shared table.
\<close>

section \<open>Relations that all operations respect\<close>

text \<open>
  The relation holds across each effect: time passing, a request sent, a goroutine started, an
  entry put or purged under a key made for a request.
\<close>

locale effects =
  fixes a :: AlwaysCache and R :: "system \<Rightarrow> system \<Rightarrow> bool"
  assumes tick: "R s (s\<lparr>st_tick := Suc (st_tick s)\<rparr>)"
    and sent: "R s (s\<lparr>st_tick := Suc (st_tick s), st_sent := st_sent s @ [req]\<rparr>)"
    and tasks: "R s (s\<lparr>st_tasks := st_tasks s @ [started]\<rparr>)"
    and put: "ce_Key ce = entry_key a rw r
      \<Longrightarrow> R s (s\<lparr>st_tick := Suc (st_tick s), st_table := replace_row (row_of_entry ce) (st_table s)\<rparr>)"
    and purge: "R s (s\<lparr>st_tick := Suc (st_tick s),
                       st_table := filter (\<lambda>q. row_key q \<noteq> GetKeyPrefix (ac_keyer a) r) (st_table s)\<rparr>)"
begin

text \<open>Every step of the action, from any state, respects the relation.\<close>

primrec keeps :: "'x act \<Rightarrow> bool" where
  "keeps (Done r) \<longleftrightarrow> True"
| "keeps (Step g) \<longleftrightarrow> (\<forall>s. R s (snd (g s)) \<and> fst (map_prod keeps id (g s)))"

lemma keeps_Step: "keeps (Step g) \<longleftrightarrow> (\<forall>s. R s (snd (g s)) \<and> keeps (fst (g s)))"
  by simp

lemma keeps_ret: "keeps (ret x)" and keeps_panic: "keeps panic"
  by (simp_all add: ret_def panic_def)

lemma keeps_atomic: "(\<And>s. R s (snd (e s))) \<Longrightarrow> keeps (atomic e)"
  by (simp add: atomic_def)

lemma keeps_andThen: "keeps m \<Longrightarrow> (\<And>x. keeps (f x)) \<Longrightarrow> keeps (andThen m f)"
proof (induction m rule: act_induct)
  case (Done r)
  then show ?case by (cases r) simp_all
qed simp

lemma keeps_reads:
  "keeps (time_Now env)" "keeps (cache_Has env k)" "keeps (cache_Oldest env p)"
  "keeps (cache_AllKeys env p)" "keeps (cache_All env p)" "keeps (lift_result x)"
  unfolding time_Now_def cache_Has_def cache_Oldest_def cache_AllKeys_def cache_All_def lift_result_def
  by ((rule keeps_atomic, simp add: tick)+) simp

lemma keeps_round_trip: "keeps (round_trip env req)"
  unfolding round_trip_def by (rule keeps_atomic) (simp add: sent)

lemma keeps_spawn: "keeps (spawn t)"
  unfolding spawn_def by (rule keeps_atomic) (simp add: tasks)

lemma keeps_PutCE: "ce_Key ce = entry_key a rw r \<Longrightarrow> keeps (cache_PutCE env ce)"
  unfolding cache_PutCE_def PutCE_def
  by (intro keeps_atomic) (auto simp: Let_def intro!: put tick split: option.splits)

lemma keeps_Purge:
  "(\<And>s. R s (s\<lparr>st_tick := Suc (st_tick s), st_table := filter (\<lambda>q. row_key q \<noteq> key) (st_table s)\<rparr>)) \<Longrightarrow> keeps (cache_Purge env key)"
  unfolding cache_Purge_def Purge_def
  by (intro keeps_atomic) (auto intro: tick split: option.splits)

lemma keeps_if: "keeps m \<Longrightarrow> keeps n \<Longrightarrow> keeps (if b then m else n)"
  by simp

lemma keeps_option: "keeps m \<Longrightarrow> (\<And>x. keeps (f x)) \<Longrightarrow> keeps (case y of None \<Rightarrow> m | Some x \<Rightarrow> f x)"
  by (simp split: option.splits)

lemma keeps_prod: "(\<And>x y. keeps (f x y)) \<Longrightarrow> keeps (case p of (x, y) \<Rightarrow> f x y)"
  by (simp split: prod.splits)

lemma keeps_sum: "(\<And>x. keeps (f x)) \<Longrightarrow> (\<And>x. keeps (g x)) \<Longrightarrow> keeps (case y of Inl x \<Rightarrow> f x | Inr x \<Rightarrow> g x)"
  by (simp split: sum.splits)

lemma keeps_decision:
  "(\<And>e. keeps (f e)) \<Longrightarrow> (\<And>x v. keeps (g x v))
     \<Longrightarrow> keeps (case d of ReuseErr e \<Rightarrow> f e | Reuse x v \<Rightarrow> g x v)"
  by (simp split: reuse_result.splits)

lemmas keeps_intros = keeps_ret keeps_panic keeps_andThen keeps_reads keeps_round_trip keeps_spawn
  keeps_if keeps_option keeps_prod keeps_sum

lemma keeps_ReverseProxy: "keeps (ReverseProxy_ServeHTTP env director modify in_server t w req)"
  unfolding ReverseProxy_ServeHTTP_def Let_def bad_gateway_def send_reply_after
  by (intro keeps_intros) (simp add: keeps_intros split: origin_reply.splits option.splits)

lemma keeps_writeCache: "keeps (writeCache a env rw r)"
  unfolding writeCache_def Let_def by (intro keeps_intros keeps_PutCE) simp

lemma keeps_saveRequest: "keeps (saveRequest a env req key)"
  unfolding saveRequest_def by (intro keeps_intros keeps_ReverseProxy keeps_writeCache)

lemma keeps_revalidateUris: "keeps (revalidateUris a env uris)"
  by (induction uris) (auto intro!: keeps_intros keeps_saveRequest simp: Let_def)

lemma keeps_invalidateUris: "keeps (invalidateUris a env uris)"
  by (induction uris) (auto intro!: keeps_intros keeps_Purge purge)

lemma keeps_run_update: "keeps (run_update a env u)"
  unfolding run_update_def by (intro keeps_intros keeps_saveRequest)

lemma keeps_saveUpdates: "keeps (saveUpdates a env us)"
  by (induction us) (auto intro!: keeps_intros keeps_run_update)

lemma keeps_updateIfNeeded: "keeps (updateIfNeeded a env r res)"
  unfolding updateIfNeeded_def
  by (intro keeps_intros keeps_invalidateUris keeps_revalidateUris keeps_saveUpdates)

lemma keeps_updateResposeAndLocations: "keeps (updateResposeAndLocations a env rw r)"
  unfolding updateResposeAndLocations_def by (intro keeps_intros keeps_writeCache keeps_updateIfNeeded)

lemma keeps_updateEntry:
  assumes "\<And>s. R s (s\<lparr>st_tick := Suc (st_tick s), st_table := filter (\<lambda>q. row_key q \<noteq> key) (st_table s)\<rparr>)"
  shows "keeps (updateEntry a env key)"
  unfolding updateEntry_def by (intro keeps_intros keeps_saveRequest keeps_Purge [OF assms])

lemma keeps_updateCache_round:
  assumes "\<And>s key. R s (s\<lparr>st_tick := Suc (st_tick s), st_table := filter (\<lambda>q. row_key q \<noteq> key) (st_table s)\<rparr>)"
  shows "keeps (updateCache_round a env)"
  unfolding updateCache_round_def by (intro keeps_intros keeps_updateEntry assms)

lemma keeps_sendStoredResponse: "keeps (sendStoredResponse env w res ce cs)"
  unfolding sendStoredResponse_def Let_def by (intro keeps_intros)

lemma keeps_sendToClientIfValidationFailed: "keeps (sendToClientIfValidationFailed a env w r v)"
  unfolding sendToClientIfValidationFailed_def by (intro keeps_intros keeps_ReverseProxy)

lemma keeps_reuseOrValidate: "keeps (reuseOrValidate a env w r ce)"
  unfolding reuseOrValidate_def Let_def
  by (intro keeps_intros keeps_decision keeps_sendStoredResponse keeps_sendToClientIfValidationFailed)

lemma keeps_proxy: "keeps (proxy a env w r)"
  unfolding proxy_def Let_def by (intro keeps_intros keeps_ReverseProxy keeps_updateResposeAndLocations)

lemma keeps_serve_entries: "keeps (serve_entries a env w r ces)"
proof (induction ces arbitrary: w r)
  case Nil
  show ?case by (simp add: keeps_proxy)
next
  case (Cons ce ces)
  then show ?case by (auto intro!: keeps_intros keeps_reuseOrValidate)
qed

lemma keeps_ServeHTTP: "keeps (ServeHTTP a env w r)"
  unfolding ServeHTTP_def getResponsesForUri_def Let_def
  by (intro keeps_intros keeps_serve_entries)

lemma keeps_run_task: "keeps (run_task a env t)"
  unfolding run_task_def
  by (simp add: keeps_updateResposeAndLocations keeps_run_update split: task.splits)

end

text \<open>A relation that is reflexive and transitive holds across whole runs as well.\<close>

locale kept = effects +
  assumes refl: "R s s" and trans: "R s t \<Longrightarrow> R t u \<Longrightarrow> R s u"
begin

lemma keeps_result: "keeps m \<Longrightarrow> run m s = (x, s') \<Longrightarrow> R s s'"
proof (induction m arbitrary: s rule: act_induct)
  case (Step g)
  then show ?case unfolding keeps_Step run_Step by (blast intro: trans)
qed (simp add: refl)

end

section \<open>Interpretations\<close>

text \<open>Requests are only added to those that were sent.\<close>

interpretation sent: kept a "\<lambda>s s'. prefix (st_sent s) (st_sent s')" for a
  by unfold_locales (auto intro: prefix_order.trans)

text \<open>Goroutines are only added.\<close>

interpretation started: kept a "\<lambda>s s'. prefix (st_tasks s) (st_tasks s')" for a
  by unfold_locales (auto intro: prefix_order.trans)

text \<open>The count of events grows.\<close>

interpretation ticks: kept a "\<lambda>s s'. st_tick s \<le> st_tick s'" for a
  by unfold_locales simp_all

text \<open>Rows under keys of other origins stay.\<close>

definition own_key :: "AlwaysCache \<Rightarrow> string \<Rightarrow> bool" where
  "own_key a key \<longleftrightarrow> prefix (OriginId (ac_keyer a) @ '':'') key"

lemma own_GetKeyPrefix: "own_key a (GetKeyPrefix (ac_keyer a) r)"
  by (simp add: own_key_def GetKeyPrefix_eq)

lemma own_entry_key: "own_key a (entry_key a rw r)"
  using own_GetKeyPrefix [of a r]
  by (simp add: entry_key_def AddVaryKeys_def add_vary_lines_Join Join_prefix own_key_def)

interpretation others: kept a
  "\<lambda>s s'. \<forall>k. \<not> own_key a k \<longrightarrow> find_row (st_table s') k = find_row (st_table s) k" for a
proof unfold_locales
  fix ce :: CacheEntry and rw r s
  assume "ce_Key ce = entry_key a rw r"
  then have "own_key a (row_key (row_of_entry ce))" by (simp add: row_of_entry_def own_entry_key)
  then show "\<forall>k. \<not> own_key a k \<longrightarrow>
     find_row (st_table (s\<lparr>st_tick := Suc (st_tick s), st_table := replace_row (row_of_entry ce) (st_table s)\<rparr>)) k = find_row (st_table s) k"
    by (auto simp: find_row_replace)
next
  fix s r
  show "\<forall>k. \<not> own_key a k \<longrightarrow>
     find_row (st_table (s\<lparr>st_tick := Suc (st_tick s), st_table := filter (\<lambda>q. row_key q \<noteq> GetKeyPrefix (ac_keyer a) r) (st_table s)\<rparr>)) k
       = find_row (st_table s) k"
    using own_GetKeyPrefix [of a r] by (auto simp: find_row_filter)
qed auto

text \<open>One step changes what is stored under at most one key.\<close>

definition one_change :: "system \<Rightarrow> system \<Rightarrow> bool" where
  "one_change s s' \<longleftrightarrow> (\<exists>k. \<forall>k'. k' \<noteq> k \<longrightarrow> find_row (st_table s') k' = find_row (st_table s) k')"

lemma one_change_purge: "one_change s (s\<lparr>st_tick := n, st_table := filter (\<lambda>q. row_key q \<noteq> key) (st_table s)\<rparr>)"
  by (auto simp: one_change_def find_row_filter)

interpretation single: effects a one_change for a
  by unfold_locales (auto simp: one_change_def find_row_filter find_row_replace)

end
