(* ===== verification/ServerSafety.thy ===== *)
theory ServerSafety
  imports Server
begin

text \<open>
  What every run of the program keeps: each stored entry is the record of a response that
  \<^verbatim>\<open>MustNotStore\<close> allowed, under the key made for the request it answered.
\<close>

section \<open>The invariant\<close>

text \<open>
  A row is the record of an allowed response; a goroutine that is still to write a response holds
  a record too.
\<close>

definition stored_row :: "AlwaysCache \<Rightarrow> env \<Rightarrow> row \<Rightarrow> bool" where
  "stored_row a env row \<longleftrightarrow>
     (\<exists>rw r. origin_record env (ac_modifyResponse a) rw \<and> MustNotStore (saved_response rw r) = Inr False
        \<and> row_key row = entry_key a rw r \<and> row_bytes row = Response rw)"

definition recorded_task :: "AlwaysCache \<Rightarrow> env \<Rightarrow> task \<Rightarrow> bool" where
  "recorded_task a env t \<longleftrightarrow>
     (case t of UpdateResponse rw r \<Rightarrow> recorded env (ac_modifyResponse a) rw | DelayedUpdate u \<Rightarrow> True)"

lemma triple_sum [triples]:
  "(\<And>e. triple T K (f e) Q) \<Longrightarrow> (\<And>x. triple T K (g x) Q)
     \<Longrightarrow> triple T K (case y of Inl e \<Rightarrow> f e | Inr x \<Rightarrow> g x) Q"
  by (cases y) simp_all

lemma triple_decision [triples]:
  "(\<And>e. triple T K (f e) Q) \<Longrightarrow> (\<And>x v. triple T K (g x v) Q)
     \<Longrightarrow> triple T K (case y of ReuseErr e \<Rightarrow> f e | Reuse x v \<Rightarrow> g x v) Q"
  by (cases y) simp_all

lemma triple_writeCache:
  assumes "recorded env (ac_modifyResponse a) rw"
  shows "triple (stored_row a env) K (writeCache a env rw r) anything"
proof (cases "MustNotStore (saved_response rw r)")
  case (Inl err)
  then show ?thesis unfolding writeCache_def Let_def by (auto intro!: triples)
next
  case (Inr noStore)
  show ?thesis
  proof (cases noStore)
    case True
    with Inr show ?thesis unfolding writeCache_def Let_def by (auto intro!: triples)
  next
    case False
    have "rs_header rw \<noteq> []"
      using Inr by (auto simp: MustNotStore_def saved_response_def split: if_splits)
    with assms have "origin_record env (ac_modifyResponse a) rw" by (simp add: recorded_def)
    with Inr False have "stored_row a env (row_of_entry \<lparr>ce_Key = entry_key a rw r, ce_Expires = e,
        ce_RequestedAt = q, ce_ReceivedAt = n, ce_Bytes = Response rw\<rparr>)" for e q n
      by (auto simp: stored_row_def row_of_entry_def)
    with Inr False show ?thesis unfolding writeCache_def Let_def by (auto intro!: triples)
  qed
qed

lemma triple_saveRequest [triples]: "triple (stored_row a env) K (saveRequest a env req key) anything"
  unfolding saveRequest_def
  by (rule triple_then, rule triple_reads, rule triple_andThen, rule triple_ReverseProxy)
     (auto intro: triple_writeCache)

lemma triple_revalidateUris [triples]: "triple (stored_row a env) K (revalidateUris a env uris) anything"
  by (induction uris) (auto intro!: triples simp: Let_def)

lemma triple_invalidateUris [triples]: "triple T K (invalidateUris a env uris) anything"
  by (induction uris) (auto intro!: triples)

lemma triple_run_update [triples]: "triple (stored_row a env) K (run_update a env u) anything"
  unfolding run_update_def by (auto intro!: triples)

lemma triple_saveUpdates [triples]:
  "triple (stored_row a env) (recorded_task a env) (saveUpdates a env us) anything"
  by (induction us) (auto intro!: triples simp: recorded_task_def)

lemma triple_updateIfNeeded [triples]:
  "triple (stored_row a env) (recorded_task a env) (updateIfNeeded a env r res) anything"
  unfolding updateIfNeeded_def by (auto intro!: triples)

lemma triple_updateResposeAndLocations:
  "recorded env (ac_modifyResponse a) rw \<Longrightarrow> triple (stored_row a env) (recorded_task a env) (updateResposeAndLocations a env rw r) anything"
  unfolding updateResposeAndLocations_def by (auto intro!: triples triple_writeCache)

lemma triple_updateEntry [triples]: "triple (stored_row a env) K (updateEntry a env key) anything"
  unfolding updateEntry_def by (intro triples) (auto intro: triples)

lemma triple_updateCache_round: "triple (stored_row a env) K (updateCache_round a env) anything"
  unfolding updateCache_round_def by (intro triples) (auto intro: triples)

lemma triple_sendStoredResponse [triples]: "triple T K (sendStoredResponse env w res ce cs) anything"
  unfolding sendStoredResponse_def Let_def by (intro triples) simp

lemma triple_sendToClientIfValidationFailed [triples]:
  "triple T (recorded_task a env) (sendToClientIfValidationFailed a env w r v) anything"
  unfolding sendToClientIfValidationFailed_def
  by (rule triple_then, rule triple_reads, rule triple_andThen, rule triple_ReverseProxy)
     (auto intro!: triples simp: recorded_task_def)

lemma triple_reuseOrValidate [triples]: "triple T (recorded_task a env) (reuseOrValidate a env w r ce) anything"
  unfolding reuseOrValidate_def Let_def by (intro triples) auto

lemma triple_proxy [triples]: "triple (stored_row a env) (recorded_task a env) (proxy a env w r) anything"
  unfolding proxy_def Let_def
  by (rule triple_then, rule triple_reads, rule triple_andThen, rule triple_ReverseProxy)
     (auto intro!: triples triple_updateResposeAndLocations simp: recorded_task_def)

lemma triple_serve_entries [triples]:
  "triple (stored_row a env) (recorded_task a env) (serve_entries a env w r ces) anything"
proof (induction ces arbitrary: w r)
  case Nil
  then show ?case by (simp add: triples)
next
  case (Cons ce ces)
  then show ?case by (auto intro!: triples)
qed

lemma triple_ServeHTTP: "triple (stored_row a env) (recorded_task a env) (ServeHTTP a env w r) anything"
  unfolding ServeHTTP_def getResponsesForUri_def Let_def by (intro triples) simp

lemma triple_run_task:
  "recorded_task a env t \<Longrightarrow> triple (stored_row a env) (recorded_task a env) (run_task a env t) anything"
  unfolding run_task_def
  by (auto intro!: triple_updateResposeAndLocations triple_run_update simp: recorded_task_def
      split: task.splits)

end
