(* ===== verification/Handlers.thy ===== *)
theory Handlers
  imports Frame ServerSafety
begin

text \<open>
  Runs of the handler on a state: what the reverse proxy sends and returns, how a stored response is
  sent, and which runs answer a client without contacting the origin.
\<close>

section \<open>The reverse proxy on a state\<close>

definition outgoing :: "AlwaysCache \<Rightarrow> request \<Rightarrow> request" where
  "outgoing a r = (ac_director a r)\<lparr>req_header := forwarded_header (ac_director a r)\<rparr>"

definition plain_upgrade :: "AlwaysCache \<Rightarrow> request \<Rightarrow> bool" where
  "plain_upgrade a r \<longleftrightarrow> IsPrint (upgradeType (req_header (ac_director a r)))"

lemma ReverseProxy_reply:
  assumes "plain_upgrade a r"
    and "en_origin env (st_tick s) (outgoing a r) = Reply status h body whole" and "status \<noteq> 101"
    and "apply_modifier modify \<lparr>res_status = status, res_header = remove_hop_headers h,
           res_body = body, res_request = Some (outgoing a r)\<rparr> = Some res"
  shows "run (ReverseProxy_ServeHTTP env (ac_director a) modify in_server t w r) s =
     ((if \<not> whole \<and> in_server then Panic else Returns (after_reply t w res)),
      s\<lparr>st_tick := Suc (st_tick s), st_sent := st_sent s @ [outgoing a r]\<rparr>)"
  using assms unfolding outgoing_def
  by (simp add: ReverseProxy_ServeHTTP_def plain_upgrade_def Let_def send_reply_after run_simps)

lemma ReverseProxy_error:
  assumes "plain_upgrade a r" and "en_origin env (st_tick s) (outgoing a r) = RoundTripError"
  shows "run (ReverseProxy_ServeHTTP env (ac_director a) modify in_server t w r) s =
     (Returns (WriteHeader t w 502),
      s\<lparr>st_tick := Suc (st_tick s), st_sent := st_sent s @ [outgoing a r]\<rparr>)"
  using assms unfolding outgoing_def
  by (simp add: ReverseProxy_ServeHTTP_def plain_upgrade_def Let_def bad_gateway_def run_simps)

section \<open>Sending a stored response\<close>

text \<open>What the client has received when a stored response has been sent.\<close>

definition stored_answer ::
    "zones \<Rightarrow> time \<Rightarrow> client_writer \<Rightarrow> response \<Rightarrow> CacheEntry \<Rightarrow> cache_status \<Rightarrow> client_writer" where
  "stored_answer tz now w res ce cs =
     (let h = hdr_Add (copyHeader_server (cw_header w)
                  (res_header (AddAgeHeader tz now res (ce_ReceivedAt ce) (ce_RequestedAt ce))))
                ''Cache-Status'' (CacheStatus_String cs);
          w = cw_WriteHeader (w\<lparr>cw_header := h\<rparr>) (res_status res)
      in if res_body res = [] then w else cw_Write w (res_body res))"

lemma sendStoredResponse_answer:
  "sendStoredResponse env w res ce cs =
     andThen (time_Now env) (\<lambda>now. ret (stored_answer (en_zones env) now w res ce cs))"
  by (simp add: sendStoredResponse_def stored_answer_def Let_def AddAgeHeader_def cong: if_cong)

lemma sendStoredResponse_eq:
  "run (sendStoredResponse env w res ce cs) s =
     (Returns (stored_answer (en_zones env) (en_clock env (st_tick s)) w res ce cs),
      s\<lparr>st_tick := Suc (st_tick s)\<rparr>)"
  by (simp add: sendStoredResponse_answer run_simps)

lemma lift_Returns: "andThen (lift_result (Returns x)) f = f x"
  by (simp add: lift_result_def)

lemma time_Now_then:
  "run (andThen (time_Now env) f) s = run (f (en_clock env (st_tick s))) (s\<lparr>st_tick := Suc (st_tick s)\<rparr>)"
  by (simp add: run_simps)

lemma ret_then: "andThen (ret x) f = f x"
  by (simp add: ret_def)

text \<open>A stored response that may be reused is sent, and nothing else is done.\<close>

lemma reuse_direct:
  assumes "createStoredResponse a ce = Returns (Some res)"
    and "MustNotReuse (en_zones env) (en_clock env (st_tick s)) (en_clock env (Suc (st_tick s))) r
           (Some res) (ce_RequestedAt ce) (ce_ReceivedAt ce) = Returns (Reuse [] None)"
  shows "run (reuseOrValidate a env w r ce) s =
     run (andThen (sendStoredResponse env w res ce (Hit empty_status)) (\<lambda>w. ret ([], r, w)))
       (s\<lparr>st_tick := Suc (Suc (st_tick s))\<rparr>)"
  by (simp add: reuseOrValidate_def assms(1) lift_Returns time_Now_then assms(2) client_after_def
      Hit_def empty_status_def)

lemma sendStoredResponse_state:
  "run (sendStoredResponse env w res ce cs) s = (x, s') \<Longrightarrow> s' = s\<lparr>st_tick := Suc (st_tick s)\<rparr>"
  by (simp add: sendStoredResponse_eq)

section \<open>No answer without the origin, unless a stored one may be reused\<close>

text \<open>A director as \<^verbatim>\<open>createDirector\<close> makes it leaves the header alone.\<close>

definition keeps_header :: "AlwaysCache \<Rightarrow> bool" where
  "keeps_header a \<longleftrightarrow> (\<forall>q. req_header (ac_director a q) = req_header q)"

lemma keeps_header_CreateCache: "keeps_header (fst (CreateCache config))"
  by (simp add: keeps_header_def CreateCache_def createDirector_def Let_def)

lemma upgradeType_preconditions: "upgradeType (set_preconditions h res) = upgradeType h"
proof -
  have "canon_key ''Connection'' = ''Connection''" "canon_key ''Upgrade'' = ''Upgrade''" by code_simp+
  then show ?thesis
    by (simp add: upgradeType_def hdr_Get_def set_preconditions_values)
qed

lemma plain_upgrade_validation:
  assumes "keeps_header a" and "plain_upgrade a r" and "req_header v = set_preconditions (req_header r) res"
  shows "plain_upgrade a v"
  using assms by (simp add: plain_upgrade_def keeps_header_def upgradeType_preconditions)

text \<open>
  What an action returns if none of its steps sends a request, where the state satisfies \<open>P\<close>
  whenever the action makes a step.
\<close>

primrec silent :: "(system \<Rightarrow> bool) \<Rightarrow> 'a act \<Rightarrow> ('a \<Rightarrow> bool) \<Rightarrow> bool" where
  "silent P (Done r) Q \<longleftrightarrow> (\<forall>x. r = Returns x \<longrightarrow> Q x)"
| "silent P (Step g) Q \<longleftrightarrow>
     (\<forall>s. P s \<longrightarrow> st_sent (snd (g s)) = st_sent s \<longrightarrow> fst (map_prod (\<lambda>m. silent P m Q) id (g s)))"

named_theorems silents \<open>what actions return that send nothing\<close>

lemma silent_ret: "Q x \<Longrightarrow> silent P (ret x) Q"
  by (simp add: ret_def)

lemma silent_panic [silents]: "silent P panic Q"
  by (simp add: panic_def)

lemma silent_atomic:
  "(\<And>s x. P s \<Longrightarrow> fst (e s) = Returns x \<Longrightarrow> st_sent (snd (e s)) = st_sent s \<Longrightarrow> Q x) \<Longrightarrow> silent P (atomic e) Q"
  by (simp add: atomic_def)

lemma silent_andThen:
  "silent P m Q \<Longrightarrow> (\<And>x. Q x \<Longrightarrow> silent P (f x) R) \<Longrightarrow> silent P (andThen m f) R"
proof (induction m rule: act_induct)
  case (Done r)
  then show ?case by (cases r) simp_all
qed simp

lemma silent_weaken: "silent P m Q \<Longrightarrow> (\<And>x. Q x \<Longrightarrow> R x) \<Longrightarrow> silent P m R"
  by (induction m rule: act_induct) simp_all

lemma silent_lift_then:
  "(\<And>x. r = Returns x \<Longrightarrow> silent P (f x) Q) \<Longrightarrow> silent P (andThen (lift_result r) f) Q"
  by (cases r) (simp_all add: lift_result_def)

text \<open>A round trip sends a request.\<close>

lemma silent_round_trip: "silent P (round_trip env req) Q"
  unfolding round_trip_def by (rule silent_atomic) simp

lemma silent_round_trip_then [silents]: "silent P (andThen (round_trip env req) f) Q"
  by (rule silent_andThen [where Q = "\<lambda>_. False"]) (simp_all add: silent_round_trip)

text \<open>Readings of the clock are made from the time on that \<open>P\<close> tells.\<close>

lemma silent_time_Now:
  "(\<And>s. P s \<Longrightarrow> t0 \<le> st_tick s) \<Longrightarrow> silent P (time_Now env) (\<lambda>now. \<exists>n\<ge>t0. now = en_clock env n)"
  unfolding time_Now_def by (rule silent_atomic) auto

lemma silent_now_then: "(\<And>now. silent P (f now) Q) \<Longrightarrow> silent P (andThen (time_Now env) f) Q"
  by (rule silent_andThen [where Q = "\<lambda>_. True"]) (simp_all add: time_Now_def silent_atomic)

lemma silent_ReverseProxy:
  "plain_upgrade a r \<Longrightarrow> silent P (ReverseProxy_ServeHTTP env (ac_director a) modify in_server t w r) Q"
  by (simp add: ReverseProxy_ServeHTTP_def plain_upgrade_def Let_def silents)

lemma silent_ReverseProxy_then:
  "plain_upgrade a r \<Longrightarrow> silent P (andThen (ReverseProxy_ServeHTTP env (ac_director a) modify in_server t w r) f) Q"
  by (rule silent_andThen [where Q = "\<lambda>_. False"]) (simp_all add: silent_ReverseProxy)

lemma silent_proxy: "plain_upgrade a r \<Longrightarrow> silent P (proxy a env w r) Q"
  unfolding proxy_def Let_def by (intro silent_now_then silent_ReverseProxy_then)

lemma silent_validation_then:
  "plain_upgrade a v \<Longrightarrow> silent P (andThen (sendToClientIfValidationFailed a env w r v) f) Q"
  by (rule silent_andThen [where Q = "\<lambda>_. False"])
     (simp_all add: sendToClientIfValidationFailed_def silent_now_then silent_ReverseProxy_then)

text \<open>
  An entry is sent directly: it is read, may be reused, and the client gets it; the clock is read
  three times, not before \<open>t0\<close>.
\<close>

definition direct_hit ::
    "AlwaysCache \<Rightarrow> env \<Rightarrow> nat \<Rightarrow> client_writer \<Rightarrow> request \<Rightarrow> CacheEntry \<Rightarrow> client_writer \<Rightarrow> bool" where
  "direct_hit a env t0 w r ce w' \<longleftrightarrow>
     (\<exists>res nL nA n. t0 \<le> nL \<and> t0 \<le> nA \<and> t0 \<le> n \<and> createStoredResponse a ce = Returns (Some res)
        \<and> MustNotReuse (en_zones env) (en_clock env nL) (en_clock env nA) r
             (Some res) (ce_RequestedAt ce) (ce_ReceivedAt ce) = Returns (Reuse [] None)
        \<and> w' = stored_answer (en_zones env) (en_clock env n) w res ce (Hit empty_status))"

lemma silent_hit:
  assumes "\<And>s. P s \<Longrightarrow> t0 \<le> st_tick s" and "t0 \<le> nL" and "t0 \<le> nA"
    and "createStoredResponse a ce = Returns (Some stored)"
    and "MustNotReuse (en_zones env) (en_clock env nL) (en_clock env nA) r (Some stored)
           (ce_RequestedAt ce) (ce_ReceivedAt ce) = Returns (Reuse [] None)"
    and "\<And>w'. direct_hit a env t0 w r ce w' \<Longrightarrow> Q (reason, r, w')"
  shows "silent P (andThen (sendStoredResponse env w stored ce (Hit empty_status)) (\<lambda>w. ret (reason, r, w))) Q"
  unfolding sendStoredResponse_answer
proof (intro silent_andThen [where Q = "\<lambda>w'. direct_hit a env t0 w r ce w'"]
    silent_andThen [OF silent_time_Now [OF assms(1)]] silent_ret, assumption, elim exE conjE)
  show "direct_hit a env t0 w r ce (stored_answer (en_zones env) now w stored ce (Hit empty_status))"
    if "t0 \<le> n" "now = en_clock env n" for now n
    using assms(2-5) that unfolding direct_hit_def by blast
qed (rule assms(6))

lemma silent_reuseOrValidate:
  assumes "keeps_header a" and "plain_upgrade a r" and tick: "\<And>s. P s \<Longrightarrow> t0 \<le> st_tick s"
  shows "silent P (reuseOrValidate a env w r ce)
    (\<lambda>(reason, r', w'). (reason = [] \<and> direct_hit a env t0 w r ce w') \<or> (reason \<noteq> [] \<and> r' = r \<and> w' = w))"
proof (cases "createStoredResponse a ce")
  case Panic
  then show ?thesis by (simp add: reuseOrValidate_def lift_result_def)
next
  case (Returns res)
  define Q where "Q = (\<lambda>(reason :: FwdReason, r', w'). (reason = [] \<and> direct_hit a env t0 w r ce w')
    \<or> (reason \<noteq> [] \<and> r' = r \<and> w' = w))"
  have fwd: "cs_fwd_reason (Hit empty_status) = []" by (simp add: Hit_def empty_status_def)
  have "silent P (reuseOrValidate a env w r ce) Q"
    unfolding reuseOrValidate_def Returns lift_Returns Let_def fwd
  proof (intro silent_andThen [OF silent_time_Now [OF tick]] silent_lift_then, assumption, assumption,
      elim exE conjE, goal_cases)
    case m: (1 now1 now2 d n1 n2)
    obtain stored where r: "res = Some stored" using m by (cases res) (simp_all add: MustNotReuse_def)
    show ?case
    proof (cases d)
      case (ReuseErr e)
      then show ?thesis by (simp add: silent_ret fwd_reason_defs Q_def)
    next
      case (Reuse reason v)
      show ?thesis
      proof (cases v)
        case (Some vr)
        have "plain_upgrade a vr"
          using MustNotReuse_validation [of "en_zones env" _ _ r stored _ _ reason vr] m r Reuse Some
          by (intro plain_upgrade_validation [OF assms(1,2)]) auto
        with Reuse Some show ?thesis by (simp add: silent_validation_then)
      next
        case None
        have "silent P (andThen (sendStoredResponse env w stored ce (Hit empty_status)) (\<lambda>w. ret ([], r, w))) Q"
          if "reason = []"
          by (rule silent_hit [OF tick, where nL = n1 and nA = n2]) (use m Returns Reuse None r that in \<open>simp_all add: Q_def\<close>)
        with Reuse None r show ?thesis by (simp add: silent_ret client_after_def Q_def)
      qed
    qed
  qed
  then show ?thesis by (simp only: Q_def)
qed

lemma silent_serve_entries:
  assumes "keeps_header a" and "plain_upgrade a r" and "\<And>s. P s \<Longrightarrow> t0 \<le> st_tick s"
  shows "silent P (serve_entries a env w r ces) (\<lambda>w'. \<exists>ce. List.member ces ce \<and> direct_hit a env t0 w r ce w')"
proof (induction ces)
  case Nil
  show ?case by (simp add: silent_proxy [OF assms(2)])
next
  case (Cons ce ces)
  have "silent P (if reason = [] then ret w1 else serve_entries a env w1 r1 ces)
      (\<lambda>w'. \<exists>c. List.member (ce # ces) c \<and> direct_hit a env t0 w r c w')"
    if "(reason = [] \<and> direct_hit a env t0 w r ce w1) \<or> (reason \<noteq> [] \<and> r1 = r \<and> w1 = w)" for reason r1 w1
    using that by (auto intro!: silent_ret silent_weaken [OF Cons.IH])
  then show ?case
    by (auto intro!: silent_andThen [OF silent_reuseOrValidate [OF assms]])
qed

end
