(* ===== verification/Threads.thy ===== *)
theory Threads
  imports Handlers
begin

text \<open>
  The running program: handlers of client requests, goroutines and the update loop as threads that
  take turns at every effect.  What the program keeps in all interleavings is shown from the
  properties of single steps.
\<close>

section \<open>The machine\<close>

text \<open>
  A handler has a number: the count of events when its request arrived.  \<open>asked\<close> tells whether one of
  its steps has sent a request to the origin.
\<close>

datatype thread =
    Client request nat bool "client_writer act"
  | Routine "unit act"
  | Loop "unit act"

text \<open>An answer: the request, when it arrived, whether the origin was asked, and what was sent.\<close>

type_synonym answer = "request \<times> nat \<times> bool \<times> client_writer go_result"

record machine =
  mc_sys :: system
  mc_threads :: "thread list"
  mc_answers :: "answer list"

definition is_loop :: "thread \<Rightarrow> bool" where
  "is_loop t = (case t of Loop m \<Rightarrow> True | _ \<Rightarrow> False)"

text \<open>
  Where the process ends, by a panic outside a handler or from outside, the stored entries remain
  and everything else is gone; the next process opens the same table.
\<close>

definition restart :: "machine \<Rightarrow> machine" where
  "restart c = c\<lparr>mc_sys := (mc_sys c)\<lparr>st_tasks := []\<rparr>, mc_threads := []\<rparr>"

text \<open>
  The steps: a request arrives; a goroutine starts, at once or when its delay is over; the loop
  begins a round, one at a time; a thread makes a step or ends.  The server recovers a panic of
  a handler, any other panic ends the process.
\<close>

inductive machine_step :: "AlwaysCache \<Rightarrow> env \<Rightarrow> machine \<Rightarrow> machine \<Rightarrow> bool" for a env where
  arrive: "machine_step a env c (c\<lparr>mc_threads :=
     mc_threads c @ [Client r (st_tick (mc_sys c)) False (ServeHTTP a env new_client r)]\<rparr>)"
| begin_task: "st_tasks (mc_sys c) = ts @ t # us \<Longrightarrow> machine_step a env c
     (c\<lparr>mc_sys := (mc_sys c)\<lparr>st_tasks := ts @ us\<rparr>, mc_threads := mc_threads c @ [Routine (run_task a env t)]\<rparr>)"
| begin_round: "ac_updateTimeout a \<noteq> 0 \<Longrightarrow> \<not> list_ex is_loop (mc_threads c) \<Longrightarrow> machine_step a env c
     (c\<lparr>mc_threads := mc_threads c @ [Loop (updateCache_round a env)]\<rparr>)"
| client_step: "mc_threads c = ts @ Client r t0 asked (Step g) # us \<Longrightarrow> g (mc_sys c) = (m, s) \<Longrightarrow> machine_step a env c
     (c\<lparr>mc_sys := s,
        mc_threads := ts @ Client r t0 (asked \<or> st_sent s \<noteq> st_sent (mc_sys c)) m # us\<rparr>)"
| routine_step: "mc_threads c = ts @ Routine (Step g) # us \<Longrightarrow> g (mc_sys c) = (m, s) \<Longrightarrow> machine_step a env c
     (c\<lparr>mc_sys := s, mc_threads := ts @ Routine m # us\<rparr>)"
| loop_step: "mc_threads c = ts @ Loop (Step g) # us \<Longrightarrow> g (mc_sys c) = (m, s) \<Longrightarrow> machine_step a env c
     (c\<lparr>mc_sys := s, mc_threads := ts @ Loop m # us\<rparr>)"
| client_done: "mc_threads c = ts @ Client r t0 asked (Done result) # us \<Longrightarrow> machine_step a env c
     (c\<lparr>mc_threads := ts @ us, mc_answers := mc_answers c @ [(r, t0, asked, result)]\<rparr>)"
| routine_done: "mc_threads c = ts @ Routine (Done (Returns ())) # us \<Longrightarrow> machine_step a env c
     (c\<lparr>mc_threads := ts @ us\<rparr>)"
| loop_done: "mc_threads c = ts @ Loop (Done (Returns ())) # us \<Longrightarrow> machine_step a env c
     (c\<lparr>mc_threads := ts @ us\<rparr>)"
| crash: "t \<in> {Routine (Done Panic), Loop (Done Panic)} \<Longrightarrow> List.member (mc_threads c) t \<Longrightarrow> machine_step a env c (restart c)"
| kill: "machine_step a env c (restart c)"

inductive_cases machine_stepE: "machine_step a env c c'"

definition initial :: machine where
  "initial = \<lparr>mc_sys = start, mc_threads = [], mc_answers = []\<rparr>"

inductive reachable :: "AlwaysCache \<Rightarrow> env \<Rightarrow> machine \<Rightarrow> bool" for a env where
  init: "reachable a env initial"
| step: "reachable a env c \<Longrightarrow> machine_step a env c c' \<Longrightarrow> reachable a env c'"

section \<open>Uninterrupted runs\<close>

text \<open>A run of a handler that no other thread interrupts is a run of the machine.\<close>

inductive machine_steps :: "AlwaysCache \<Rightarrow> env \<Rightarrow> machine \<Rightarrow> machine \<Rightarrow> bool" for a env where
  stay: "machine_steps a env c c"
| more: "machine_step a env c c' \<Longrightarrow> machine_steps a env c' c'' \<Longrightarrow> machine_steps a env c c''"

lemma machine_steps_trans: "machine_steps a env c c' \<Longrightarrow> machine_steps a env c' c'' \<Longrightarrow> machine_steps a env c c''"
  by (induction rule: machine_steps.induct) (auto intro: more)

lemma reachable_steps: "machine_steps a env c c' \<Longrightarrow> reachable a env c \<Longrightarrow> reachable a env c'"
  by (induction rule: machine_steps.induct) (auto intro: reachable.step)

lemma run_routine:
  "mc_threads c = ts @ Routine m # us \<Longrightarrow> run m (mc_sys c) = (x, s) \<Longrightarrow>
     machine_steps a env c (c\<lparr>mc_sys := s, mc_threads := ts @ Routine (Done x) # us\<rparr>)"
proof (induction m arbitrary: c rule: act_induct)
  case (Done r)
  then have "c\<lparr>mc_sys := s, mc_threads := ts @ Routine (Done x) # us\<rparr> = c" by simp
  then show ?case by (simp add: stay)
next
  case (Step g)
  let ?c = "c\<lparr>mc_sys := snd (g (mc_sys c)), mc_threads := ts @ Routine (fst (g (mc_sys c))) # us\<rparr>"
  have "machine_step a env c ?c"
    using Step.prems(1) by (rule routine_step) simp
  moreover have "machine_steps a env ?c (?c\<lparr>mc_sys := s, mc_threads := ts @ Routine (Done x) # us\<rparr>)"
    using Step.prems(2) by (intro Step.IH) (simp_all add: run_Step del: run.simps)
  ultimately show ?case by (auto intro: more)
qed

lemma run_client:
  "mc_threads c = ts @ Client r t0 asked m # us \<Longrightarrow> run m (mc_sys c) = (x, s) \<Longrightarrow> sent.keeps m \<Longrightarrow>
     machine_steps a env c (c\<lparr>mc_sys := s,
       mc_threads := ts @ Client r t0 (asked \<or> st_sent s \<noteq> st_sent (mc_sys c)) (Done x) # us\<rparr>)"
proof (induction m arbitrary: c asked rule: act_induct)
  case (Done q)
  then have "c\<lparr>mc_sys := s, mc_threads := ts @ Client r t0 (asked \<or> st_sent s \<noteq> st_sent (mc_sys c)) (Done x) # us\<rparr> = c"
    by simp
  then show ?case by (simp add: stay)
next
  case (Step g)
  let ?s = "snd (g (mc_sys c))" and ?m = "fst (g (mc_sys c))"
  let ?b = "asked \<or> st_sent ?s \<noteq> st_sent (mc_sys c)"
  let ?c = "c\<lparr>mc_sys := ?s, mc_threads := ts @ Client r t0 ?b ?m # us\<rparr>"
  have k: "prefix (st_sent (mc_sys c)) (st_sent ?s)" "sent.keeps ?m"
    using Step.prems(3) unfolding sent.keeps_Step by blast+
  have r: "run ?m ?s = (x, s)" using Step.prems(2) by (simp add: run_Step del: run.simps)
  have "prefix (st_sent ?s) (st_sent s)" by (rule sent.keeps_result [OF k(2) r])
  with k(1) have b: "(?b \<or> st_sent s \<noteq> st_sent ?s) = (asked \<or> st_sent s \<noteq> st_sent (mc_sys c))"
    by (metis prefix_order.antisym)
  have "machine_step a env c ?c"
    using Step.prems(1) by (rule client_step) simp
  moreover have "machine_steps a env ?c (?c\<lparr>mc_sys := s,
      mc_threads := ts @ Client r t0 (?b \<or> st_sent s \<noteq> st_sent (mc_sys ?c)) (Done x) # us\<rparr>)"
    using k(2) r by (intro Step.IH) simp_all
  then have "machine_steps a env ?c (c\<lparr>mc_sys := s,
      mc_threads := ts @ Client r t0 (asked \<or> st_sent s \<noteq> st_sent (mc_sys c)) (Done x) # us\<rparr>)"
    using b by simp
  ultimately show ?case by (rule more)
qed

text \<open>
  In any state of the machine, each running handler can be continued to its answer: none of its steps
  waits for another thread.
\<close>

lemma handler_can_answer:
  "mc_threads c = ts @ Client r t0 asked m # us \<Longrightarrow> \<exists>s asked' x. machine_steps a env c
     (c\<lparr>mc_sys := s, mc_threads := ts @ us, mc_answers := mc_answers c @ [(r, t0, asked', x)]\<rparr>)"
proof (induction m arbitrary: c asked rule: act_induct)
  case (Done x)
  have "machine_step a env c (c\<lparr>mc_threads := ts @ us, mc_answers := mc_answers c @ [(r, t0, asked, x)]\<rparr>)"
    using Done by (rule client_done)
  then have "machine_steps a env c
      (c\<lparr>mc_sys := mc_sys c, mc_threads := ts @ us, mc_answers := mc_answers c @ [(r, t0, asked, x)]\<rparr>)"
    by (auto intro: more stay)
  then show ?case by blast
next
  case (Step g)
  let ?s = "snd (g (mc_sys c))"
  let ?c = "c\<lparr>mc_sys := ?s,
    mc_threads := ts @ Client r t0 (asked \<or> st_sent ?s \<noteq> st_sent (mc_sys c)) (fst (g (mc_sys c))) # us\<rparr>"
  have "machine_step a env c ?c"
    using Step.prems by (rule client_step) simp
  moreover obtain s asked' x where "machine_steps a env ?c
      (?c\<lparr>mc_sys := s, mc_threads := ts @ us, mc_answers := mc_answers ?c @ [(r, t0, asked', x)]\<rparr>)"
    using Step.IH [where c = ?c] by fastforce
  ultimately have "machine_steps a env c
      (c\<lparr>mc_sys := s, mc_threads := ts @ us, mc_answers := mc_answers c @ [(r, t0, asked', x)]\<rparr>)"
    using more by fastforce
  then show ?case by blast
qed

section \<open>Whole runs of threads\<close>

text \<open>A handler, or a goroutine, that is not interrupted from its start to its end.\<close>

lemma serve_uninterrupted:
  assumes "reachable a env c" and "run (ServeHTTP a env new_client r) (mc_sys c) = (x, s)"
  shows "reachable a env (c\<lparr>mc_sys := s,
     mc_answers := mc_answers c @ [(r, st_tick (mc_sys c), st_sent s \<noteq> st_sent (mc_sys c), x)]\<rparr>)"
proof -
  let ?asked = "st_sent s \<noteq> st_sent (mc_sys c)" and ?m = "ServeHTTP a env new_client r"
  let ?c = "c\<lparr>mc_threads := mc_threads c @ [Client r (st_tick (mc_sys c)) False ?m]\<rparr>"
  let ?d = "c\<lparr>mc_sys := s, mc_threads := mc_threads c @ Client r (st_tick (mc_sys c)) ?asked (Done x) # []\<rparr>"
  have "reachable a env ?c" using assms(1) arrive by (rule reachable.step)
  moreover have "machine_steps a env ?c ?d"
    using run_client [of ?c "mc_threads c" r "st_tick (mc_sys c)" False ?m "[]" x s] assms(2) sent.keeps_ServeHTTP
    by simp
  ultimately have "reachable a env ?d" using reachable_steps by blast
  moreover have "machine_step a env ?d (?d\<lparr>mc_threads := mc_threads c @ [],
      mc_answers := mc_answers ?d @ [(r, st_tick (mc_sys c), ?asked, x)]\<rparr>)"
    by (rule client_done) simp
  ultimately have "reachable a env (?d\<lparr>mc_threads := mc_threads c @ [],
      mc_answers := mc_answers ?d @ [(r, st_tick (mc_sys c), ?asked, x)]\<rparr>)"
    by (rule reachable.step)
  then show ?thesis by simp
qed

lemma task_uninterrupted:
  assumes "reachable a env c" and "st_tasks (mc_sys c) = ts @ t # us"
    and "run (run_task a env t) ((mc_sys c)\<lparr>st_tasks := ts @ us\<rparr>) = (Returns x, s)"
  shows "reachable a env (c\<lparr>mc_sys := s\<rparr>)"
proof -
  let ?c = "c\<lparr>mc_sys := (mc_sys c)\<lparr>st_tasks := ts @ us\<rparr>, mc_threads := mc_threads c @ [Routine (run_task a env t)]\<rparr>"
  let ?d = "?c\<lparr>mc_sys := s, mc_threads := mc_threads c @ Routine (Done (Returns x)) # []\<rparr>"
  have "reachable a env ?c" using assms(1) begin_task [OF assms(2)] by (rule reachable.step)
  moreover have "machine_steps a env ?c ?d"
    using assms(3) by (intro run_routine) simp_all
  ultimately have "reachable a env ?d" using reachable_steps by blast
  moreover have "machine_step a env ?d (?d\<lparr>mc_threads := mc_threads c @ []\<rparr>)"
    by (rule routine_done) simp
  ultimately have "reachable a env (?d\<lparr>mc_threads := mc_threads c @ []\<rparr>)" by (rule reachable.step)
  then show ?thesis by simp
qed

end
