(* ===== verification/Interleaving.thy ===== *)
theory Interleaving
  imports Threads
begin

text \<open>
  The invariant of the machine: the table and the goroutines are as ServerSafety says, every thread
  will keep this in all its further steps, and a handler that has not asked the origin will, if it
  never does, send a stored response that may be reused.
\<close>

section \<open>What a handler answers without the origin\<close>

definition modified :: "AlwaysCache \<Rightarrow> request \<Rightarrow> request" where
  "modified a r = (case ac_modifyRequest a of None \<Rightarrow> r | Some f \<Rightarrow> f r)"

definition from_store :: "AlwaysCache \<Rightarrow> env \<Rightarrow> request \<Rightarrow> nat \<Rightarrow> client_writer \<Rightarrow> bool" where
  "from_store a env r t0 w \<longleftrightarrow>
     (\<exists>row. stored_row a env row \<and> direct_hit a env t0 new_client (modified a r) (entry_of_row row) w)"

text \<open>The state at each step of a handler that started at the event \<open>t0\<close>.\<close>

definition safe_since :: "AlwaysCache \<Rightarrow> env \<Rightarrow> nat \<Rightarrow> system \<Rightarrow> bool" where
  "safe_since a env t0 s \<longleftrightarrow> holds (stored_row a env) (recorded_task a env) s \<and> t0 \<le> st_tick s"

lemma silent_All:
  assumes "sqlite_laws (en_engine env)"
  shows "silent (safe_since a env t0) (cache_All env p)
    (\<lambda>(entries, err). list_all (\<lambda>ce. \<exists>r. stored_row a env r \<and> ce = entry_of_row r) entries)"
  unfolding cache_All_def
proof (rule silent_atomic)
  fix s x
  assume "safe_since a env t0 s"
    and x: "fst (Returns (All (en_engine env) (en_fault env (st_tick s)) (st_table s) p), s\<lparr>st_tick := Suc (st_tick s)\<rparr>) = Returns x"
  then have "wf_table (st_table s)" "list_all (stored_row a env) (st_table s)"
    by (simp_all add: safe_since_def holds_def)
  with x show "case x of (entries, err) \<Rightarrow> list_all (\<lambda>ce. \<exists>r. stored_row a env r \<and> ce = entry_of_row r) entries"
    using All_rows [OF assms] by (auto simp: case_prod_unfold)
qed

lemma silent_ServeHTTP:
  assumes "sqlite_laws (en_engine env)" and "keeps_header a" and "plain_upgrade a (modified a r)"
  shows "silent (safe_since a env t0) (ServeHTTP a env new_client r) (from_store a env r t0)"
proof -
  have "silent (safe_since a env t0) (serve_entries a env new_client (modified a r) es) (from_store a env r t0)"
    if "list_all (\<lambda>ce. \<exists>r. stored_row a env r \<and> ce = entry_of_row r) es" for es
    using that
    by (intro silent_weaken [OF silent_serve_entries [OF assms(2,3)]])
       (auto simp: safe_since_def from_store_def list_all_iff)
  then show ?thesis
    unfolding ServeHTTP_def getResponsesForUri_def Let_def modified_def [symmetric]
    by (intro silent_andThen [OF silent_andThen [OF silent_All [OF assms(1)]]])
       (auto intro!: silent_ret split: if_splits)
qed

section \<open>The invariant\<close>

text \<open>The requests for which the proxy sends something, and no other switch of protocols is asked for.\<close>

definition forwards :: "AlwaysCache \<Rightarrow> env \<Rightarrow> request \<Rightarrow> bool" where
  "forwards a env r \<longleftrightarrow> sqlite_laws (en_engine env) \<and> keeps_header a \<and> plain_upgrade a (modified a r)"

definition safe_act :: "AlwaysCache \<Rightarrow> env \<Rightarrow> 'a act \<Rightarrow> bool" where
  "safe_act a env m \<longleftrightarrow>
     triple (stored_row a env) (recorded_task a env) m anything \<and> ticks.keeps m \<and> single.keeps m"

fun safe_thread :: "AlwaysCache \<Rightarrow> env \<Rightarrow> nat \<Rightarrow> thread \<Rightarrow> bool" where
  "safe_thread a env now (Client r t0 asked m) \<longleftrightarrow>
     safe_act a env m \<and> t0 \<le> now
     \<and> (\<not> asked \<longrightarrow> forwards a env r \<longrightarrow> silent (safe_since a env t0) m (from_store a env r t0))"
| "safe_thread a env now (Routine m) \<longleftrightarrow> safe_act a env m"
| "safe_thread a env now (Loop m) \<longleftrightarrow> safe_act a env m"

definition safe_answer :: "AlwaysCache \<Rightarrow> env \<Rightarrow> answer \<Rightarrow> bool" where
  "safe_answer a env x =
     (case x of (r, t0, asked, result) \<Rightarrow>
        \<not> asked \<longrightarrow> forwards a env r \<longrightarrow> (\<forall>w. result = Returns w \<longrightarrow> from_store a env r t0 w))"

definition safe_machine :: "AlwaysCache \<Rightarrow> env \<Rightarrow> machine \<Rightarrow> bool" where
  "safe_machine a env c \<longleftrightarrow>
     holds (stored_row a env) (recorded_task a env) (mc_sys c)
     \<and> list_all (safe_thread a env (st_tick (mc_sys c))) (mc_threads c)
     \<and> list_all (safe_answer a env) (mc_answers c)"

text \<open>A step of a safe action keeps the state safe and leaves a safe action.\<close>

lemma safe_act_step:
  assumes "safe_act a env (Step g)" and "holds (stored_row a env) (recorded_task a env) s" and "g s = (m, s')"
  shows "safe_act a env m \<and> holds (stored_row a env) (recorded_task a env) s' \<and> st_tick s \<le> st_tick s'
     \<and> one_change s s'"
  using assms unfolding safe_act_def triple_Step ticks.keeps_Step single.keeps_Step by (metis fst_conv snd_conv)

lemma silent_step:
  assumes "silent P (Step g) Q" and "P s" and "g s = (m, s')" and "st_sent s' = st_sent s"
  shows "silent P m Q"
  using assms by (auto dest!: spec [of _ s])

lemma safe_thread_later: "safe_thread a env n t \<Longrightarrow> n \<le> n' \<Longrightarrow> safe_thread a env n' t"
  by (cases t) auto

lemma safe_threads_later:
  "list_all (safe_thread a env n) ts \<Longrightarrow> n \<le> n' \<Longrightarrow> list_all (safe_thread a env n') ts"
  by (auto simp: list_all_iff safe_thread_later)

lemma safe_client_step:
  assumes "safe_thread a env (st_tick s) (Client r t0 asked (Step g))"
    and "holds (stored_row a env) (recorded_task a env) s" and "g s = (m, s')"
  shows "safe_thread a env (st_tick s') (Client r t0 (asked \<or> st_sent s' \<noteq> st_sent s) m)
     \<and> holds (stored_row a env) (recorded_task a env) s' \<and> st_tick s \<le> st_tick s'"
proof -
  have st: "safe_act a env m" "holds (stored_row a env) (recorded_task a env) s'" "st_tick s \<le> st_tick s'"
    using safe_act_step [of a env g s m s'] assms by auto
  have "silent (safe_since a env t0) m (from_store a env r t0)"
    if "\<not> asked" "st_sent s' = st_sent s" "forwards a env r"
    using assms that by (intro silent_step [of "safe_since a env t0" g _ s m s']) (auto simp: safe_since_def)
  with st assms(1) show ?thesis by auto
qed

text \<open>The actions that threads start with.\<close>

lemma safe_start_client: "safe_thread a env n (Client r n False (ServeHTTP a env new_client r))"
  by (simp add: safe_act_def triple_ServeHTTP ticks.keeps_ServeHTTP single.keeps_ServeHTTP forwards_def silent_ServeHTTP)

lemma safe_start_task: "recorded_task a env t \<Longrightarrow> safe_act a env (run_task a env t)"
  by (simp add: safe_act_def triple_run_task ticks.keeps_run_task single.keeps_run_task)

lemma safe_start_round: "safe_act a env (updateCache_round a env)"
  by (simp add: safe_act_def triple_updateCache_round ticks.keeps_updateCache_round
      single.keeps_updateCache_round one_change_purge)

lemma safe_restart: "safe_machine a env c \<Longrightarrow> safe_machine a env (restart c)"
  by (simp add: safe_machine_def restart_def holds_def)

lemma safe_step: "machine_step a env c c' \<Longrightarrow> safe_machine a env c \<Longrightarrow> safe_machine a env c'"
proof (induction rule: machine_step.induct)
  case (arrive c r)
  then show ?case by (simp add: safe_machine_def safe_start_client del: safe_thread.simps)
next
  case (begin_task c ts t us)
  then show ?case by (simp add: safe_machine_def safe_start_task holds_def)
next
  case (begin_round c)
  then show ?case by (simp add: safe_machine_def safe_start_round)
next
  case (client_step c ts r t0 asked g us m s)
  then show ?case
    using safe_client_step [of a env "mc_sys c" r t0 asked g m s]
    by (auto simp: safe_machine_def safe_threads_later simp del: safe_thread.simps)
next
  case (routine_step c ts g us m s)
  then show ?case
    using safe_act_step [of a env g "mc_sys c" m s] by (auto simp: safe_machine_def safe_threads_later)
next
  case (loop_step c ts g us m s)
  then show ?case
    using safe_act_step [of a env g "mc_sys c" m s] by (auto simp: safe_machine_def safe_threads_later)
next
  case (client_done c ts r t0 asked result us)
  then show ?case by (auto simp: safe_machine_def safe_answer_def)
qed (simp_all add: safe_machine_def safe_restart [unfolded safe_machine_def])

lemma reachable_safe: "reachable a env c \<Longrightarrow> safe_machine a env c"
proof (induction rule: reachable.induct)
  case init
  show ?case by (simp add: safe_machine_def initial_def start_def holds_def wf_table_def)
next
  case (step c c')
  then show ?case using safe_step by blast
qed

end
