(* ===== verification/Correctness.thy ===== *)
theory Correctness
  imports Interleaving
begin

text \<open>
  What the whole server promises: what is in the store, what a client is sent from it, and when.
\<close>

section \<open>An example\<close>

definition demo_origin :: "nat \<Rightarrow> request \<Rightarrow> origin_reply" where
  "demo_origin n req = Reply 200 [(''Date'', [''Sun, 06 Nov 1994 08:49:37 GMT'']),
       (''Cache-Control'', [''max-age=60''])] ''hello'' True"

definition demo_env :: "(nat \<Rightarrow> request \<Rightarrow> origin_reply) \<Rightarrow> env" where
  "demo_env origin = \<lparr>en_engine = sqlite, en_zones = utc_zones, en_clock = (\<lambda>n. 784111777000000000),
     en_origin = origin, en_fault = (\<lambda>n. None)\<rparr>"

definition demo_cache :: "bool \<Rightarrow> AlwaysCache" where
  "demo_cache legacy = fst (CreateCache
     \<lparr>cfg_OriginURL = empty_url\<lparr>u_scheme := ''http'', u_host := ''o''\<rparr>, cfg_OriginHost = [],
      cfg_RequestModifier = None, cfg_ResponseModifier = None, cfg_DisableUpdates = legacy\<rparr>)"

definition demo_request :: "string \<Rightarrow> header \<Rightarrow> request" where
  "demo_request method h = \<lparr>req_method = method, req_url = empty_url\<lparr>u_path := ''/a''\<rparr>,
     req_header = h, req_host = ''c'', req_body = [], req_remote = ''1.2.3.4:5''\<rparr>"

definition demo_served :: system where
  "demo_served = snd (run (ServeHTTP (demo_cache False) (demo_env demo_origin) new_client
     (demo_request ''GET'' [])) start)"

definition demo_stored :: "unit go_result \<times> system" where
  "demo_stored = run (run_task (demo_cache False) (demo_env demo_origin) (hd (st_tasks demo_served)))
     (demo_served\<lparr>st_tasks := []\<rparr>)"

lemma demo_run: "length (st_tasks demo_served) = 1 \<and> fst demo_stored = Returns ()
   \<and> map row_key (st_table (snd demo_stored)) = [''http://o:GET:/a'' @ [CHR 0x09]]"
  by code_simp

text \<open>The request is served and its goroutine runs, one after the other.\<close>

lemma demo_reachable: "\<exists>answers. reachable (demo_cache False) (demo_env demo_origin)
    \<lparr>mc_sys = snd demo_stored, mc_threads = [], mc_answers = answers\<rparr>"
proof -
  let ?a = "demo_cache False" and ?env = "demo_env demo_origin" and ?r = "demo_request ''GET'' []"
  obtain x where x: "run (ServeHTTP ?a ?env new_client ?r) start = (x, demo_served)"
    unfolding demo_served_def by (metis prod.collapse)
  have "run (ServeHTTP ?a ?env new_client ?r) (mc_sys initial) = (x, demo_served)"
    using x by (simp add: initial_def)
  then obtain answers where "reachable ?a ?env \<lparr>mc_sys = demo_served, mc_threads = [], mc_answers = answers\<rparr>"
    using serve_uninterrupted [OF reachable.init] by (fastforce simp: initial_def)
  moreover obtain t where t: "st_tasks demo_served = [] @ t # []"
    using demo_run by (cases "st_tasks demo_served") auto
  moreover have "run (run_task ?a ?env t) (demo_served\<lparr>st_tasks := [] @ []\<rparr>) = (Returns (), snd demo_stored)"
    using t demo_run by (cases demo_stored) (simp add: demo_stored_def)
  ultimately have "reachable ?a ?env (\<lparr>mc_sys = demo_served, mc_threads = [], mc_answers = answers\<rparr>\<lparr>mc_sys := snd demo_stored\<rparr>)"
    by (intro task_uninterrupted [where ts = "[]" and t = t and us = "[]"]) simp_all
  then show ?thesis by auto
qed

section \<open>What is stored\<close>



text \<open>C21. In every reachable state the table holds each key once and no column of a row is missing, so that a
  query that the database answers reads every matching row, without an error of its own.\<close>

theorem reachable_table_typed:
  assumes "reachable a env c" and "sqlite_laws eng"
  shows "distinct (map row_key (st_table (mc_sys c)))
     \<and> All eng None (st_table (mc_sys c)) p = (map entry_of_row (like_rows eng (st_table (mc_sys c)) p), None)"
proof -
  have "wf_table (st_table (mc_sys c))"
    using reachable_safe [OF assms(1)] by (simp add: safe_machine_def holds_def)
  then show ?thesis using All_timed [OF assms(2)] by (simp add: wf_table_def)
qed

theorem reachable_table_typed_witness:
  "snd (All sqlite None (st_table (snd demo_stored)) ''http://o:'') = None"
proof -
  obtain answers where "reachable (demo_cache False) (demo_env demo_origin)
      \<lparr>mc_sys = snd demo_stored, mc_threads = [], mc_answers = answers\<rparr>"
    using demo_reachable by blast
  from reachable_table_typed [OF this sqlite_laws_sqlite] show ?thesis by simp
qed

section \<open>What is sent from the store\<close>


definition demo_again :: "client_writer go_result \<times> system" where
  "demo_again = run (ServeHTTP (demo_cache False) (demo_env demo_origin) new_client
     (demo_request ''GET'' [])) (snd demo_stored)"

lemma demo_hit: "(case demo_again of (Returns w, s) \<Rightarrow> cw_body w = ''hello'' \<and> st_sent s = st_sent (snd demo_stored) | _ \<Rightarrow> False)"
  by code_simp

lemma demo_env_simps:
  "sqlite_laws (en_engine (demo_env origin))" "en_fault (demo_env origin) n = None"
  by (simp_all add: demo_env_def sqlite_laws_sqlite)

lemma keeps_header_demo: "keeps_header (demo_cache legacy)"
  unfolding demo_cache_def by (rule keeps_header_CreateCache)


end
