(* ===== verification/WriteAndReuse.thy ===== *)
theory WriteAndReuse
  imports Correctness
begin

text \<open>
  From the response of the origin to the next client: what \<^verbatim>\<open>writeCache\<close> puts into the store, how the
  entry is read back, and that it answers a later request.
\<close>

section \<open>Writing an entry and using it\<close>

definition new_entry :: "AlwaysCache \<Rightarrow> env \<Rightarrow> ResponseSaver \<Rightarrow> request \<Rightarrow> system \<Rightarrow> CacheEntry" where
  "new_entry a env rw r s =
     \<lparr>ce_Key = entry_key a rw r,
      ce_Expires = GetExpiration (en_zones env) (en_clock env (st_tick s))
        (en_clock env (st_tick s + 1)) (saved_response rw r),
      ce_RequestedAt = rs_CreatedAt rw, ce_ReceivedAt = en_clock env (st_tick s + 2),
      ce_Bytes = Response rw\<rparr>"

lemma writeCache_stores:
  assumes "MustNotStore (saved_response rw r) = Inr False" and "en_fault env (st_tick s + 3) = None"
  shows "run (writeCache a env rw r) s =
     (Returns (True, None), s\<lparr>st_tick := st_tick s + 4,
        st_table := replace_row (row_of_entry (new_entry a env rw r s)) (st_table s)\<rparr>)"
proof -
  have "en_fault env (Suc (Suc (Suc (st_tick s)))) = None" using assms(2) by (simp add: numeral_3_eq_3)
  moreover have "st_tick s + 4 = Suc (Suc (Suc (Suc (st_tick s))))" by simp
  ultimately show ?thesis
    using assms(1) by (simp add: writeCache_def run_simps PutCE_def Let_def
        new_entry_def)
qed

lemma writeCache_refuses:
  "MustNotStore (saved_response rw r) \<noteq> Inr False \<Longrightarrow> \<exists>err. run (writeCache a env rw r) s = (Returns (False, err), s)"
  by (auto simp: writeCache_def run_simps Let_def split: sum.splits)

section \<open>Reading an entry back\<close>

lemma same_values_cc: "(\<And>n. hdr_Values (res_header x) n = hdr_Values (res_header y) n) \<Longrightarrow> response_cc x = response_cc y"
  by (simp add: response_cc_def)

lemma same_values_fresh:
  assumes "\<And>n. hdr_Values (res_header x) n = hdr_Values (res_header y) n"
  shows "isFresh tz nowL nowA x rt qt = isFresh tz nowL nowA y rt qt"
proof -
  have g: "hdr_Get (res_header x) n = hdr_Get (res_header y) n" for n
    by (simp add: hdr_Get_def assms)
  have "freshness_lifetime tz nowL x = freshness_lifetime tz nowL y"
    unfolding freshness_lifetime_def getExpires_def g same_values_cc [OF assms] by (rule refl)
  moreover have "age_value x = age_value y" unfolding age_value_def getAge_def g by (rule refl)
  moreover have "date_value tz x = date_value tz y" unfolding date_value_def g by (rule refl)
  ultimately show ?thesis
    by (simp add: isFresh_def current_age_def corrected_initial_age_def apparent_age_def
        corrected_age_value_def)
qed

lemma same_values_may_reuse:
  assumes "\<And>n. hdr_Values (res_header x) n = hdr_Values (res_header y) n"
  shows "may_reuse tz nowL nowA req x orig qt rt = may_reuse tz nowL nowA req y orig qt rt"
  using same_values_fresh [OF assms] same_values_cc [OF assms] assms
  by (simp add: may_reuse_def headerFieldsMatch_def GetListHeader_def)


text \<open>A record of a response as it comes from the wire: header values that are already clean.\<close>

definition clean_record :: "ResponseSaver \<Rightarrow> request \<Rightarrow> string \<Rightarrow> bool" where
  "clean_record rw r body \<longleftrightarrow>
     rs_b rw = status_line (rs_status rw) @ header_Write (rs_header rw) @ LF # body
     \<and> wire_header (rs_header rw) \<and> clean_header (rs_header rw) = rs_header rw
     \<and> 100 \<le> rs_status rw \<and> rs_status rw \<le> 999
     \<and> announced (req_method r) (rs_status rw) (rs_header rw) body
     \<and> wf_vary (GetListHeader (rs_header rw) ''Vary'')
     \<and> \<not> List.member (GetListHeader (rs_header rw) ''Vary'') ''*''"

lemma record_reads_back:
  assumes "clean_record rw r body" and "req_method req = req_method r"
  shows "\<exists>res. ReadResponse (Response rw) req = Some res \<and> res_status res = rs_status rw
     \<and> res_body res = body \<and> res_request res = Some req
     \<and> (\<forall>name. hdr_Values (res_header res) name = hdr_Values (fixPragmaCacheControl (rs_header rw)) name)"
proof -
  let ?t = "(NewResponseSaver False [] 0)\<lparr>rs_header := rs_header rw\<rparr>"
  obtain t1 w1 where a: "WriteHeader ?t new_client (rs_status rw) = (t1, w1)"
    by (cases "WriteHeader ?t new_client (rs_status rw)")
  obtain t2 w2 where b: "saver_Writes t1 w1 [body] = (t2, w2)"
    by (cases "saver_Writes t1 w1 [body]")
  have "rs_wroteHeaders t1" "rs_b t1 = status_line (rs_status rw) @ header_Write (rs_header rw) @ [LF]"
    using WriteHeader_wrote [of ?t new_client "rs_status rw"] unfolding a fst_conv
    by (simp_all add: NewResponseSaver_def)
  then have "Response t2 = Response rw"
    using saver_Writes_buffer [of t1 w1 "[body]"] assms(1) unfolding b
    by (simp add: Response_def clean_record_def)
  then show ?thesis
    using saved_reads_back [of "rs_header rw" "rs_status rw" req "[body]" False "[]" 0 new_client t1 w1 t2 w2]
      a b assms by (simp add: clean_record_def)
qed


text \<open>The body of a request counts neither for the key nor for the decision to reuse.\<close>

lemma request_body_ignored:
  "GetKeyPrefix c (r\<lparr>req_body := b\<rparr>) = GetKeyPrefix c r"
  "may_reuse tz nowL nowA (r\<lparr>req_body := b\<rparr>) res orig qt rt = may_reuse tz nowL nowA r res orig qt rt"
  by (simp_all add: GetKeyPrefix_eq may_reuse_def headerFieldsMatch_iff UnsafeRequest_def)

section \<open>The header that a client receives\<close>

definition forwarded_field :: "string \<Rightarrow> bool" where
  "forwarded_field k \<longleftrightarrow> k = ''X-Forwarded-For'' \<or> k = ''X-Forwarded-Proto'' \<or> k = ''X-Forwarded-Host''"

lemma hdr_Values_copyHeader_server:
  assumes "wf_header src"
  shows "hdr_Values (copyHeader_server dst src) name =
     hdr_Values dst name @ (if forwarded_field (canon_key name) then [] else hdr_Values src name)"
proof -
  have "hdr_Values (copyHeader_server dst src) name = hdr_Values dst name @
      (if forwarded_field (canon_key name) then []
       else case map_of src (canon_key name) of None \<Rightarrow> [] | Some vs \<Rightarrow> vs)"
    if "distinct (map fst src)" "list_all (\<lambda>(k, vs). canon_key k = k) src" for dst src
    using that
  proof (induction src arbitrary: dst)
    case (Cons p src)
    obtain k vs where p: "p = (k, vs)" by (cases p)
    have "canon_key name = k \<Longrightarrow> map_of src k = None"
      using Cons.prems(1) by (simp add: p map_of_eq_None_iff)
    with Cons p show ?case
      by (auto simp: copyHeader_server_def hdr.vals_adds_list forwarded_field_def)
  qed (simp add: copyHeader_server_def)
  moreover from assms have "distinct (map fst src)" "list_all (\<lambda>(k, vs). canon_key k = k) src"
    by (auto simp: wf_header_def list_all_iff)
  ultimately show ?thesis by (simp add: hdr_Values_def [of src])
qed

lemma canon_sent_names:
  "canon_key ''Age'' = ''Age''" "canon_key ''Cache-Status'' = ''Cache-Status''"
  by code_simp+

text \<open>What a new client receives from \<^verbatim>\<open>sendStoredResponse\<close>.\<close>

lemma sendStoredResponse_client:
  assumes "wf_header (res_header res)"
    and "run (sendStoredResponse env new_client res ce cs) s = (Returns w', s')"
  shows "\<exists>h. cw_sent w' = Some (res_status res, h)
     \<and> cw_body w' = (if body_allowed (res_status res) then res_body res else [])
     \<and> (\<forall>name. hdr_Values h name =
          (if canon_key name = ''Age'' then [toDeltaSeconds (current_age (en_zones env)
              (en_clock env (st_tick s)) res (ce_ReceivedAt ce) (ce_RequestedAt ce))]
           else (if forwarded_field (canon_key name) then [] else hdr_Values (res_header res) name)
             @ (if canon_key name = ''Cache-Status'' then [CacheStatus_String cs] else [])))"
proof -
  let ?age = "toDeltaSeconds (current_age (en_zones env)
              (en_clock env (st_tick s)) res (ce_ReceivedAt ce) (ce_RequestedAt ce))"
  let ?h = "hdr_Add (copyHeader_server [] (hdr_Set (res_header res) ''Age'' ?age))
      ''Cache-Status'' (CacheStatus_String cs)"
  have "cw_sent w' = Some (res_status res, ?h)"
    "cw_body w' = (if body_allowed (res_status res) then res_body res else [])"
    using assms(2) by (auto simp: sendStoredResponse_eq stored_answer_def AddAgeHeader_def Let_def new_client_def
        cw_WriteHeader_def cw_Write_def split: if_splits)
  moreover have "hdr_Values ?h name =
          (if canon_key name = ''Age'' then [?age]
           else (if forwarded_field (canon_key name) then [] else hdr_Values (res_header res) name)
             @ (if canon_key name = ''Cache-Status'' then [CacheStatus_String cs] else []))" for name
    using hdr_Values_copyHeader_server [OF wf_header_Set [OF assms(1)], of "[]" "''Age''" ?age name]
    by (auto simp: hdr_ops canon_sent_names hdr_Values_def [of "[]"] forwarded_field_def)
  ultimately show ?thesis by blast
qed

section \<open>An entry that has been written is used\<close>

text \<open>The response that the entry stands for, as it is read back.\<close>

definition read_back :: "ResponseSaver \<Rightarrow> response" where
  "read_back rw = \<lparr>res_status = rs_status rw, res_header = fixPragmaCacheControl (rs_header rw),
     res_body = [], res_request = None\<rparr>"

lemma fixPragma_Vary: "hdr_Values (fixPragmaCacheControl h) ''Vary'' = hdr_Values h ''Vary''"
proof -
  have "canon_key ''Cache-Control'' \<noteq> canon_key ''Vary''" by code_simp
  then show ?thesis by (simp add: fixPragmaCacheControl_def hdr_ops)
qed

lemma stored_entry_read:
  assumes "wf_keyer (ac_keyer a)" and "wf_key_request r" and "server_url (req_url r)"
    and "clean_record rw r body" and "ce_Key ce = entry_key a rw r" and "ce_Bytes ce = Response rw"
  shows "\<exists>res orig. createStoredResponse a ce = Returns (Some res)
     \<and> res_request res = Some orig \<and> req_method orig = req_method r
     \<and> url_String (req_url r) = url_String (req_url orig) \<and> headerFieldsMatch r orig res
     \<and> res_status res = rs_status rw \<and> res_body res = body \<and> wf_header (res_header res)
     \<and> (\<forall>name. hdr_Values (res_header res) name = hdr_Values (res_header (read_back rw)) name)"
proof -
  let ?vary = "\<lparr>res_status = 0, res_header = rs_header rw, res_body = [], res_request = None\<rparr>"
  have v: "wf_vary (GetListHeader (res_header ?vary) ''Vary'')"
    and star: "\<not> List.member (GetListHeader (res_header ?vary) ''Vary'') ''*''"
    using assms(4) by (simp_all add: clean_record_def)
  from stored_selected [OF assms(1,2) v assms(3)] star
  obtain orig where o: "GetRequestFromKey (ac_keyer a) (ce_Key ce) = Returns (Inr orig)"
    "url_String (req_url r) = url_String (req_url orig)" "headerFieldsMatch r orig ?vary"
    unfolding assms(5) entry_key_def Let_def by blast
  obtain u where "url_Parse (RequestURI (req_url r)) = Some u"
    using url_String_parse_RequestURI [OF assms(3)] by blast
  from GetRequestFromKey_key [OF assms(1,2) v this] o(1)
  have m: "req_method orig = req_method r"
    unfolding assms(5) entry_key_def Let_def AddVaryKeys_def by (auto simp: rebuilt_request_def)
  from record_reads_back [OF assms(4) m] obtain res where
    res: "ReadResponse (Response rw) orig = Some res" "res_status res = rs_status rw"
      "res_body res = body" "res_request res = Some orig"
    and vals: "\<And>name. hdr_Values (res_header res) name = hdr_Values (fixPragmaCacheControl (rs_header rw)) name"
    by blast
  have "headerFieldsMatch r orig res"
    using o(3) by (simp add: headerFieldsMatch_def GetListHeader_def vals fixPragma_Vary)
  moreover have "createStoredResponse a ce = Returns (Some res)"
    by (simp add: createStoredResponse_def o(1) assms(6) res(1))
  ultimately show ?thesis
    using o m res vals ReadResponse_wf [OF res(1)] by (simp add: read_back_def)
qed

lemma writeCache_True:
  assumes "run (writeCache a env rw r) s = (Returns (True, err), s1)"
  shows "MustNotStore (saved_response rw r) = Inr False
     \<and> st_table s1 = fst (PutCE None (st_table s) (new_entry a env rw r s))"
proof -
  have m: "MustNotStore (saved_response rw r) = Inr False"
    using writeCache_refuses [of rw r a env s] assms by force
  have "en_fault env (Suc (Suc (Suc (st_tick s)))) = None"
    using assms m by (cases "en_fault env (Suc (Suc (Suc (st_tick s))))")
      (simp_all add: writeCache_def run_simps PutCE_def Let_def)
  then have "en_fault env (st_tick s + 3) = None" by (simp add: numeral_3_eq_3)
  from writeCache_stores [OF m this, of a] assms m show ?thesis by (simp add: PutCE_def)
qed

lemma entry_key_prefix: "prefix (GetKeyPrefix (ac_keyer a) r) (entry_key a rw r)"
  by (simp add: entry_key_def AddVaryKeys_def add_vary_lines_Join Join_prefix)

lemma same_values_nonempty:
  assumes "\<And>n. hdr_Values h n = hdr_Values (fixPragmaCacheControl g) n" and "wf_header g" and "g \<noteq> []"
  shows "h \<noteq> []"
proof
  assume "h = []"
  then have none: "hdr_Values (fixPragmaCacheControl g) name = []" for name
    using assms(1) [of name] by (simp add: hdr_Values_def)
  obtain k vs g' where g: "g = (k, vs) # g'" using assms(3) by (cases g) auto
  then have "canon_key k = k" "vs \<noteq> []" using assms(2) by (auto simp: wf_header_def)
  then have "hdr_Values g k \<noteq> []" using g by (simp add: hdr_Values_def)
  then show False
    using none [of k] by (auto simp: fixPragmaCacheControl_def hdr_ops split: if_splits)
qed

text \<open>The conditions under which the record of a response may be used for its own request.\<close>

definition usable :: "zones \<Rightarrow> time \<Rightarrow> time \<Rightarrow> request \<Rightarrow> ResponseSaver \<Rightarrow> CacheEntry \<Rightarrow> bool" where
  "usable tz nowL nowA r rw ce \<longleftrightarrow>
     isFresh tz nowL nowA (read_back rw) (ce_ReceivedAt ce) (ce_RequestedAt ce)
     \<and> \<not> HasDirective (response_cc (read_back rw)) ''no-cache''
     \<and> (\<not> UnsafeRequest r \<or> HasDirective (response_cc (read_back rw)) ''safe'')"

lemma stored_entry_reusable:
  assumes "wf_keyer (ac_keyer a)" and "wf_key_request r" and "server_url (req_url r)"
    and "clean_record rw r body" and "ce_Key ce = entry_key a rw r" and "ce_Bytes ce = Response rw"
    and "MustNotStore (saved_response rw r) = Inr False" and "usable tz nowL nowA r rw ce"
  shows "\<exists>res. createStoredResponse a ce = Returns (Some res)
     \<and> res_status res = rs_status rw \<and> res_body res = body \<and> wf_header (res_header res)
     \<and> (\<forall>name. hdr_Values (res_header res) name = hdr_Values (res_header (read_back rw)) name)
     \<and> MustNotReuse tz nowL nowA r (Some res) (ce_RequestedAt ce) (ce_ReceivedAt ce) = Returns (Reuse [] None)"
proof -
  obtain res orig where c: "createStoredResponse a ce = Returns (Some res)"
    and o: "res_request res = Some orig" "req_method orig = req_method r"
      "url_String (req_url r) = url_String (req_url orig)" "headerFieldsMatch r orig res"
    and res: "res_status res = rs_status rw" "res_body res = body" "wf_header (res_header res)"
    and vals: "\<And>name. hdr_Values (res_header res) name = hdr_Values (res_header (read_back rw)) name"
    using stored_entry_read [OF assms(1-6)] by blast
  have "may_reuse tz nowL nowA r res orig (ce_RequestedAt ce) (ce_ReceivedAt ce)"
    using o assms(8) same_values_fresh [OF vals] same_values_cc [OF vals]
    by (simp add: may_reuse_def usable_def)
  moreover have f: "req_method r \<noteq> []" "rs_status rw \<noteq> 0" "rs_header rw \<noteq> []"
    using assms(7) by (auto simp: MustNotStore_def saved_response_def StatusCode_def split: if_splits)
  moreover have "res_header res \<noteq> []"
  proof (rule same_values_nonempty)
    show "hdr_Values (res_header res) n = hdr_Values (fixPragmaCacheControl (rs_header rw)) n" for n
      unfolding vals by (simp add: read_back_def)
    show "wf_header (rs_header rw)" using assms(4) by (simp add: clean_record_def wire_header_def)
  qed (rule f(3))
  ultimately have "MustNotReuse tz nowL nowA r (Some res) (ce_RequestedAt ce) (ce_ReceivedAt ce)
      = Returns (Reuse [] None)"
    unfolding MustNotReuse_direct using o(1,2) res(1) by (intro exI [of _ orig]) simp
  with c res vals show ?thesis by blast
qed

lemma written_entry_reused:
  assumes "sqlite_laws (en_engine env)" and "wf_table (st_table s)"
    and "wf_keyer (ac_keyer a)" and "wf_key_request r" and "server_url (req_url r)"
    and "clean_record rw r body" and "run (writeCache a env rw r) s = (Returns (True, err), s1)"
    and "ce = to_seconds (new_entry a env rw r s)"
    and "usable (en_zones env) (en_clock env (st_tick s2)) (en_clock env (Suc (st_tick s2))) r rw ce"
  shows "List.member (fst (All (en_engine env) None (st_table s1) (GetKeyPrefix (ac_keyer a) r))) ce
     \<and> (\<exists>w' s3 h age. run (reuseOrValidate a env new_client r ce) s2 = (Returns ([], r, w'), s3)
          \<and> st_sent s3 = st_sent s2 \<and> st_table s3 = st_table s2
          \<and> cw_sent w' = Some (rs_status rw, h)
          \<and> cw_body w' = (if body_allowed (rs_status rw) then body else [])
          \<and> hdr_Values h name =
              (if canon_key name = ''Age'' then [age]
               else (if forwarded_field (canon_key name) then []
                     else hdr_Values (res_header (read_back rw)) name)
                 @ (if canon_key name = ''Cache-Status'' then [''Always-Cache; hit''] else [])))"
    (is "_ \<and> ?sent")
proof -
  note stored = writeCache_True [OF assms(7)]
  have "ce \<in> set (fst (All (en_engine env) None (st_table s1) (GetKeyPrefix (ac_keyer a) r)))"
    unfolding assms(8) stored [THEN conjunct2]
    using assms(1,2) by (rule db.all_after_put) (simp add: new_entry_def entry_key_prefix)
  moreover have ?sent
  proof -
    have k: "ce_Key ce = entry_key a rw r" "ce_Bytes ce = Response rw"
      by (simp_all add: assms(8) to_seconds_def new_entry_def)
    obtain res where c: "createStoredResponse a ce = Returns (Some res)"
      and res: "res_status res = rs_status rw" "res_body res = body" "wf_header (res_header res)"
      and vals: "\<And>name. hdr_Values (res_header res) name = hdr_Values (res_header (read_back rw)) name"
      and m: "MustNotReuse (en_zones env) (en_clock env (st_tick s2)) (en_clock env (Suc (st_tick s2))) r
           (Some res) (ce_RequestedAt ce) (ce_ReceivedAt ce) = Returns (Reuse [] None)"
      using stored_entry_reusable [OF assms(3-6) k stored [THEN conjunct1] assms(9)] by blast
    obtain w' s3 where send: "run (sendStoredResponse env new_client res ce (Hit empty_status))
        (s2\<lparr>st_tick := Suc (Suc (st_tick s2))\<rparr>) = (Returns w', s3)"
      unfolding sendStoredResponse_eq by blast
    have "run (reuseOrValidate a env new_client r ce) s2 = (Returns ([], r, w'), s3)"
      unfolding reuse_direct [OF c m] by (simp add: run_simps send)
    then show ?thesis
      using sendStoredResponse_client [OF res(3) send] sendStoredResponse_state [OF send]
      unfolding res vals hit_header by fastforce
  qed
  ultimately show ?thesis by simp
qed

text \<open>C5. A response that has been written to the store is found by the query for the same request, and
  when the handler considers the entry for this request, at a moment when the response is fresh
  and its own header does not ask for validation, it is sent to the client as a hit: with the same
  status and body, the same header (but for Age, Cache-Status and the forwarding fields), without
  asking the origin and without changing the store.\<close>

theorem written_entry_is_reused:
  assumes "sqlite_laws (en_engine env)" and "wf_table (st_table s)"
    and "wf_keyer (ac_keyer a)" and "wf_key_request r" and "server_url (req_url r)"
    and "clean_record rw r body" and "run (writeCache a env rw r) s = (Returns (True, err), s1)"
    and "ce = to_seconds (new_entry a env rw r s)"
    and "usable (en_zones env) (en_clock env (st_tick s2)) (en_clock env (Suc (st_tick s2))) r rw ce"
  shows "List.member (fst (All (en_engine env) None (st_table s1) (GetKeyPrefix (ac_keyer a) r))) ce
     \<and> (\<exists>w' s3 h age. run (reuseOrValidate a env new_client r ce) s2 = (Returns ([], r, w'), s3)
          \<and> st_sent s3 = st_sent s2 \<and> st_table s3 = st_table s2
          \<and> cw_sent w' = Some (rs_status rw, h)
          \<and> cw_body w' = (if body_allowed (rs_status rw) then body else [])
          \<and> hdr_Values h name =
              (if canon_key name = ''Age'' then [age]
               else (if forwarded_field (canon_key name) then []
                     else hdr_Values (res_header (read_back rw)) name)
                 @ (if canon_key name = ''Cache-Status'' then [''Always-Cache; hit''] else [])))"
  using assms by (rule written_entry_reused)

definition demo_header :: header where
  "demo_header = [(''Date'', [''Sun, 06 Nov 1994 08:49:37 GMT'']), (''Cache-Control'', [''max-age=60''])]"

definition demo_saver :: ResponseSaver where
  "demo_saver = \<lparr>rs_rw = True, rs_b = status_line 200 @ header_Write demo_header @ LF # ''hello'',
     rs_header = demo_header, rs_status = 200, rs_wroteHeaders = True, rs_statusFilter = 0,
     rs_CreatedAt = 784111776000000000\<rparr>"

text \<open>The record of a response to the example request, and that it may be stored and used.\<close>

lemma demo_wf: "wf_key_request (demo_request ''GET'' [])" "server_url (req_url (demo_request ''GET'' []))"
  by code_simp+

lemma demo_start: "wf_table (st_table start)"
  by (simp add: start_def wf_table_def)

lemma demo_clean: "clean_record demo_saver (demo_request ''GET'' []) ''hello''"
proof -
  have "wire_header demo_header" and "clean_header demo_header = demo_header"
    and "announced ''GET'' 200 demo_header ''hello''"
    and "wf_vary (GetListHeader demo_header ''Vary'')"
    and "\<not> List.member (GetListHeader demo_header ''Vary'') ''*''" by code_simp+
  then show ?thesis by (simp add: clean_record_def demo_saver_def demo_request_def)
qed

lemma demo_storable: "MustNotStore (saved_response demo_saver (demo_request ''GET'' [])) = Inr False"
  by (simp add: saved_response_def StatusCode_def demo_saver_def) code_simp

lemma demo_usable:
  "usable (en_zones (demo_env demo_origin)) (en_clock (demo_env demo_origin) m) (en_clock (demo_env demo_origin) n)
     (demo_request ''GET'' []) demo_saver (to_seconds (new_entry a (demo_env demo_origin) demo_saver r s))"
proof -
  let ?ce = "to_seconds (new_entry a (demo_env demo_origin) demo_saver r s)"
  have "from_Unix (time_Unix 784111777000000000) = 784111777000000000"
    and "from_Unix (time_Unix 784111776000000000) = 784111776000000000" by code_simp+
  then have times: "ce_ReceivedAt ?ce = 784111777000000000" "ce_RequestedAt ?ce = 784111776000000000"
    by (simp_all add: to_seconds_def new_entry_def demo_saver_def demo_env_def)
  have env: "en_zones (demo_env demo_origin) = utc_zones" "en_clock (demo_env demo_origin) k = 784111777000000000" for k
    by (simp_all add: demo_env_def)
  have rb: "read_back demo_saver = \<lparr>res_status = 200, res_header = demo_header, res_body = [], res_request = None\<rparr>"
    by (simp add: read_back_def demo_saver_def) code_simp
  show ?thesis unfolding usable_def times rb env by code_simp
qed

theorem written_entry_is_reused_witness:
  "\<exists>ce w s. run (reuseOrValidate (demo_cache False) (demo_env demo_origin) new_client
      (demo_request ''GET'' []) ce) start = (Returns ([], demo_request ''GET'' [], w), s)
    \<and> cw_body w = ''hello''"
proof -
  let ?a = "demo_cache False" and ?env = "demo_env demo_origin" and ?r = "demo_request ''GET'' []"
  have k: "wf_keyer (ac_keyer ?a)"
    by (simp add: demo_cache_def CreateCache_def Let_def) (rule wf_keyer_New, code_simp)
  obtain s1 where w: "run (writeCache ?a ?env demo_saver ?r) start = (Returns (True, None), s1)"
    using writeCache_stores [OF demo_storable demo_env_simps(2)] by blast
  have ok: "(if body_allowed (rs_status demo_saver) then ''hello'' else []) = ''hello''"
    by (simp add: demo_saver_def body_allowed_def)
  show ?thesis
    using written_entry_is_reused [OF demo_env_simps(1) demo_start k demo_wf demo_clean w refl demo_usable, unfolded ok]
    by blast
qed

end
