(* ===== verification/Forwarding.thy ===== *)
theory Forwarding
  imports WriteAndReuse
begin

text \<open>
  What happens where the origin is asked: the miss path of \<^verbatim>\<open>proxy\<close> and the validation of stale
  entries.
\<close>

section \<open>A request that is forwarded\<close>

lemma wf_copyHeader: "wf_header dst \<Longrightarrow> wf_header (copyHeader dst src)"
proof -
  have one: "wf_header d \<Longrightarrow> wf_header (foldl (\<lambda>d v. hdr_Add d k v) d vs)" for d k vs
    by (induction vs arbitrary: d) (simp_all add: wf_header_Add)
  show "wf_header dst \<Longrightarrow> wf_header (copyHeader dst src)"
    unfolding copyHeader_def by (induction src arbitrary: dst) (auto simp: one)
qed

text \<open>What the client has received after the reply of the origin went through the saver.\<close>

lemma after_reply_client:
  assumes "cw_sent w = None" and "after_reply (NewResponseSaver True flt now) w res = (t, w')"
  shows "StatusCode t = res_status res
    \<and> (if res_status res = (case flt of [f] \<Rightarrow> f | _ \<Rightarrow> 0) then w' = w
       else \<exists>sent. cw_sent w' = Some (res_status res, sent)
          \<and> hdr_Values sent name = hdr_Values (cw_header w) name @ hdr_Values (copyHeader [] (res_header res)) name
          \<and> cw_body w' = cw_body w @ (if body_allowed (res_status res) then res_body res else []))"
proof -
  let ?h = "copyHeader [] (res_header res)" and ?chunks = "if res_body res = [] then [] else [res_body res]"
  let ?t = "(NewResponseSaver True flt now)\<lparr>rs_header := ?h\<rparr>"
  obtain t1 w1 where a: "WriteHeader ?t w (res_status res) = (t1, w1)"
    by (cases "WriteHeader ?t w (res_status res)")
  have "saver_Writes t1 w1 ?chunks = (t, w')"
    using assms(2) a by (auto simp: after_reply_def NewResponseSaver_def split: if_splits)
  moreover have "wf_header ?h" by (intro wf_copyHeader wf_header_Nil)
  ultimately show ?thesis
    using saver_forwards [OF _ assms(1) a, of ?chunks t w' name] by (simp split: if_splits)
qed

lemma copyHeader_Nil: "wf_header h \<Longrightarrow> hdr_Values (copyHeader [] h) name = hdr_Values h name"
  by (simp add: hdr_Values_copyHeader hdr_Values_def [of "[]"])



section \<open>Validation\<close>

lemma validation_eq:
  assumes "plain_upgrade a v"
    and "en_origin env (st_tick s + 1) (outgoing a v) = Reply status h body whole" and "status \<noteq> 101"
    and "apply_modifier (ac_modifyResponse a) \<lparr>res_status = status, res_header = remove_hop_headers h,
           res_body = body, res_request = Some (outgoing a v)\<rparr> = Some res"
    and "after_reply (NewResponseSaver True [304] (en_clock env (st_tick s))) w res = (t, w')"
  shows "run (sendToClientIfValidationFailed a env w r v) s =
     (if StatusCode t \<noteq> 304
      then (Returns (True, w'), s\<lparr>st_tick := st_tick s + 2, st_sent := st_sent s @ [outgoing a v],
              st_tasks := st_tasks s @ [UpdateResponse t r]\<rparr>)
      else (Returns (False, w'), s\<lparr>st_tick := st_tick s + 2, st_sent := st_sent s @ [outgoing a v]\<rparr>))"
proof -
  have "en_origin env (st_tick (s\<lparr>st_tick := Suc (st_tick s)\<rparr>)) (outgoing a v) = Reply status h body whole"
    using assms(2) by simp
  note reply = ReverseProxy_reply [OF assms(1) this assms(3,4)]
  show ?thesis
    unfolding sendToClientIfValidationFailed_def time_Now_then
    by (simp add: run_simps reply assms(5))
qed

text \<open>C14. A validation request is sent once, and 304 decides: then the client's writer is untouched and
  nothing else happens; any other answer goes to the client, as it comes, and is handed to a
  goroutine to be stored for the client's request.\<close>

theorem failed_validation_answers:
  assumes "plain_upgrade a v"
    and "en_origin env (st_tick s + 1) (outgoing a v) = Reply status h body whole" and "status \<noteq> 101"
    and "apply_modifier (ac_modifyResponse a) \<lparr>res_status = status, res_header = remove_hop_headers h,
           res_body = body, res_request = Some (outgoing a v)\<rparr> = Some res"
    and "wf_header (res_header res)" and "cw_sent w = None"
    and "run (sendToClientIfValidationFailed a env w r v) s = (x, s')"
  shows "st_sent s' = st_sent s @ [outgoing a v] \<and> st_table s' = st_table s
     \<and> (if res_status res = 304 then x = Returns (False, w) \<and> st_tasks s' = st_tasks s
        else \<exists>w' sent t. x = Returns (True, w') \<and> cw_sent w' = Some (res_status res, sent)
          \<and> hdr_Values sent name = hdr_Values (cw_header w) name @ hdr_Values (res_header res) name
          \<and> cw_body w' = cw_body w @ (if body_allowed (res_status res) then res_body res else [])
          \<and> st_tasks s' = st_tasks s @ [UpdateResponse t r] \<and> StatusCode t = res_status res)"
proof -
  let ?t = "NewResponseSaver True [304] (en_clock env (st_tick s))"
  obtain t w' where aft: "after_reply ?t w res = (t, w')" by (cases "after_reply ?t w res")
  note c = after_reply_client [OF assms(6) aft, of name, unfolded copyHeader_Nil [OF assms(5)]]
  show ?thesis
    using assms(7) c unfolding validation_eq [OF assms(1-4) aft] by (auto split: if_splits)
qed

lemma hit_reason: "cs_fwd_reason (Hit empty_status) = []"
  by (simp add: Hit_def empty_status_def)

text \<open>C13. An entry that must be validated is sent as a hit after the origin has answered 304; the table
  is as before, so the entry is not freshened by the header of the 304 response and will be
  validated again by the next request.\<close>

theorem validated_entry_is_sent:
  assumes "createStoredResponse a ce = Returns (Some stored)"
    and "MustNotReuse (en_zones env) (en_clock env (st_tick s)) (en_clock env (st_tick s + 1)) r
           (Some stored) (ce_RequestedAt ce) (ce_ReceivedAt ce) = Returns (Reuse reason (Some v))"
    and "plain_upgrade a v"
    and "en_origin env (st_tick s + 3) (outgoing a v) = Reply 304 h body whole"
    and "ac_modifyResponse a = None" and "cw_sent w = None"
  shows "\<exists>w' s'. run (reuseOrValidate a env w r ce) s = (Returns ([], client_after r (Some v), w'), s')
     \<and> run (sendStoredResponse env w stored ce (Hit empty_status))
         (s\<lparr>st_tick := st_tick s + 4, st_sent := st_sent s @ [outgoing a v]\<rparr>) = (Returns w', s')
     \<and> st_table s' = st_table s \<and> st_tasks s' = st_tasks s"
proof -
  let ?s2 = "s\<lparr>st_tick := Suc (Suc (st_tick s))\<rparr>"
  let ?res = "\<lparr>res_status = 304, res_header = remove_hop_headers h, res_body = body, res_request = Some (outgoing a v)\<rparr>"
  have "en_origin env (st_tick ?s2 + 1) (outgoing a v) = Reply 304 h body whole"
    using assms(4) by (simp add: numeral_3_eq_3)
  moreover obtain t w1 where aft: "after_reply (NewResponseSaver True [304] (en_clock env (st_tick ?s2))) w ?res = (t, w1)"
    by (cases "after_reply (NewResponseSaver True [304] (en_clock env (st_tick ?s2))) w ?res")
  moreover have c: "StatusCode t = 304" "w1 = w"
    using after_reply_client [OF assms(6) aft] by simp_all
  ultimately have val: "run (sendToClientIfValidationFailed a env w (client_after r (Some v)) v) ?s2
      = (Returns (False, w), s\<lparr>st_tick := st_tick s + 4, st_sent := st_sent s @ [outgoing a v]\<rparr>)"
    using validation_eq [OF assms(3), where s = ?s2] assms(5) by (simp add: apply_modifier_def)
  obtain w' s' where send: "run (sendStoredResponse env w stored ce (Hit empty_status))
      (s\<lparr>st_tick := st_tick s + 4, st_sent := st_sent s @ [outgoing a v]\<rparr>) = (Returns w', s')"
    unfolding sendStoredResponse_eq by blast
  have "MustNotReuse (en_zones env) (en_clock env (st_tick s)) (en_clock env (Suc (st_tick s))) r
           (Some stored) (ce_RequestedAt ce) (ce_ReceivedAt ce) = Returns (Reuse reason (Some v))"
    using assms(2) by simp
  then have "run (reuseOrValidate a env w r ce) s = (Returns ([], client_after r (Some v), w'), s')"
    by (simp add: reuseOrValidate_def assms(1) lift_Returns time_Now_then Let_def)
       (simp add: run_simps val send hit_reason)
  then show ?thesis using send sendStoredResponse_state [OF send] by auto
qed


lemma demo_no_modifier: "ac_modifyResponse (demo_cache legacy) = None"
  by (simp add: demo_cache_def CreateCache_def Let_def)


definition late_env :: env where
  "late_env = (demo_env (\<lambda>n req. Reply 304 [] [] True))\<lparr>en_clock := (\<lambda>n. 784112777000000000)\<rparr>"

definition late_entry :: CacheEntry where
  "late_entry = \<lparr>ce_Key = ''http://o:GET:/a'' @ [CHR 0x09], ce_Expires = 784111837000000000,
     ce_RequestedAt = 784111776000000000, ce_ReceivedAt = 784111777000000000, ce_Bytes = rs_b demo_saver\<rparr>"

text \<open>Reading off a computed case distinction.\<close>

lemma case_stored: "(case y of Returns (Some x) \<Rightarrow> P x | _ \<Rightarrow> False) \<longleftrightarrow> (\<exists>x. y = Returns (Some x) \<and> P x)"
  by (auto split: go_result.splits option.splits)

lemma case_validation:
  "(case y of Returns (Reuse reason (Some v)) \<Rightarrow> P v | _ \<Rightarrow> False)
     \<longleftrightarrow> (\<exists>reason v. y = Returns (Reuse reason (Some v)) \<and> P v)"
  by (auto split: go_result.splits option.splits reuse_result.splits)

lemma late_stale:
  "case createStoredResponse (demo_cache False) late_entry of
     Returns (Some stored) \<Rightarrow>
       (case MustNotReuse utc_zones 784112777000000000 784112777000000000 (demo_request ''GET'' [])
           (Some stored) 784111776000000000 784111777000000000 of
          Returns (Reuse reason (Some v)) \<Rightarrow> plain_upgrade (demo_cache False) v \<and> res_body stored = ''hello''
            \<and> res_status stored = 200
        | _ \<Rightarrow> False)
   | _ \<Rightarrow> False"
  by code_simp

theorem validated_entry_is_sent_witness:
  "\<exists>r w s. run (reuseOrValidate (demo_cache False) late_env new_client (demo_request ''GET'' []) late_entry) start
       = (Returns ([], r, w), s) \<and> cw_body w = ''hello'' \<and> st_table s = []"
proof -
  let ?a = "demo_cache False" and ?r = "demo_request ''GET'' []"
  obtain stored reason v where c: "createStoredResponse ?a late_entry = Returns (Some stored)"
    and m: "MustNotReuse utc_zones 784112777000000000 784112777000000000 ?r (Some stored)
       784111776000000000 784111777000000000 = Returns (Reuse reason (Some v))"
    and u: "plain_upgrade ?a v" and b: "res_body stored = ''hello''" "res_status stored = 200"
    using late_stale unfolding case_stored case_validation by blast
  have m': "MustNotReuse (en_zones late_env) (en_clock late_env (st_tick start))
       (en_clock late_env (st_tick start + 1)) ?r (Some stored) (ce_RequestedAt late_entry)
       (ce_ReceivedAt late_entry) = Returns (Reuse reason (Some v))"
    using m by (simp add: late_env_def late_entry_def demo_env_def)
  have o: "en_origin late_env (st_tick start + 3) (outgoing ?a v) = Reply 304 [] [] True"
    by (simp add: late_env_def demo_env_def)
  have w: "cw_sent new_client = None" by (simp add: new_client_def)
  obtain w' s where "run (reuseOrValidate ?a late_env new_client ?r late_entry) start
      = (Returns ([], client_after ?r (Some v), w'), s)"
    and "run (sendStoredResponse late_env new_client stored late_entry (Hit empty_status))
         (start\<lparr>st_tick := st_tick start + 4, st_sent := st_sent start @ [outgoing ?a v]\<rparr>) = (Returns w', s)"
    and "st_table s = st_table start"
    using validated_entry_is_sent [OF c m' u o demo_no_modifier w] by blast
  moreover from this(2) b have "cw_body w' = ''hello''"
    by (auto simp: sendStoredResponse_eq stored_answer_def Let_def cw_Write_def cw_WriteHeader_def new_client_def body_allowed_def)
  ultimately show ?thesis by (auto simp: start_def)
qed

theorem failed_validation_answers_witness:
  "\<exists>w s. run (sendToClientIfValidationFailed (demo_cache False) (demo_env demo_origin) new_client
       (demo_request ''GET'' []) (demo_request ''GET'' [(''If-None-Match'', [''v1''])])) start
     = (Returns (True, w), s) \<and> cw_body w = ''hello''"
proof -
  let ?a = "demo_cache False" and ?env = "demo_env demo_origin" and ?r = "demo_request ''GET'' []"
    and ?v = "demo_request ''GET'' [(''If-None-Match'', [''v1''])]"
  have u: "plain_upgrade ?a ?v" by code_simp
  have o: "en_origin ?env (st_tick start + 1) (outgoing ?a ?v) = Reply 200 demo_header ''hello'' True"
    by (simp add: demo_env_def demo_origin_def demo_header_def)
  let ?res = "\<lparr>res_status = 200, res_header = remove_hop_headers demo_header, res_body = ''hello'',
      res_request = Some (outgoing ?a ?v)\<rparr>"
  have m: "apply_modifier (ac_modifyResponse ?a) ?res = Some ?res"
    by (simp add: demo_no_modifier apply_modifier_def)
  have "wf_header (remove_hop_headers demo_header)" by code_simp
  then have h: "wf_header (res_header ?res)" by simp
  have w: "cw_sent new_client = None" by (simp add: new_client_def)
  obtain x s where p: "run (sendToClientIfValidationFailed ?a ?env new_client ?r ?v) start = (x, s)"
    by (cases "run (sendToClientIfValidationFailed ?a ?env new_client ?r ?v) start")
  have "\<exists>w. x = Returns (True, w) \<and> cw_body w = ''hello''"
    using failed_validation_answers [OF u o _ m h w p, where name = "[]"] by (auto simp: body_allowed_def new_client_def)
  with p show ?thesis by blast
qed

end
