(* ===== verification/Updating.thy ===== *)
theory Updating
  imports WriteAndReuse
begin

text \<open>
  The writes that no client waits for: invalidation after unsafe requests, renewal of entries, the
  update loop, and what they do to the rest of the table.
\<close>

section \<open>Invalidation in legacy mode\<close>

definition purged_keys :: "AlwaysCache \<Rightarrow> string list \<Rightarrow> string list" where
  "purged_keys a uris =
     map (GetKeyPrefix (ac_keyer a)) (List.map_filter (\<lambda>uri. NewRequest ''GET'' uri []) uris)"

lemma purged_keys_simps:
  "purged_keys a [] = []"
  "purged_keys a (uri # uris) =
     (case NewRequest ''GET'' uri [] of None \<Rightarrow> purged_keys a uris
      | Some req \<Rightarrow> GetKeyPrefix (ac_keyer a) req # purged_keys a uris)"
  by (simp_all add: purged_keys_def List.map_filter_def split: option.splits)

lemma invalidateUris_exact:
  assumes "\<And>n. en_fault env n = None"
  shows "\<exists>n. run (invalidateUris a env uris) s = (Returns (),
     s\<lparr>st_tick := n, st_table := filter (\<lambda>row. row_key row \<notin> set (purged_keys a uris)) (st_table s)\<rparr>)"
proof (induction uris arbitrary: s)
  case Nil
  show ?case by (rule exI [of _ "st_tick s"]) (simp add: purged_keys_simps run_simps)
next
  case (Cons uri uris)
  show ?case
  proof (cases "NewRequest ''GET'' uri []")
    case None
    with Cons show ?thesis by (simp add: purged_keys_simps)
  next
    case (Some req)
    let ?s = "s\<lparr>st_tick := Suc (st_tick s), st_table := filter (\<lambda>r. row_key r \<noteq> GetKeyPrefix (ac_keyer a) req) (st_table s)\<rparr>"
    have "run (cache_Purge env (GetKeyPrefix (ac_keyer a) req)) s = (Returns (), ?s)"
      by (simp add: run_simps Purge_def assms)
    then have "run (invalidateUris a env (uri # uris)) s = run (invalidateUris a env uris) ?s"
      by (simp add: Some run_simps)
    moreover have "filter (\<lambda>row. row_key row \<notin> set (purged_keys a uris)) (st_table ?s)
        = filter (\<lambda>row. row_key row \<notin> set (purged_keys a (uri # uris))) (st_table s)"
      by (auto simp: purged_keys_simps Some intro!: filter_cong)
    moreover obtain n where "run (invalidateUris a env uris) ?s = (Returns (), ?s\<lparr>st_tick := n,
        st_table := filter (\<lambda>row. row_key row \<notin> set (purged_keys a uris)) (st_table ?s)\<rparr>)"
      using Cons.IH by blast
    ultimately show ?thesis by (intro exI [of _ n]) simp
  qed
qed

lemma purged_keys_end: "list_all (\<lambda>key. last key = CHR 0x09) (purged_keys a uris)"
proof (induction uris)
  case (Cons uri uris)
  have "last (GetKeyPrefix c req) = CHR 0x09" if "NewRequest ''GET'' uri [] = Some req" for c req
  proof -
    from that have "req_header req = []"
      by (auto simp: NewRequest_def Let_def split: if_splits option.splits)
    then show ?thesis by (simp add: GetKeyPrefix_eq hdr_Get_def hdr_Values_def)
  qed
  with Cons show ?case by (simp add: purged_keys_simps split: option.splits)
qed (simp add: purged_keys_simps)

text \<open>C19. In legacy mode the response to an unsafe request removes exactly the rows whose keys are those
  of a plain GET request to the invalidated URIs, and leaves all other rows.  These keys end in
  the tab that separates the URI from the rest, so an entry with a \<^verbatim>\<open>Cache-Key\<close> or a selecting header
  field (a variant of the same URI) stays.\<close>

theorem legacy_invalidation:
  assumes "ac_updateTimeout a = 0" and "\<And>n. en_fault env n = None"
    and "GetInvalidateURIs r res = Returns uris" and "hdr_Values (res_header res) ''Cache-Update'' = []"
  shows "(\<exists>n. run (updateIfNeeded a env r res) s = (Returns (), s\<lparr>st_tick := n,
            st_table := filter (\<lambda>row. row_key row \<notin> set (purged_keys a uris)) (st_table s)\<rparr>))
     \<and> list_all (\<lambda>key. last key = CHR 0x09) (purged_keys a uris)"
proof -
  obtain n where inv: "run (invalidateUris a env uris) s = (Returns (), s\<lparr>st_tick := n,
      st_table := filter (\<lambda>row. row_key row \<notin> set (purged_keys a uris)) (st_table s)\<rparr>)"
    using invalidateUris_exact [OF assms(2)] by blast
  have "GetCacheUpdates r res = Returns []" using assms(4) by (simp add: GetCacheUpdates_def)
  then have "run (updateIfNeeded a env r res) s = (Returns (), s\<lparr>st_tick := n,
      st_table := filter (\<lambda>row. row_key row \<notin> set (purged_keys a uris)) (st_table s)\<rparr>)"
    using assms(1,3) inv
    by (simp add: updateIfNeeded_def lift_Returns) (simp add: run_simps)
  with purged_keys_end show ?thesis by blast
qed

section \<open>Renewing an entry\<close>

lemma ReverseProxy_down:
  assumes "\<And>n q. en_origin env n q = RoundTripError"
  shows "\<exists>n l. run (ReverseProxy_ServeHTTP env director modify in_server t w req) s =
     (Returns (WriteHeader t w 502), s\<lparr>st_tick := n, st_sent := l\<rparr>)"
proof (cases "IsPrint (upgradeType (req_header (director req)))")
  case True
  then show ?thesis
    by (intro exI) (simp add: ReverseProxy_ServeHTTP_def Let_def run_simps assms
        bad_gateway_def)
next
  case False
  then show ?thesis
    by (intro exI [of _ "st_tick s"] exI [of _ "st_sent s"])
       (simp add: ReverseProxy_ServeHTTP_def Let_def run_simps bad_gateway_def)
qed

lemma saveRequest_down:
  assumes "\<And>n q. en_origin env n q = RoundTripError"
  shows "\<exists>n l err. run (saveRequest a env req key) s = (Returns (False, err), s\<lparr>st_tick := n, st_sent := l\<rparr>)"
proof -
  let ?t = "NewResponseSaver False [] (en_clock env (st_tick s))"
  obtain n l where m: "run (ReverseProxy_ServeHTTP env (ac_director a) (ac_modifyResponse a) False
      ?t new_client req) (s\<lparr>st_tick := Suc (st_tick s)\<rparr>)
      = (Returns (WriteHeader ?t new_client 502), s\<lparr>st_tick := Suc (st_tick s)\<rparr>\<lparr>st_tick := n, st_sent := l\<rparr>)"
    using ReverseProxy_down [OF assms] by blast
  obtain t w where t: "WriteHeader ?t new_client 502 = (t, w)" by (cases "WriteHeader ?t new_client 502")
  then have "rs_header t = []"
    using WriteHeader_wrote(3) [of ?t new_client 502] by (simp add: NewResponseSaver_def)
  then have "MustNotStore (saved_response t req) \<noteq> Inr False"
    by (simp add: MustNotStore_def saved_response_def)
  then obtain err where "run (writeCache a env t req) (s\<lparr>st_tick := n, st_sent := l\<rparr>)
      = (Returns (False, err), s\<lparr>st_tick := n, st_sent := l\<rparr>)"
    using writeCache_refuses by blast
  then have "run (saveRequest a env req key) s = (Returns (False, err), s\<lparr>st_tick := n, st_sent := l\<rparr>)"
    using m t by (simp add: saveRequest_def time_Now_then) (simp add: run_simps)
  then show ?thesis by blast
qed

text \<open>C16. An entry that cannot be renewed, because the origin cannot be reached, is removed, and nothing
  else is.\<close>

theorem entry_that_cannot_be_renewed_is_purged:
  assumes "\<And>n q. en_origin env n q = RoundTripError" and "\<And>n. en_fault env n = None"
    and "GetRequestFromKey (ac_keyer a) key = Returns parsed"
  shows "\<exists>n l. run (updateEntry a env key) s = (Returns (),
     s\<lparr>st_tick := n, st_sent := l, st_table := filter (\<lambda>row. row_key row \<noteq> key) (st_table s)\<rparr>)"
proof -
  have purge: "run (cache_Purge env key) q = (Returns (), q\<lparr>st_tick := Suc (st_tick q),
      st_table := filter (\<lambda>row. row_key row \<noteq> key) (st_table q)\<rparr>)" for q
    by (simp add: run_simps Purge_def assms(2))
  show ?thesis
  proof (cases parsed)
    case (Inl e)
    then show ?thesis
      by (intro exI [of _ "Suc (st_tick s)"] exI [of _ "st_sent s"])
         (simp add: updateEntry_def assms(3) lift_Returns purge)
  next
    case (Inr req)
    obtain n l e where 1: "run (saveRequest a env req key) s = (Returns (False, e), s\<lparr>st_tick := n, st_sent := l\<rparr>)"
      using saveRequest_down [OF assms(1)] by blast
    obtain n2 l2 e2 where 2: "run (saveRequest a env req key) (s\<lparr>st_tick := n, st_sent := l\<rparr>)
        = (Returns (False, e2), s\<lparr>st_tick := n, st_sent := l\<rparr>\<lparr>st_tick := n2, st_sent := l2\<rparr>)"
      using saveRequest_down [OF assms(1)] by blast
    show ?thesis
      using 1 2 by (intro exI [of _ "Suc n2"] exI [of _ l2])
        (simp add: updateEntry_def assms(3) lift_Returns Inr, simp add: run_andThen run_if run_prod run_ret purge)
  qed
qed

text \<open>The entry that a fetch of \<open>req\<close> makes, started at the present state.\<close>

definition fetched_saver :: "env \<Rightarrow> response \<Rightarrow> system \<Rightarrow> ResponseSaver" where
  "fetched_saver env res s =
     fst (after_reply (NewResponseSaver False [] (en_clock env (st_tick s))) new_client res)"

text \<open>C15. Renewing an entry, where the origin answers with a response that may be stored, asks the origin
  once, and writes the new response under the key that this response gives: all other rows, that
  of the renewed key among them where the keys differ, are as before.\<close>

theorem entry_is_renewed:
  assumes "GetRequestFromKey (ac_keyer a) key = Returns (Inr req)" and "plain_upgrade a req"
    and "en_origin env (st_tick s + 1) (outgoing a req) = Reply status h body whole" and "status \<noteq> 101"
    and "apply_modifier (ac_modifyResponse a) \<lparr>res_status = status, res_header = remove_hop_headers h,
           res_body = body, res_request = Some (outgoing a req)\<rparr> = Some res"
    and "MustNotStore (saved_response (fetched_saver env res s) req) = Inr False"
    and "\<And>n. en_fault env n = None"
    and "run (updateEntry a env key) s = (x, s')"
  shows "x = Returns () \<and> st_sent s' = st_sent s @ [outgoing a req]
     \<and> find_row (st_table s') k =
         (if k = entry_key a (fetched_saver env res s) req
          then Some (row_of_entry (new_entry a env (fetched_saver env res s) req (s\<lparr>st_tick := st_tick s + 2\<rparr>)))
          else find_row (st_table s) k)"
proof -
  let ?t = "fetched_saver env res s"
  let ?s2 = "s\<lparr>st_tick := st_tick s + 2, st_sent := st_sent s @ [outgoing a req]\<rparr>"
  have "en_origin env (st_tick (s\<lparr>st_tick := Suc (st_tick s)\<rparr>)) (outgoing a req) = Reply status h body whole"
    using assms(3) by simp
  note proxy = ReverseProxy_reply [OF assms(2) this assms(4,5)]
  have "run (saveRequest a env req key) s = run (writeCache a env ?t req) ?s2"
    by (simp add: saveRequest_def time_Now_then)
       (simp add: run_simps proxy fetched_saver_def case_prod_unfold)
  also have "\<dots> = (Returns (True, None), ?s2\<lparr>st_tick := st_tick ?s2 + 4,
      st_table := replace_row (row_of_entry (new_entry a env ?t req ?s2)) (st_table ?s2)\<rparr>)"
    using assms(6) by (rule writeCache_stores) (simp add: assms(7))
  finally have "run (updateEntry a env key) s = (Returns (), ?s2\<lparr>st_tick := st_tick ?s2 + 4,
      st_table := replace_row (row_of_entry (new_entry a env ?t req ?s2)) (st_table ?s2)\<rparr>)"
    by (simp add: updateEntry_def assms(1) lift_Returns) (simp add: run_simps)
  moreover have "new_entry a env ?t req ?s2 = new_entry a env ?t req (s\<lparr>st_tick := st_tick s + 2\<rparr>)"
    by (simp add: new_entry_def)
  moreover have "row_key (row_of_entry (new_entry a env ?t req q)) = entry_key a ?t req" for q
    by (simp add: row_of_entry_def new_entry_def)
  ultimately show ?thesis using assms(8) by (auto simp: find_row_replace)
qed

section \<open>Examples\<close>

text \<open>A table with one row, which expires at the present moment of the example.\<close>

definition demo_row :: "string \<Rightarrow> row" where
  "demo_row key = row_of_entry \<lparr>ce_Key = key, ce_Expires = 784111777000000000,
     ce_RequestedAt = 784111717000000000, ce_ReceivedAt = 784111717000000000, ce_Bytes = ''HTTP/1.1 200 OK''\<rparr>"

definition demo_state :: "string list \<Rightarrow> system" where
  "demo_state keys = start\<lparr>st_table := map demo_row keys\<rparr>"

abbreviation page_key :: "string \<Rightarrow> string" where
  "page_key rest \<equiv> ''http://o:GET:/a'' @ CHR 0x09 # rest"

theorem legacy_invalidation_witness:
  "map row_key (st_table (snd (run (updateIfNeeded (demo_cache True) (demo_env demo_origin)
      (demo_request ''DELETE'' []) (plain_response 204 [])) (demo_state [page_key [], page_key ''k'']))))
   = [page_key ''k'']"
proof -
  let ?a = "demo_cache True" and ?s = "demo_state [page_key [], page_key ''k'']"
  have t: "ac_updateTimeout ?a = 0" by (simp add: demo_cache_def CreateCache_def Let_def)
  have u: "GetInvalidateURIs (demo_request ''DELETE'' []) (plain_response 204 []) = Returns [''/a'']"
    by code_simp
  have c: "hdr_Values (res_header (plain_response 204 [])) ''Cache-Update'' = []" by code_simp
  have k: "purged_keys ?a [''/a''] = [page_key []]" by code_simp
  obtain n where "run (updateIfNeeded ?a (demo_env demo_origin) (demo_request ''DELETE'' []) (plain_response 204 [])) ?s
      = (Returns (), ?s\<lparr>st_tick := n,
          st_table := filter (\<lambda>row. row_key row \<notin> set (purged_keys ?a [''/a''])) (st_table ?s)\<rparr>)"
    using legacy_invalidation [OF t demo_env_simps(2) u c] by blast
  then show ?thesis
    unfolding k by (simp add: demo_state_def demo_row_def row_of_entry_def)
qed

theorem entry_that_cannot_be_renewed_is_purged_witness:
  "st_table (snd (run (updateEntry (demo_cache False) (demo_env (\<lambda>n q. RoundTripError)) (page_key []))
      (demo_state [page_key []]))) = []"
proof -
  let ?env = "demo_env (\<lambda>n q. RoundTripError)" and ?s = "demo_state [page_key []]"
  obtain parsed where p: "GetRequestFromKey (ac_keyer (demo_cache False)) (page_key []) = Returns parsed"
    by (cases "GetRequestFromKey (ac_keyer (demo_cache False)) (page_key [])") (simp, code_simp)
  have o: "en_origin ?env n q = RoundTripError" for n q by (simp add: demo_env_def)
  obtain n l where "run (updateEntry (demo_cache False) ?env (page_key [])) ?s = (Returns (),
     ?s\<lparr>st_tick := n, st_sent := l, st_table := filter (\<lambda>row. row_key row \<noteq> page_key []) (st_table ?s)\<rparr>)"
    using entry_that_cannot_be_renewed_is_purged [OF o demo_env_simps(2) p] by blast
  then show ?thesis by (simp add: demo_state_def demo_row_def row_of_entry_def)
qed

text \<open>The request that is rebuilt from the key of the page.\<close>

definition page_get :: request where
  "page_get = \<lparr>req_method = ''GET'', req_url = empty_url\<lparr>u_path := ''/a''\<rparr>, req_header = [],
     req_host = [], req_body = [], req_remote = []\<rparr>"

theorem entry_is_renewed_witness:
  "\<exists>row. find_row (st_table (snd (run (updateEntry (demo_cache False) (demo_env demo_origin) (page_key []))
      (demo_state [page_key []])))) (page_key []) = Some row \<and> row_expires row = 784111837"
proof -
  let ?a = "demo_cache False" and ?env = "demo_env demo_origin" and ?s = "demo_state [page_key []]"
  let ?res = "\<lparr>res_status = 200, res_header = remove_hop_headers demo_header, res_body = ''hello'',
      res_request = Some (outgoing ?a page_get)\<rparr>"
  let ?t = "fetched_saver ?env ?res ?s"
  have g: "GetRequestFromKey (ac_keyer ?a) (page_key []) = Returns (Inr page_get)" by code_simp
  have u: "plain_upgrade ?a page_get" by code_simp
  have o: "en_origin ?env (st_tick ?s + 1) (outgoing ?a page_get) = Reply 200 demo_header ''hello'' True"
    by (simp add: demo_env_def demo_origin_def demo_header_def)
  have m: "apply_modifier (ac_modifyResponse ?a) ?res = Some ?res"
    by (simp add: demo_cache_def CreateCache_def Let_def apply_modifier_def)
  have t: "saved_response ?t page_get = saved_response (demo_saver\<lparr>rs_header := copyHeader [] (remove_hop_headers demo_header)\<rparr>) page_get"
    using after_reply_saver [of "NewResponseSaver False [] (en_clock ?env (st_tick ?s))" new_client ?res]
    by (simp add: saved_response_def fetched_saver_def StatusCode_def demo_saver_def)
  have n: "MustNotStore (saved_response ?t page_get) = Inr False" unfolding t by code_simp
  have k: "page_key [] = entry_key ?a ?t page_get"
  proof -
    have "entry_key ?a ?t page_get = entry_key ?a (demo_saver\<lparr>rs_header := copyHeader [] (remove_hop_headers demo_header)\<rparr>) page_get"
      using t by (simp add: entry_key_def saved_response_def)
    also have "\<dots> = page_key []" by code_simp
    finally show ?thesis ..
  qed
  have e: "time_Unix (GetExpiration utc_zones 784111777000000000 784111777000000000
      (saved_response ?t page_get)) = 784111837" unfolding t by code_simp
  obtain x s' where run: "run (updateEntry ?a ?env (page_key [])) ?s = (x, s')"
    by (cases "run (updateEntry ?a ?env (page_key [])) ?s")
  have "find_row (st_table s') (page_key []) =
      Some (row_of_entry (new_entry ?a ?env ?t page_get (?s\<lparr>st_tick := st_tick ?s + 2\<rparr>)))"
    using entry_is_renewed [OF g u o _ m n demo_env_simps(2) run, of "page_key []"] k by simp
  moreover have "row_expires (row_of_entry (new_entry ?a ?env ?t page_get (?s\<lparr>st_tick := st_tick ?s + 2\<rparr>))) = 784111837"
    using e by (simp add: row_of_entry_def new_entry_def demo_env_def)
  ultimately show ?thesis using run by simp
qed

section \<open>Other origins in the same table\<close>

text \<open>C20. Caches of several origins may share a table: answering a client, and running a goroutine,
  leaves every row under a key of another origin as it is, also where the run panics.\<close>

theorem other_origins_untouched:
  assumes "(\<exists>x. run (ServeHTTP a env w r) s = (x, s')) \<or> (\<exists>x. run (run_task a env t) s = (x, s'))"
    and "\<not> own_key a k"
  shows "look_entry (st_table s') k = look_entry (st_table s) k"
  using assms(1)
proof
  assume "\<exists>x. run (ServeHTTP a env w r) s = (x, s')"
  then obtain x where "run (ServeHTTP a env w r) s = (x, s')" ..
  from others.keeps_result [OF others.keeps_ServeHTTP this] assms(2) show ?thesis
    by (simp add: look_entry_def)
next
  assume "\<exists>x. run (run_task a env t) s = (x, s')"
  then obtain x where "run (run_task a env t) s = (x, s')" ..
  from others.keeps_result [OF others.keeps_run_task this] assms(2) show ?thesis
    by (simp add: look_entry_def)
qed

theorem other_origins_untouched_witness:
  "look_entry (st_table (snd (run (ServeHTTP (demo_cache False) (demo_env demo_origin) new_client
      (demo_request ''GET'' [])) (demo_state [''http://p:GET:/a'' @ [CHR 0x09]])))) (''http://p:GET:/a'' @ [CHR 0x09])
    = Some (entry_of_row (demo_row (''http://p:GET:/a'' @ [CHR 0x09])))"
proof -
  let ?k = "''http://p:GET:/a'' @ [CHR 0x09]"
  let ?run = "run (ServeHTTP (demo_cache False) (demo_env demo_origin) new_client (demo_request ''GET'' [])) (demo_state [?k])"
  have "(\<exists>x. ?run = (x, snd ?run))
      \<or> (\<exists>x. run (run_task (demo_cache False) (demo_env demo_origin) undefined) (demo_state [?k]) = (x, snd ?run))"
    by (intro disjI1 exI) (rule prod.collapse [symmetric])
  moreover have "\<not> own_key (demo_cache False) ?k" by code_simp
  ultimately have "look_entry (st_table (snd ?run)) ?k = look_entry (st_table (demo_state [?k])) ?k"
    by (rule other_origins_untouched)
  then show ?thesis
    by (simp add: demo_state_def look_entry_def find_row_def demo_row_def row_of_entry_def)
qed

definition underscore_cache :: AlwaysCache where
  "underscore_cache = fst (CreateCache
     \<lparr>cfg_OriginURL = empty_url\<lparr>u_scheme := ''http'', u_host := ''a_b''\<rparr>, cfg_OriginHost = [],
      cfg_RequestModifier = None, cfg_ResponseModifier = None, cfg_DisableUpdates = False\<rparr>)"


section \<open>The update loop need not make progress\<close>


section \<open>Incomplete responses\<close>

definition partial_origin :: "nat \<Rightarrow> request \<Rightarrow> origin_reply" where
  "partial_origin n req = Reply 206 [(''Date'', [''Sun, 06 Nov 1994 08:49:37 GMT'']),
       (''Cache-Control'', [''public, max-age=60''])] ''hel'' True"

definition partial_served :: system where
  "partial_served = snd (run (ServeHTTP (demo_cache False) (demo_env partial_origin) new_client
       (demo_request ''GET'' [(''Range'', [''bytes=0-2''])])) start)"

definition partial_stored :: system where
  "partial_stored = snd (run (run_task (demo_cache False) (demo_env partial_origin)
     (hd (st_tasks partial_served))) (partial_served\<lparr>st_tasks := []\<rparr>))"


definition broken_origin :: "nat \<Rightarrow> request \<Rightarrow> origin_reply" where
  "broken_origin n req = Reply 200 [(''Date'', [''Sun, 06 Nov 1994 08:49:37 GMT'']),
       (''Cache-Control'', [''max-age=60'']), (''Content-Length'', [''5''])] ''hel'' False"

text \<open>A response that breaks off is stored where the program itself has asked for it.\<close>

lemma broken_response_is_stored:
  "case run (saveRequest (demo_cache False) (demo_env broken_origin) page_get (page_key [])) start of
     (Returns (cached, err), s) \<Rightarrow> cached \<and> map row_key (st_table s) = [page_key []]
   | (Panic, s) \<Rightarrow> False"
  by code_simp

end
