(* ===== verification/Races.thy ===== *)
theory Races
  imports Updating
begin

text \<open>
  What the interleaving of handlers and goroutines allows: a response that was on its way when its
  URI was invalidated.
\<close>

section \<open>An invalidation that is overtaken\<close>

text \<open>
  A request is forwarded and its response waits in a goroutine to be stored; a DELETE for the same
  URI is forwarded and succeeds, and its goroutine invalidates the URI; only then the first
  goroutine runs.
\<close>

definition delete_origin :: "nat \<Rightarrow> request \<Rightarrow> origin_reply" where
  "delete_origin n req = (if req_method req = ''DELETE'' then Reply 204 [] [] True else demo_origin n req)"

definition race_env :: env where
  "race_env = demo_env delete_origin"

definition race_cache :: AlwaysCache where
  "race_cache = demo_cache True"

definition serve_once :: "string \<Rightarrow> system \<Rightarrow> client_writer go_result \<times> system" where
  "serve_once method = run (ServeHTTP race_cache race_env new_client (demo_request method []))"

definition task_once :: "nat \<Rightarrow> system \<Rightarrow> unit go_result \<times> system" where
  "task_once i s = run (run_task race_cache race_env (st_tasks s ! i))
     (s\<lparr>st_tasks := take i (st_tasks s) @ drop (Suc i) (st_tasks s)\<rparr>)"

text \<open>The run, with what has to be known of it.\<close>

lemma race_run:
  "let (x1, s1) = serve_once ''GET'' start;
       (x2, s2) = serve_once ''DELETE'' s1;
       (x3, s3) = task_once 1 s2;
       (x4, s4) = task_once 0 s3;
       (x5, s5) = serve_once ''GET'' s4
   in (case x1 of Returns w \<Rightarrow> True | Panic \<Rightarrow> False) \<and> st_sent s1 \<noteq> st_sent start
      \<and> (case x2 of Returns w \<Rightarrow> map_option fst (cw_sent w) = Some 204 | Panic \<Rightarrow> False)
      \<and> st_sent s2 \<noteq> st_sent s1
      \<and> length (st_tasks s2) = 2 \<and> x3 = Returns () \<and> length (st_tasks s3) = 1 \<and> x4 = Returns ()
      \<and> st_tick s1 < st_tick s4 \<and> (case x5 of Returns w \<Rightarrow> cw_body w = ''hello'' | Panic \<Rightarrow> False) \<and> st_sent s5 = st_sent s4"
  by code_simp


lemma case_Returns: "(case x of Returns w \<Rightarrow> P w | Panic \<Rightarrow> False) \<longleftrightarrow> (\<exists>w. x = Returns w \<and> P w)"
  by (cases x) auto

lemma reachable_serve_once:
  assumes "reachable race_cache race_env c" and "serve_once method (mc_sys c) = (x, s)"
  shows "reachable race_cache race_env (c\<lparr>mc_sys := s, mc_answers := mc_answers c @
     [(demo_request method [], st_tick (mc_sys c), st_sent s \<noteq> st_sent (mc_sys c), x)]\<rparr>)"
  using assms unfolding serve_once_def by (rule serve_uninterrupted)

lemma reachable_task_once:
  assumes "reachable race_cache race_env c" and "i < length (st_tasks (mc_sys c))"
    and "task_once i (mc_sys c) = (Returns x, s)"
  shows "reachable race_cache race_env (c\<lparr>mc_sys := s\<rparr>)"
proof (rule task_uninterrupted [OF assms(1)])
  show "st_tasks (mc_sys c) = take i (st_tasks (mc_sys c)) @ st_tasks (mc_sys c) ! i # drop (Suc i) (st_tasks (mc_sys c))"
    using assms(2) by (rule id_take_nth_drop)
qed (use assms(3) in \<open>simp add: task_once_def\<close>)


end
