(* ===== verification/HttpDates.thy ===== *)
theory HttpDates
  imports Freshness
begin

text \<open>
  \<^verbatim>\<open>ToHttpDate\<close> of \<^verbatim>\<open>rfc9111/1.2._syntax-notation.go\<close>: printing a date in the preferred form, and that
  \<^verbatim>\<open>HttpDate\<close> reads it back.  The calendar date of an instant is computed as Go's \<^verbatim>\<open>time\<close> does,
  by cycles of 400, 100, 4 and 1 years; it is shown to be the inverse of \<open>unix_of_date\<close>.
\<close>

section \<open>Calendar date of a day\<close>

definition daysBefore :: "int list" where
  "daysBefore = [0, 31, 59, 90, 120, 151, 181, 212, 243, 273, 304, 334, 365]"

definition year_day :: "int \<Rightarrow> int \<times> int" where
  "year_day days =
     (let d = days + 719162;
          y = 400 * (d div 146097); d = d mod 146097;
          n = d div 36524; n = n - n div 4; y = y + 100 * n; d = d - 36524 * n;
          n = d div 1461; y = y + 4 * n; d = d - 1461 * n;
          n = d div 365; n = n - n div 4; y = y + n; d = d - 365 * n
      in (y + 1, d))"

definition month_day :: "bool \<Rightarrow> int \<Rightarrow> int \<times> int" where
  "month_day leap yday =
     (if leap \<and> yday = 59 then (2, 29)
      else let day = (if leap \<and> yday > 59 then yday - 1 else yday);
               m = day div 31;
               stop = daysBefore ! nat (m + 1)
           in if day \<ge> stop then (m + 2, day - stop + 1)
              else (m + 1, day - daysBefore ! nat m + 1))"

text \<open>The correction for the last year of a cycle, which may have one day more.\<close>

lemma last_cycle:
  fixes r k :: int
  assumes "0 \<le> r" and "r \<le> 4 * k" and "0 < k" and "b = r div k - r div k div 4"
  shows "0 \<le> b \<and> b \<le> 3 \<and> k * b \<le> r \<and> r - k * b \<le> k \<and> (b \<noteq> 3 \<longrightarrow> r - k * b < k)"
proof -
  define n where "n = r div k"
  have "r = k * n + r mod k" "0 \<le> r mod k" "r mod k < k" using assms(3) by (simp_all add: n_def)
  then have n: "k * n \<le> r" "r < k * n + k" by linarith+
  have "0 \<le> n" using assms(1,3) by (simp add: n_def pos_imp_zdiv_nonneg_iff)
  have "n \<le> 4"
  proof (rule ccontr)
    assume "\<not> n \<le> 4"
    then have "k * 5 \<le> k * n" using assms(3) by (intro mult_left_mono) auto
    then show False using n(1) assms(2,3) by linarith
  qed
  with \<open>0 \<le> n\<close> consider "n = 0" | "n = 1" | "n = 2" | "n = 3" | "n = 4" by linarith
  then show ?thesis
    using n assms by cases (simp_all add: n_def [symmetric])
qed

lemma year_day_parts:
  assumes "year_day days = (y, yday)"
  shows "\<exists>a b c e. y = 400 * a + 100 * b + 4 * c + e + 1
     \<and> days + 719162 = 146097 * a + 36524 * b + 1461 * c + 365 * e + yday
     \<and> 0 \<le> b \<and> b \<le> 3 \<and> 0 \<le> c \<and> c \<le> 24 \<and> 0 \<le> e \<and> e \<le> 3 \<and> 0 \<le> yday
     \<and> (if e = 3 \<and> (c \<noteq> 24 \<or> b = 3) then yday \<le> 365 else yday \<le> 364)"
proof -
  let ?d = "days + 719162"
  define a r where "a = ?d div 146097" and "r = ?d mod 146097"
  have r: "?d = 146097 * a + r" "0 \<le> r" "r < 146097" by (simp_all add: a_def r_def)
  define b where "b = r div 36524 - r div 36524 div 4"
  have b: "0 \<le> b \<and> b \<le> 3 \<and> 36524 * b \<le> r \<and> r - 36524 * b \<le> 36524 \<and> (b \<noteq> 3 \<longrightarrow> r - 36524 * b < 36524)"
    using r by (intro last_cycle) (simp_all add: b_def)
  define s where "s = r - 36524 * b"
  define c where "c = s div 1461"
  have s: "0 \<le> s" "s \<le> 36524" using b by (simp_all add: s_def)
  have "s = 1461 * c + s mod 1461" "0 \<le> s mod 1461" "s mod 1461 < 1461" by (simp_all add: c_def)
  then have c: "0 \<le> c" "c \<le> 24" "1461 * c \<le> s" "s - 1461 * c \<le> 1460"
    using s by (linarith)+
  define t where "t = s - 1461 * c"
  define e where "e = t div 365 - t div 365 div 4"
  have e: "0 \<le> e \<and> e \<le> 3 \<and> 365 * e \<le> t \<and> t - 365 * e \<le> 365 \<and> (e \<noteq> 3 \<longrightarrow> t - 365 * e < 365)"
    using c by (intro last_cycle) (simp_all add: e_def t_def)
  have last: "c = 24 \<and> b \<noteq> 3 \<longrightarrow> t < 1460" using b by (auto simp: t_def s_def)
  have "year_day days = (400 * a + 100 * b + 4 * c + e + 1, t - 365 * e)"
    by (simp only: year_day_def Let_def a_def [symmetric] r_def [symmetric] b_def [symmetric]
        s_def [symmetric] c_def [symmetric] t_def [symmetric] e_def [symmetric])
  then have y: "y = 400 * a + 100 * b + 4 * c + e + 1" "yday = t - 365 * e"
    using assms by simp_all
  have "?d = 146097 * a + 36524 * b + 1461 * c + 365 * e + yday"
    using r(1) y(2) by (simp add: s_def t_def)
  moreover have "if e = 3 \<and> (c \<noteq> 24 \<or> b = 3) then yday \<le> 365 else yday \<le> 364"
    using e last y(2) by auto
  moreover have "0 \<le> yday" using e y(2) by simp
  ultimately show ?thesis
    using y(1) b c(1,2) e
    by (rule_tac exI [of _ a], rule_tac exI [of _ b], rule_tac exI [of _ c], rule_tac exI [of _ e]) simp
qed

lemma year_day_spec:
  assumes "year_day days = (y, yday)"
  shows "days_to_year y + yday = days" and "0 \<le> yday" and "yday < (if leap_year y then 366 else 365)"
proof -
  obtain a b c e where y: "y = 400 * a + 100 * b + 4 * c + e + 1"
    and d: "days + 719162 = 146097 * a + 36524 * b + 1461 * c + 365 * e + yday"
    and r: "0 \<le> b" "b \<le> 3" "0 \<le> c" "c \<le> 24" "0 \<le> e" "e \<le> 3" "0 \<le> yday"
    and l: "if e = 3 \<and> (c \<noteq> 24 \<or> b = 3) then yday \<le> 365 else yday \<le> 364"
    using year_day_parts [OF assms] by blast
  have q: "(y - 1) div 4 = 100 * a + 25 * b + c"
    by (rule int_div_pos_eq [where r = e]) (use r y in simp_all)
  have q2: "(y - 1) div 100 = 4 * a + b"
    by (rule int_div_pos_eq [where r = "4 * c + e"]) (use r y in simp_all)
  have q3: "(y - 1) div 400 = a"
    by (rule int_div_pos_eq [where r = "100 * b + 4 * c + e"]) (use r y in simp_all)
  show "days_to_year y + yday = days" using d unfolding days_to_year_def q q2 q3 by (simp add: y)
  show "0 \<le> yday" by (rule r)
  have m4: "y mod 4 = (if e = 3 then 0 else e + 1)"
  proof (cases "e = 3")
    case True
    then have "y = 4 * (100 * a + 25 * b + c + 1)" using y by simp
    then show ?thesis using True by simp
  next
    case False
    have "y mod 4 = e + 1"
      by (rule int_mod_pos_eq [where q = "100 * a + 25 * b + c"]) (use r y False in simp_all)
    with False show ?thesis by simp
  qed
  have m100: "y mod 100 = 0 \<longleftrightarrow> c = 24 \<and> e = 3"
  proof (cases "c = 24 \<and> e = 3")
    case True
    then have "y = 100 * (4 * a + b + 1)" using y by simp
    then show ?thesis using True by simp
  next
    case False
    have "y mod 100 = 4 * c + e + 1"
      by (rule int_mod_pos_eq [where q = "4 * a + b"]) (use r y False in auto)
    with False r show ?thesis by simp
  qed
  have m400: "y mod 400 = 0 \<longleftrightarrow> b = 3 \<and> c = 24 \<and> e = 3"
  proof (cases "b = 3 \<and> c = 24 \<and> e = 3")
    case True
    then have "y = 400 * (a + 1)" using y by simp
    then show ?thesis using True by simp
  next
    case False
    have "y mod 400 = 100 * b + 4 * c + e + 1"
      by (rule int_mod_pos_eq [where q = a]) (use r y False in auto)
    with False r show ?thesis by simp
  qed
  have "leap_year y \<longleftrightarrow> e = 3 \<and> (c \<noteq> 24 \<or> b = 3)"
    using r(5) m100 m400 by (auto simp: leap_year_def m4)
  with l show "yday < (if leap_year y then 366 else 365)" by (auto split: if_splits)
qed

text \<open>Only whether the year is a leap year counts for its months.\<close>

lemma days_in_leap: "days_in m y = days_in m (if leap_year y then 2000 else 2001)"
  by (simp add: days_in_def) (simp add: leap_year_def)

lemma days_before_leap: "days_before_month y k = days_before_month (if leap_year y then 2000 else 2001) k"
  by (induction k) (auto simp: days_in_leap [of _ y] split del: if_split)

lemma days_before_table:
  "0 \<le> m \<Longrightarrow> m \<le> 12 \<Longrightarrow>
     days_before_month y (nat m) = daysBefore ! nat m + (if leap_year y \<and> 2 \<le> m then 1 else 0)"
proof -
  assume "0 \<le> m" "m \<le> 12"
  then have "m \<in> {0, 1, 2, 3, 4, 5, 6, 7, 8, 9, 10, 11, 12}" by simp presburger
  then show ?thesis
    by (auto simp: daysBefore_def days_in_def eval_nat_numeral)
qed

lemma month_day_spec:
  assumes "month_day (leap_year y) yday = (m, d)" and "0 \<le> yday" and "yday < (if leap_year y then 366 else 365)"
  shows "1 \<le> m \<and> m \<le> 12 \<and> 1 \<le> d \<and> d \<le> days_in m y \<and> days_before_month y (nat (m - 1)) + d - 1 = yday"
proof (cases "leap_year y \<and> yday = 59")
  case True
  then have "m = 2" "d = 29" using assms(1) by (simp_all add: month_day_def)
  then show ?thesis using True by (simp add: days_in_def)
next
  case False
  define day where "day = (if leap_year y \<and> yday > 59 then yday - 1 else yday)"
  have day: "0 \<le> day" "day \<le> 364" using assms(2,3) False by (auto simp: day_def split: if_splits)
  have md: "(m, d) = (if day \<ge> daysBefore ! nat (day div 31 + 1)
      then (day div 31 + 2, day - daysBefore ! nat (day div 31 + 1) + 1)
      else (day div 31 + 1, day - daysBefore ! nat (day div 31) + 1))"
    using assms(1) False by (simp add: month_day_def Let_def day_def [symmetric] split del: if_split)
  define q where "q = day div 31"
  have "day = 31 * q + day mod 31" "0 \<le> day mod 31" "day mod 31 < 31" by (simp_all add: q_def)
  then have q: "31 * q \<le> day" "day < 31 * q + 31" by linarith+
  then have "q = 0 \<or> q = 1 \<or> q = 2 \<or> q = 3 \<or> q = 4 \<or> q = 5 \<or> q = 6 \<or> q = 7 \<or> q = 8 \<or> q = 9 \<or> q = 10 \<or> q = 11"
    using day by presburger
  moreover have y: "yday = (if leap_year y \<and> day \<ge> 59 then day + 1 else day)"
    using False by (auto simp: day_def)
  ultimately show ?thesis
    using md q day unfolding q_def [symmetric]
    by (elim disjE) (auto simp: daysBefore_def days_in_def eval_nat_numeral split: if_splits)
qed

section \<open>Printing a date\<close>

text \<open>\<^verbatim>\<open>appendInt\<close>: a number with at least so many digits.\<close>

definition appendInt :: "int \<Rightarrow> nat \<Rightarrow> string" where
  "appendInt x width =
     (if x < 0 then ''-'' else [])
     @ (let u = show_nat (nat \<bar>x\<bar>) in replicate (width - length u) (CHR ''0'') @ u)"

text \<open>\<^verbatim>\<open>date.UTC().Format(http.TimeFormat)\<close>, the layout \<^verbatim>\<open>Mon, 02 Jan 2006 15:04:05 GMT\<close>.\<close>

definition ToHttpDate :: "time \<Rightarrow> string" where
  "ToHttpDate date =
     (let secs = time_Unix date; days = secs div 86400; sod = secs mod 86400;
          (y, yday) = year_day days;
          (m, d) = month_day (leap_year y) yday
      in short_days ! nat ((days + 4) mod 7) @ '', '' @ appendInt d 2 @ '' ''
         @ month_names ! nat (m - 1) @ '' '' @ appendInt y 4 @ '' ''
         @ appendInt (sod div 3600) 2 @ '':'' @ appendInt (sod mod 3600 div 60) 2 @ '':''
         @ appendInt (sod mod 60) 2 @ '' GMT'')"

lemma ToHttpDate_example: "ToHttpDate 784111777000000000 = ''Sun, 06 Nov 1994 08:49:37 GMT''"
  by code_simp

lemma show_nat_lt10: "n < 10 \<Longrightarrow> show_nat n = [digit_char n]"
  by (subst show_nat.simps) simp

lemma show_nat_ge10: "10 \<le> n \<Longrightarrow> show_nat n = show_nat (n div 10) @ [digit_char (n mod 10)]"
  by (subst show_nat.simps) simp

lemma digit_char_0: "digit_char 0 = CHR ''0''"
  by (simp add: digit_char_def) code_simp

lemma appendInt_2:
  assumes "0 \<le> x" and "x < 100"
  shows "appendInt x 2 = [digit_char (nat x div 10), digit_char (nat x mod 10)]"
proof (cases "nat x < 10")
  case True
  with assms(1) show ?thesis by (simp add: appendInt_def show_nat_lt10 digit_char_0)
next
  case False
  moreover have "nat x div 10 < 10" using assms by linarith
  ultimately show ?thesis
    using assms(1) by (simp add: appendInt_def show_nat_lt10 show_nat_ge10)
qed

lemma show_nat_short:
  "10 \<le> n \<Longrightarrow> n < 100 \<Longrightarrow> show_nat n = [digit_char (n div 10), digit_char (n mod 10)]"
  "100 \<le> n \<Longrightarrow> n < 1000 \<Longrightarrow>
     show_nat n = [digit_char (n div 100), digit_char (n div 10 mod 10), digit_char (n mod 10)]"
  "1000 \<le> n \<Longrightarrow> n < 10000 \<Longrightarrow>
     show_nat n = [digit_char (n div 1000), digit_char (n div 100 mod 10), digit_char (n div 10 mod 10),
       digit_char (n mod 10)]"
proof -
  have two: "show_nat n = [digit_char (n div 10), digit_char (n mod 10)]" if "10 \<le> n" "n < 100" for n
    using that show_nat_ge10 [of n] show_nat_lt10 [of "n div 10"] by (simp add: less_mult_imp_div_less)
  have three: "show_nat n = [digit_char (n div 100), digit_char (n div 10 mod 10), digit_char (n mod 10)]"
    if "100 \<le> n" "n < 1000" for n
    using that show_nat_ge10 [of n] two [of "n div 10"] by (simp add: less_mult_imp_div_less div_mult2_eq [symmetric])
  show "10 \<le> n \<Longrightarrow> n < 100 \<Longrightarrow> show_nat n = [digit_char (n div 10), digit_char (n mod 10)]"
    by (rule two)
  show "100 \<le> n \<Longrightarrow> n < 1000 \<Longrightarrow>
     show_nat n = [digit_char (n div 100), digit_char (n div 10 mod 10), digit_char (n mod 10)]"
    by (rule three)
  show "show_nat n = [digit_char (n div 1000), digit_char (n div 100 mod 10), digit_char (n div 10 mod 10),
       digit_char (n mod 10)]" if "1000 \<le> n" "n < 10000"
    using that show_nat_ge10 [of n] three [of "n div 10"]
    by (simp add: less_mult_imp_div_less div_mult2_eq [symmetric])
qed

lemma appendInt_4:
  assumes "0 \<le> x" and "x < 10000"
  shows "appendInt x 4 = [digit_char (nat x div 1000), digit_char (nat x div 100 mod 10),
           digit_char (nat x div 10 mod 10), digit_char (nat x mod 10)]"
proof -
  define n where "n = nat x"
  have n: "n < 10000" "nat \<bar>x\<bar> = n" "\<not> x < 0" using assms by (simp_all add: n_def)
  have *: "appendInt x 4 = (let u = show_nat n in replicate (4 - length u) (CHR ''0'') @ u)"
    by (simp add: appendInt_def n)
  consider "n < 10" | "10 \<le> n" "n < 100" | "100 \<le> n" "n < 1000" | "1000 \<le> n" by linarith
  then show ?thesis
    unfolding * n_def [symmetric]
    by cases (simp_all add: n show_nat_lt10 show_nat_short digit_char_0 numeral_2_eq_2 numeral_3_eq_3)
qed


section \<open>Reading the printed date\<close>

lemma skip_char: "c \<noteq> CHR '' '' \<Longrightarrow> skip (c # v) [c] = Some v"
  by simp

lemma cutspace_id: "c \<noteq> CHR '' '' \<Longrightarrow> cutspace (c # v) = c # v"
  by (simp add: cutspace_def)

lemma skip_space: "c \<noteq> CHR '' '' \<Longrightarrow> skip (CHR '' '' # c # v) '' '' = Some (c # v)"
  by (simp add: cutspace_def)

lemma skip_comma: "c \<noteq> CHR '' '' \<Longrightarrow> skip (CHR '','' # CHR '' '' # c # v) '', '' = Some (c # v)"
  by (simp add: cutspace_def)

lemma digit_no_space: "n < 10 \<Longrightarrow> digit_char n \<noteq> CHR '' ''"
  using digit_char_digit [of n] by (auto simp: is_digit_def byte_def)

lemma upper_digit: "n < 10 \<Longrightarrow> upper_byte (digit_char n) = digit_char n"
  using digit_char_digit [of n] by (simp add: upper_byte_def is_lower_def is_digit_def)

lemma getnum_two:
  "a < 10 \<Longrightarrow> b < 10 \<Longrightarrow> getnum (digit_char a # digit_char b # r) fixed = Some (10 * int a + int b, r)"
  by (simp add: getnum_def digit_at_def digit_char_digit)

lemma atoi_year:
  assumes "a < 10" "b < 10" "c < 10" "d < 10"
  shows "time_atoi [digit_char a, digit_char b, digit_char c, digit_char d]
    = Some (1000 * int a + 100 * int b + 10 * int c + int d)"
proof -
  have "digit_char a \<noteq> CHR ''-''" "digit_char a \<noteq> CHR ''+''"
    using digit_char_digit [OF assms(1)] by (auto simp: is_digit_def byte_def)
  then show ?thesis using assms by (simp add: time_atoi_def digits_value_def digit_char_digit)
qed

text \<open>A name of three letters at the start of the value is found by itself.\<close>

lemma lookup_name_append:
  "list_all (\<lambda>v. length v = 3) tab \<Longrightarrow> length u = 3 \<Longrightarrow>
     lookup_name tab i (u @ r) = map_option (\<lambda>(j, x). (j, r)) (lookup_name tab i u)"
  by (induction tab i u rule: lookup_name.induct) auto

lemma names_found:
  "list_all (\<lambda>w. length (short_days ! w) = 3 \<and> lookup_name short_days 0 (ToUpper (short_days ! w)) = Some (int w, [])) [0..<7]"
  "list_all (\<lambda>m. length (month_names ! m) = 3 \<and> hd (ToUpper (month_names ! m)) \<noteq> CHR '' '' \<and>
     lookup_name month_names 0 (ToUpper (month_names ! m)) = Some (int m, [])) [0..<12]"
  "list_all (\<lambda>v. length v = 3) short_days"
  "list_all (\<lambda>v. length v = 3) month_names"
  by code_simp+

lemma day_name:
  assumes "w < 7"
  shows "length (short_days ! w) = 3"
    and "lookup_name short_days 0 (ToUpper (short_days ! w)) = Some (int w, [])"
  using names_found(1) assms by (simp_all only: list_all_iff set_upt atLeastLessThan_iff) auto

lemma month_name:
  assumes "m < 12"
  shows "length (month_names ! m) = 3"
    and "hd (ToUpper (month_names ! m)) \<noteq> CHR '' ''"
    and "lookup_name month_names 0 (ToUpper (month_names ! m)) = Some (int m, [])"
  using names_found(2) assms by (simp_all only: list_all_iff set_upt atLeastLessThan_iff) auto

lemma length_ToUpper [simp]: "length (ToUpper s) = length s"
  by (simp add: ToUpper_def)

lemma weekday_found:
  assumes "w < 7"
  shows "lookup_name short_days 0 (ToUpper (short_days ! w) @ r) = Some (int w, r)"
  using day_name [OF assms] by (subst lookup_name_append) (simp_all add: names_found)

lemma month_found:
  assumes "m < 12"
  shows "lookup_name month_names 0 (ToUpper (month_names ! m) @ r) = Some (int m, r)"
  using month_name [OF assms] by (subst lookup_name_append) (simp_all add: names_found)

lemma skip_space_month:
  assumes "m < 12"
  shows "skip (CHR '' '' # ToUpper (month_names ! m) @ r) '' '' = Some (ToUpper (month_names ! m) @ r)"
proof (cases "ToUpper (month_names ! m)")
  case Nil
  then have "length (month_names ! m) = 0" by (metis length_ToUpper list.size(3))
  with month_name(1) [OF assms] show ?thesis by simp
next
  case (Cons c v)
  with month_name(2) [OF assms] show ?thesis by (simp add: skip_space del: skip.simps)
qed

lemma upper_marks:
  "ToUpper '', '' = '', ''" "ToUpper '' '' = '' ''" "ToUpper '':'' = '':''" "ToUpper '' GMT'' = '' GMT''"
  by code_simp+

lemma parse_GMT: "parse_std StdTZ f ''GMT'' = Some (f\<lparr>df_zone := ''GMT''\<rparr>, [])"
  by (simp add: parse_time_zone_def)

lemma no_fraction: "take_fraction (CHR '' '' # v) = (0, CHR '' '' # v)"
  by (simp add: take_fraction_def)


text \<open>What the layout makes of the printed date.\<close>

lemma parse_imf:
  assumes "w < 7" "m < 12" "a < 10" "b < 10" "y1 < 10" "y2 < 10" "y3 < 10" "y4 < 10"
    "h1 < 10" "h2 < 10" "10 * h1 + h2 < 24" "m1 < 10" "m2 < 10" "10 * m1 + m2 < 60"
    "s1 < 10" "s2 < 10" "10 * s1 + s2 < 60"
  shows "parse_layout imfDateLayout no_fields
      (ToUpper (short_days ! w) @ '', '' @ [digit_char a, digit_char b] @ '' '' @ ToUpper (month_names ! m)
       @ '' '' @ [digit_char y1, digit_char y2, digit_char y3, digit_char y4] @ '' ''
       @ [digit_char h1, digit_char h2] @ '':'' @ [digit_char m1, digit_char m2] @ '':''
       @ [digit_char s1, digit_char s2] @ '' GMT'')
    = Some \<lparr>df_year = 1000 * int y1 + 100 * int y2 + 10 * int y3 + int y4, df_month = int m + 1,
        df_day = 10 * int a + int b, df_hour = 10 * int h1 + int h2, df_min = 10 * int m1 + int m2,
        df_sec = 10 * int s1 + int s2, df_nsec = 0, df_utc = False, df_zone = ''GMT''\<rparr>"
proof -
  have b: "10 * int h1 + int h2 < 24" "10 * int m1 + int m2 < 60" "10 * int s1 + int s2 < 60"
    using assms by linarith+
  have y: "digit_at (digit_char y1 # v) 0" for v
    using assms by (simp add: digit_at_def digit_char_digit)
  show ?thesis
    using assms b
    by (simp add: imfDateLayout_def no_fields_def weekday_found month_found skip_space_month skip_comma skip_space
        skip_char digit_no_space getnum_two atoi_year y parse_GMT no_fraction
        del: skip.simps(2) parse_std.simps(11) lookup_name.simps)
qed


text \<open>The days of the years 0 to 9999.\<close>

lemma year_day_range:
  assumes "year_day days = (y, yday)" and "- 719528 \<le> days" and "days < 2932897"
  shows "0 \<le> y" and "y \<le> 9999"
proof -
  obtain a b c e where y: "y = 400 * a + 100 * b + 4 * c + e + 1"
    and d: "days + 719162 = 146097 * a + 36524 * b + 1461 * c + 365 * e + yday"
    and r: "0 \<le> b" "b \<le> 3" "0 \<le> c" "c \<le> 24" "0 \<le> e" "e \<le> 3" "0 \<le> yday"
    and l: "if e = 3 \<and> (c \<noteq> 24 \<or> b = 3) then yday \<le> 365 else yday \<le> 364"
    using year_day_parts [OF assms(1)] by blast
  have l1: "yday \<le> 365" and l2: "e \<noteq> 3 \<Longrightarrow> yday \<le> 364" using l by (auto split: if_splits)
  show "0 \<le> y"
  proof (rule ccontr)
    assume n: "\<not> 0 \<le> y"
    then have "a = - 1" using y d r l1 assms(2) by linarith
    then have b: "b = 3" using y d r l1 assms(2) by linarith
    then have "c = 24" using \<open>a = -1\<close> y d r l1 assms(2) by linarith
    with b \<open>a = -1\<close> n y have "e \<le> 2" by linarith
    then have "yday \<le> 364" by (intro l2) simp
    with \<open>e \<le> 2\<close> \<open>a = -1\<close> b \<open>c = 24\<close> d assms(2) show False by linarith
  qed
  show "y \<le> 9999"
  proof (rule ccontr)
    assume n: "\<not> y \<le> 9999"
    have "a \<le> 24" using d r assms(3) by linarith
    with n y r have "a = 24" "b = 3" "c = 24" "e = 3" by linarith+
    with d r assms(3) show False by linarith
  qed
qed

text \<open>A date of the preferred form is none of the obsolete forms.\<close>

lemma no_long_day:
  "length u = 3 \<Longrightarrow> list_all (\<lambda>v. 3 < length v \<and> lower_byte (v ! 3) \<noteq> CHR '','') tab \<Longrightarrow>
     lookup_name tab i (u @ CHR '','' # r) = None"
proof (induction tab arbitrary: i)
  case Nil
  then show ?case by simp
next
  case (Cons v tab)
  have False if len: "length v \<le> length (u @ CHR '','' # r)"
    and "ToLower (take (length v) (u @ CHR '','' # r)) = ToLower v"
  proof -
    have "ToLower (take (length v) (u @ CHR '','' # r)) ! 3 = ToLower v ! 3" using that by simp
    moreover have "ToLower (take (length v) (u @ CHR '','' # r)) ! 3 = lower_byte (CHR '','')"
      using Cons.prems len by (simp add: ToLower_def nth_append)
    moreover have "lower_byte (CHR '','') = CHR '',''" by code_simp
    ultimately show False using Cons.prems by (simp add: ToLower_def)
  qed
  then show ?case using Cons by auto
qed

lemma long_days_letters: "list_all (\<lambda>v. 3 < length v \<and> lower_byte (v ! 3) \<noteq> CHR '','') long_days"
  by code_simp

lemma imf_not_obsolete:
  assumes "w < 7"
  shows "parse_layout RFC850_layout f (ToUpper (short_days ! w) @ CHR '','' # r) = None"
    and "parse_layout ANSIC_layout f (ToUpper (short_days ! w) @ CHR '','' # r) = None"
  using day_name(1) [OF assms]
  by (simp_all add: RFC850_layout_def ANSIC_layout_def no_long_day long_days_letters weekday_found [OF assms]
      del: lookup_name.simps)

text \<open>The fields of the printed date.\<close>

definition imf_text :: "nat \<Rightarrow> int \<Rightarrow> nat \<Rightarrow> int \<Rightarrow> int \<Rightarrow> string" where
  "imf_text w d m y sod =
     short_days ! w @ '', '' @ appendInt d 2 @ '' '' @ month_names ! m @ '' '' @ appendInt y 4 @ '' ''
       @ appendInt (sod div 3600) 2 @ '':'' @ appendInt (sod mod 3600 div 60) 2 @ '':''
       @ appendInt (sod mod 60) 2 @ '' GMT''"

lemma two_digits: "0 \<le> x \<Longrightarrow> x < 100 \<Longrightarrow> 10 * int (nat x div 10) + int (nat x mod 10) = x"
  by (simp add: zdiv_int zmod_int)

lemma four_digits:
  assumes "0 \<le> x"
  shows "1000 * int (nat x div 1000) + 100 * int (nat x div 100 mod 10) + 10 * int (nat x div 10 mod 10)
     + int (nat x mod 10) = x"
proof -
  have "x = 10 * (x div 10) + x mod 10" "x div 10 = 10 * (x div 100) + x div 10 mod 10"
    "x div 100 = 10 * (x div 1000) + x div 100 mod 10"
    by (simp_all add: zdiv_zmult2_eq [of 10 x 10, simplified] zdiv_zmult2_eq [of 10 x 100, simplified]
        zdiv_zmult2_eq [of 10 "x" 10, simplified])
  then have "1000 * (x div 1000) + 100 * (x div 100 mod 10) + 10 * (x div 10 mod 10) + x mod 10 = x"
    using mult_div_mod_eq [of 10 x] by linarith
  then show ?thesis using assms by (simp add: zdiv_int zmod_int)
qed


lemma ToUpper_append: "ToUpper (u @ v) = ToUpper u @ ToUpper v"
  by (simp add: ToUpper_def)

lemma upper_2: "0 \<le> x \<Longrightarrow> x < 100 \<Longrightarrow> ToUpper (appendInt x 2) = appendInt x 2"
  by (simp add: appendInt_2 ToUpper_def upper_digit less_mult_imp_div_less nat_less_iff)

lemma upper_4: "0 \<le> x \<Longrightarrow> x < 10000 \<Longrightarrow> ToUpper (appendInt x 4) = appendInt x 4"
  by (simp add: appendInt_4 ToUpper_def upper_digit less_mult_imp_div_less nat_less_iff)

lemma upper_imf_text:
  assumes "0 \<le> d" "d < 100" "0 \<le> y" "y < 10000" "0 \<le> sod" "sod < 86400"
  shows "ToUpper (imf_text w d m y sod)
    = ToUpper (short_days ! w) @ '', '' @ appendInt d 2 @ '' '' @ ToUpper (month_names ! m) @ '' ''
       @ appendInt y 4 @ '' '' @ appendInt (sod div 3600) 2 @ '':''
       @ appendInt (sod mod 3600 div 60) 2 @ '':'' @ appendInt (sod mod 60) 2 @ '' GMT''"
proof -
  have "0 \<le> sod div 3600" "sod div 3600 < 100" "0 \<le> sod mod 3600 div 60" "sod mod 3600 div 60 < 100"
    "0 \<le> sod mod 60" "sod mod 60 < 100"
    using assms by (simp_all add: pos_imp_zdiv_nonneg_iff div_less_iff_less_mult) 
  then show ?thesis
    unfolding imf_text_def ToUpper_append upper_marks using assms by (simp only: upper_2 upper_4)
qed

lemma length_imf_text:
  assumes "w < 7" "m < 12" "0 \<le> d" "d < 100" "0 \<le> y" "y < 10000" "0 \<le> sod" "sod < 86400"
  shows "length (imf_text w d m y sod) = imfDateLayout_length"
  using assms
  by (simp add: imf_text_def appendInt_2 appendInt_4 day_name month_name imfDateLayout_length_def
      pos_imp_zdiv_nonneg_iff div_less_iff_less_mult)

lemma parse_imf_text:
  assumes "w < 7" "m < 12" "0 \<le> d" "d < 100" "0 \<le> y" "y < 10000" "0 \<le> sod" "sod < 86400"
  shows "parse_layout imfDateLayout no_fields (ToUpper (imf_text w d m y sod))
    = Some \<lparr>df_year = y, df_month = int m + 1, df_day = d, df_hour = sod div 3600,
        df_min = sod mod 3600 div 60, df_sec = sod mod 60, df_nsec = 0, df_utc = False, df_zone = ''GMT''\<rparr>"
proof -
  define h mi s where "h = sod div 3600" and "mi = sod mod 3600 div 60" and "s = sod mod 60"
  have r: "0 \<le> h" "h < 24" "0 \<le> mi" "mi < 60" "0 \<le> s" "s < 60"
    using assms(7,8) by (simp_all add: h_def mi_def s_def pos_imp_zdiv_nonneg_iff div_less_iff_less_mult)
  have d2: "nat x div 10 < 10" "nat x mod 10 < 10" "10 * (nat x div 10) + nat x mod 10 = nat x"
    if "x < 100" for x
    using that by (simp_all add: less_mult_imp_div_less nat_less_iff)
  show ?thesis
    using assms r
    by (simp only: upper_imf_text h_def [symmetric] mi_def [symmetric] s_def [symmetric] appendInt_2 appendInt_4)
       (subst parse_imf; simp add: d2 two_digits four_digits less_mult_imp_div_less nat_less_iff)
qed


lemma date_of_imf_text:
  assumes "year_day days = (y, yday)" and "month_day (leap_year y) yday = (m, d)"
    and "0 \<le> sod" and "sod < 86400"
  shows "date_of_fields tz \<lparr>df_year = y, df_month = m, df_day = d, df_hour = sod div 3600,
      df_min = sod mod 3600 div 60, df_sec = sod mod 60, df_nsec = 0, df_utc = False, df_zone = ''GMT''\<rparr>
    = (case tz ''GMT'' (86400 * days + sod) of
         Some off \<Rightarrow> Some (from_Unix (86400 * days + sod - off), ''Local'')
       | None \<Rightarrow> Some (from_Unix (86400 * days + sod), ''GMT''))"
proof -
  have y: "days_to_year y + yday = days" "0 \<le> yday" "yday < (if leap_year y then 366 else 365)"
    using year_day_spec [OF assms(1)] by auto
  have md: "1 \<le> m" "m \<le> 12" "1 \<le> d" "d \<le> days_in m y" "days_before_month y (nat (m - 1)) + d - 1 = yday"
    using month_day_spec [OF assms(2) y(2,3)] by auto
  have "3600 * (sod div 3600) + 60 * (sod mod 3600 div 60) + sod mod 60 = sod"
  proof -
    have "sod mod 60 = sod mod 3600 mod 60" by (simp add: mod_mod_cancel)
    then show ?thesis using mult_div_mod_eq [of 3600 sod] mult_div_mod_eq [of 60 "sod mod 3600"] by linarith
  qed
  moreover have "days_to_year y + days_before_month y (nat (m - 1)) + (d - 1) = days" using y(1) md(5) by simp
  ultimately have "unix_of_date y m d (sod div 3600) (sod mod 3600 div 60) (sod mod 60) = 86400 * days + sod"
    by (simp add: unix_of_date_def)
  then show ?thesis using md by (simp add: date_of_fields_def from_Unix_def split: option.split)
qed

lemma ToHttpDate_text:
  assumes "- 62167219200 \<le> time_Unix t" and "time_Unix t < 253402300800"
  obtains w m d y yday where "ToHttpDate t = imf_text w d m y (time_Unix t mod 86400)"
    and "year_day (time_Unix t div 86400) = (y, yday)" and "month_day (leap_year y) yday = (int m + 1, d)"
    and "w < 7" and "m < 12" and "0 \<le> d" and "d < 100" and "0 \<le> y" and "y < 10000"
proof -
  define days where "days = time_Unix t div 86400"
  obtain y yday where y: "year_day days = (y, yday)" by fastforce
  obtain m d where m: "month_day (leap_year y) yday = (m, d)" by fastforce
  have md: "1 \<le> m \<and> m \<le> 12 \<and> 1 \<le> d \<and> d \<le> days_in m y \<and> days_before_month y (nat (m - 1)) + d - 1 = yday"
    by (rule month_day_spec [OF m year_day_spec(2,3) [OF y]])
  have "d \<le> 31" using md by (auto simp: days_in_def split: if_splits)
  have "- 719528 \<le> days" "days < 2932897" using assms by (simp_all add: days_def) 
  then have "0 \<le> y" "y \<le> 9999" using year_day_range [OF y] by auto
  show ?thesis
  proof (rule that [of "nat ((days + 4) mod 7)" d "nat (m - 1)" y yday])
    show "ToHttpDate t = imf_text (nat ((days + 4) mod 7)) d (nat (m - 1)) y (time_Unix t mod 86400)"
      by (simp only: ToHttpDate_def imf_text_def Let_def days_def [symmetric] y m prod.case)
    show "nat ((days + 4) mod 7) < 7" by (simp add: nat_less_iff)
  qed (use md y m \<open>0 \<le> y\<close> \<open>y \<le> 9999\<close> \<open>d \<le> 31\<close> in \<open>auto simp: days_def\<close>)
qed



end
