(* ===== verification/Progress.thy ===== *)
theory Progress
  imports Correctness
begin

text \<open>
  How much a handler does: how many steps it takes and how many requests it sends to the origin,
  whatever other threads do between its steps.
\<close>

section \<open>The steps of one action\<close>

text \<open>
  The steps that an action takes one after the other, each from the state that the other threads have
  left, with the states before and after; and what then remains of the action.
\<close>

inductive pursues :: "'a act \<Rightarrow> (system \<times> system) list \<Rightarrow> 'a act \<Rightarrow> bool" where
  stay: "pursues m [] m"
| step: "g s = (m, s') \<Longrightarrow> pursues m h m' \<Longrightarrow> pursues (Step g) ((s, s') # h) m'"

inductive_cases pursues_ConsE: "pursues m (x # h) m'"

definition requests_sent :: "(system \<times> system) list \<Rightarrow> nat" where
  "requests_sent h = sum_list (map (\<lambda>(s, s'). length (st_sent s') - length (st_sent s)) h)"

text \<open>
  An action takes at most \<open>k\<close> steps and sends at most \<open>j\<close> requests; what is left of both, and the
  value it returns, has a property.
\<close>

primrec bounded :: "'a act \<Rightarrow> nat \<Rightarrow> nat \<Rightarrow> (nat \<Rightarrow> nat \<Rightarrow> 'a \<Rightarrow> bool) \<Rightarrow> bool" where
  "bounded (Done r) = (\<lambda>k j Q. \<forall>x. r = Returns x \<longrightarrow> Q k j x)"
| "bounded (Step g) = (\<lambda>k j Q. 0 < k \<and> (\<forall>s. case map_prod bounded id (g s) of
     (continue, s') \<Rightarrow> length (st_sent s') - length (st_sent s) \<le> j
        \<and> continue (k - 1) (j - (length (st_sent s') - length (st_sent s))) Q))"

lemma bounded_Step:
  "bounded (Step g) k j Q \<longleftrightarrow> 0 < k \<and> (\<forall>s. length (st_sent (snd (g s))) - length (st_sent s) \<le> j
     \<and> bounded (fst (g s)) (k - 1) (j - (length (st_sent (snd (g s))) - length (st_sent s))) Q)"
  by (simp add: case_prod_unfold)

lemma bounded_pursues:
  "pursues m h m' \<Longrightarrow> bounded m k j Q \<Longrightarrow> length h \<le> k \<and> requests_sent h \<le> j"
proof (induction arbitrary: k j rule: pursues.induct)
  case (stay m)
  show ?case by (simp add: requests_sent_def)
next
  case (step g s m s' h m')
  let ?d = "length (st_sent s') - length (st_sent s)"
  have "0 < k" "?d \<le> j" "bounded m (k - 1) (j - ?d) Q"
    using step.prems step.hyps(1) unfolding bounded_Step by (metis fst_conv snd_conv)+
  with step.IH [of "k - 1" "j - ?d"] show ?case by (auto simp: requests_sent_def)
qed

lemma bounded_andThen:
  "bounded m k j P \<Longrightarrow> (\<And>k j x. P k j x \<Longrightarrow> bounded (f x) k j Q) \<Longrightarrow> bounded (andThen m f) k j Q"
proof (induction m arbitrary: k j rule: act_induct)
  case (Done r)
  then show ?case by (cases r) simp_all
next
  case (Step g)
  then show ?case unfolding andThen.simps bounded_Step by simp
qed

named_theorems bounds \<open>how much the actions do\<close>

lemma bounded_ret [bounds]: "Q k j x \<Longrightarrow> bounded (ret x) k j Q"
  by (simp add: ret_def)

lemma bounded_panic [bounds]: "bounded panic k j Q"
  by (simp add: panic_def)

lemma bounded_lift_result [bounds]:
  "(\<And>x. r = Returns x \<Longrightarrow> bounded (f x) k j Q) \<Longrightarrow> bounded (andThen (lift_result r) f) k j Q"
  by (cases r) (simp_all add: lift_result_def)

text \<open>An effect that sends nothing is one step.\<close>

lemma bounded_atomic:
  assumes "0 < k" and "\<And>s. st_sent (snd (e s)) = st_sent s"
    and "\<And>s x. fst (e s) = Returns x \<Longrightarrow> bounded (f x) (k - 1) j Q"
  shows "bounded (andThen (atomic e) f) k j Q"
proof (rule bounded_andThen [where P = "\<lambda>k' j' x. k' = k - 1 \<and> j' = j \<and> (\<exists>s. fst (e s) = Returns x)"])
  show "bounded (atomic e) k j (\<lambda>k' j' x. k' = k - 1 \<and> j' = j \<and> (\<exists>s. fst (e s) = Returns x))"
    using assms(1,2) unfolding atomic_def bounded_Step by auto
qed (use assms(3) in blast)

lemma bounded_effects [bounds]:
  "0 < k \<Longrightarrow> (\<And>x. bounded (f x) (k - 1) j Q) \<Longrightarrow> bounded (andThen (time_Now env) f) k j Q"
  "0 < k \<Longrightarrow> (\<And>x. bounded (g x) (k - 1) j Q) \<Longrightarrow> bounded (andThen (spawn t) g) k j Q"
  "0 < k \<Longrightarrow> (\<And>x. bounded (h x) (k - 1) j Q) \<Longrightarrow> bounded (andThen (cache_PutCE env ce) h) k j Q"
  unfolding time_Now_def spawn_def cache_PutCE_def
  by (rule bounded_atomic; simp add: Let_def case_prod_unfold)+

lemma bounded_round_trip [bounds]:
  "0 < k \<Longrightarrow> 0 < j \<Longrightarrow> (\<And>x. bounded (f x) (k - 1) (j - 1) Q) \<Longrightarrow> bounded (andThen (round_trip env req) f) k j Q"
  by (rule bounded_andThen [where P = "\<lambda>k' j' x. k' = k - 1 \<and> j' = j - 1"])
     (simp_all add: round_trip_def atomic_def)

section \<open>What a handler does for a safe request\<close>

abbreviation ends :: "nat \<Rightarrow> nat \<Rightarrow> 'a \<Rightarrow> bool" where
  "ends \<equiv> \<lambda>k j x. True"

lemma bounded_ReverseProxy:
  assumes "0 < k" and "0 < j" and "\<And>i k' x. k - 1 \<le> k' \<Longrightarrow> bounded (f x) k' i Q"
  shows "bounded (andThen (ReverseProxy_ServeHTTP env director modify in_server t w req) f) k j Q"
proof (rule bounded_andThen [where P = "\<lambda>k' i x. k - 1 \<le> k'"])
  let ?P = "\<lambda>k' (i :: nat) (x :: ResponseSaver \<times> client_writer). k - 1 \<le> k'"
  have "bounded (bad_gateway t w) k' i ?P" "bounded (send_reply in_server t w res c) k' i ?P"
    if "k - 1 \<le> k'" for k' i res c
    using that by (simp_all add: bad_gateway_def send_reply_after bounds)
  then show "bounded (ReverseProxy_ServeHTTP env director modify in_server t w req) k j ?P"
    using assms(1,2) unfolding ReverseProxy_ServeHTTP_def Let_def
    by (auto intro!: bounded_round_trip split: origin_reply.splits option.splits)
qed (use assms(3) in blast)

lemma bounded_sendStoredResponse:
  "0 < k \<Longrightarrow> (\<And>w. bounded (f w) (k - 1) j Q) \<Longrightarrow> bounded (andThen (sendStoredResponse env w res ce cs) f) k j Q"
  unfolding sendStoredResponse_answer
  by (rule bounded_andThen [where P = "\<lambda>k' j' x. k' = k - 1 \<and> j' = j"])
     (auto intro!: bounds)

lemma no_updates:
  assumes "\<not> UnsafeRequest r"
  shows "updateIfNeeded a env r res = ret ()"
  using assms by (simp add: updateIfNeeded_def GetInvalidateURIs_def GetCacheUpdates_def lift_Returns ret_then)

lemma bounded_writeCache:
  assumes "4 \<le> k" and "\<And>k' x. bounded (f x) k' j Q"
  shows "bounded (andThen (writeCache a env rw r) f) k j Q"
proof (rule bounded_andThen [where P = "\<lambda>k' j' x. j' = j"])
  show "bounded (writeCache a env rw r) k j (\<lambda>k' j' x. j' = j)"
    using assms(1) unfolding writeCache_def Let_def by (auto intro!: bounds split: sum.splits)
qed (use assms(2) in blast)

lemma bounded_prod: "(\<And>x y. bounded (f x y) k j Q) \<Longrightarrow> bounded (case p of (x, y) \<Rightarrow> f x y) k j Q"
  by (cases p) simp

lemma bounded_if: "bounded m k j Q \<Longrightarrow> bounded n k j Q \<Longrightarrow> bounded (if b then m else n) k j Q"
  by simp

lemma bounded_proxy:
  assumes "\<not> UnsafeRequest r" and "6 \<le> k" and "0 < j"
  shows "bounded (proxy a env w r) k j ends"
proof -
  have t: "bounded (andThen (if b then updateResposeAndLocations a env rw r else spawn t) (\<lambda>_. ret w')) k' i ends"
    if "k - 1 - 1 \<le> k'" for b rw t w' k' i
  proof (cases b)
    case True
    have "bounded (updateResposeAndLocations a env rw r) k' i ends"
      unfolding updateResposeAndLocations_def no_updates [OF assms(1)]
      using that assms(2) by (intro bounded_writeCache bounded_ret TrueI) simp
    with True show ?thesis by (auto intro: bounded_andThen [where P = ends] bounded_ret)
  qed (use that assms(2) in \<open>auto intro!: bounds\<close>)
  show ?thesis
    unfolding proxy_def Let_def using assms(2,3)
    by (intro bounded_effects bounded_ReverseProxy bounded_prod t) simp_all
qed

text \<open>Validating an entry: where the client got no answer yet, the step of the goroutine is left.\<close>

lemma bounded_validation:
  assumes "3 \<le> k" and "0 < j" and "\<And>k' i w. bounded (f (True, w)) k' i Q"
    and "\<And>k' i w. 0 < k' \<Longrightarrow> bounded (f (False, w)) k' i Q"
  shows "bounded (andThen (sendToClientIfValidationFailed a env w r v) f) k j Q"
proof -
  let ?P = "\<lambda>k' (i :: nat) (sent :: bool, w :: client_writer). sent \<or> 0 < k'"
  have "bounded (sendToClientIfValidationFailed a env w r v) k j ?P"
    unfolding sendToClientIfValidationFailed_def using assms(1,2)
    by (intro bounded_effects bounded_ReverseProxy bounded_prod bounded_if bounded_ret) simp_all
  then show ?thesis
  proof (rule bounded_andThen)
    fix k' i :: nat and x :: "bool \<times> client_writer"
    assume "case x of (sent, w) \<Rightarrow> sent \<or> 0 < k'"
    then show "bounded (f x) k' i Q" using assms(3,4) by (cases x; cases "fst x") auto
  qed
qed

text \<open>An entry that is passed over takes two steps, one that is used at most five and one request.\<close>

lemma bounded_reuseOrValidate:
  assumes "5 \<le> k" and "0 < j"
  shows "bounded (reuseOrValidate a env w r ce) k j
    (\<lambda>k' j' (reason, r', w'). reason \<noteq> [] \<longrightarrow> k' + 2 = k \<and> j' = j \<and> req_method r' = req_method r)"
proof -
  define Q where "Q = (\<lambda>k' j' (reason :: FwdReason, r' :: request, w' :: client_writer).
     reason \<noteq> [] \<longrightarrow> k' + 2 = k \<and> j' = j \<and> req_method r' = req_method r)"
  have Q: "Q k' i ([], r', w')" "Q (k - 1 - 1) j (reason, client_after r v, w')" "Q (k - 1 - 1) j (reason, r, w')"
    for k' i reason r' v w'
    using assms(1) by (auto simp: Q_def client_after_def split: option.splits)
  have hit: "bounded (case res of None \<Rightarrow> panic
      | Some stored \<Rightarrow> andThen (sendStoredResponse env w stored ce cs) (\<lambda>w. ret ([], r', w))) k' i Q"
    if "0 < k'" for res w cs r' k' i
    using that by (cases res) (simp_all add: bounded_panic bounded_sendStoredResponse bounded_ret Q)
  have v: "bounded (andThen (sendToClientIfValidationFailed a env w r' v) (\<lambda>(sent, w).
        if sent then ret ([], r', w) else case res of None \<Rightarrow> panic
      | Some stored \<Rightarrow> andThen (sendStoredResponse env w stored ce cs) (\<lambda>w. ret ([], r', w)))) (k - 1 - 1) j Q"
    for res cs r' v
    using assms by (intro bounded_validation) (simp_all add: bounded_ret Q(1) hit)
  have fwd: "cs_fwd_reason (Hit empty_status) = []" by (simp add: Hit_def empty_status_def)
  have "bounded (reuseOrValidate a env w r ce) k j Q"
    unfolding reuseOrValidate_def Let_def fwd
  proof (intro bounded_lift_result bounded_effects, goal_cases)
    case (3 res nowL nowA d)
    show ?case
    proof (cases d)
      case (ReuseErr e)
      then show ?thesis by (simp only: reuse_result.case) (rule bounded_ret, rule Q)
    next
      case (Reuse reason val)
      have "0 < k - 1 - 1" using assms(1) by simp
      then show ?thesis
        unfolding Reuse reuse_result.case by (cases val) (simp_all only: option.case v hit bounded_if bounded_ret Q)
    qed
  qed (use assms(1) in simp_all)
  then show ?thesis by (simp only: Q_def)
qed

lemma bounded_serve_entries:
  "\<not> UnsafeRequest r \<Longrightarrow> 2 * length ces + 6 \<le> k \<Longrightarrow> 0 < j \<Longrightarrow> bounded (serve_entries a env w r ces) k j ends"
proof (induction ces arbitrary: k r w)
  case Nil
  then show ?case by (simp add: bounded_proxy)
next
  case (Cons ce ces)
  have "bounded (reuseOrValidate a env w r ce) k j
      (\<lambda>k' j' (reason, r', w'). reason \<noteq> [] \<longrightarrow> k' + 2 = k \<and> j' = j \<and> req_method r' = req_method r)"
    using Cons.prems by (intro bounded_reuseOrValidate) simp_all
  then show ?case
    unfolding serve_entries.simps
  proof (rule bounded_andThen, clarify)
    fix k' j' reason and r' :: request and w' :: client_writer
    assume "reason \<noteq> [] \<longrightarrow> k' + 2 = k \<and> j' = j \<and> req_method r' = req_method r"
    then show "bounded (if reason = [] then ret w' else serve_entries a env w' r' ces) k' j' ends"
      using Cons.prems by (auto simp: UnsafeRequest_def intro!: bounded_ret Cons.IH)
  qed
qed

lemma length_All: "sqlite_laws eng \<Longrightarrow> length (fst (All eng fault t p)) \<le> length t"
proof -
  assume eng: "sqlite_laws eng"
  have "length (fst (scan_entries [] rows)) \<le> length rows" for rows
    by (cases "list_all timed_row rows") (simp_all add: scan_entries_timed scan_entries_untimed length_takeWhile_le)
  also have "length (like_rows eng t p) \<le> length (eng_scan eng t)" by (simp add: like_rows_def)
  also have "\<dots> = length t" using eng by (auto simp: sqlite_laws_def intro: mset_eq_length)
  finally show ?thesis by (auto simp: All_def split: option.splits)
qed

text \<open>The first step of a handler asks the store; what it finds there decides what follows.\<close>

definition found :: "AlwaysCache \<Rightarrow> env \<Rightarrow> system \<Rightarrow> request \<Rightarrow> CacheEntry list" where
  "found a env s r =
     (case All (en_engine env) (en_fault env (st_tick s)) (st_table s) (GetKeyPrefix (ac_keyer a) r) of
        (entries, err) \<Rightarrow> if err \<noteq> None then [] else entries)"

lemma pursues_ServeHTTP:
  assumes "pursues (ServeHTTP a env w r) ((s, s') # h) m"
  shows "pursues (serve_entries a env w (modified a r) (found a env s (modified a r))) h m
    \<and> s' = s\<lparr>st_tick := Suc (st_tick s)\<rparr>"
proof -
  have "ServeHTTP a env w r = Step (\<lambda>s. (serve_entries a env w (modified a r) (found a env s (modified a r)),
      s\<lparr>st_tick := Suc (st_tick s)\<rparr>))"
    by (simp add: ServeHTTP_def modified_def [symmetric] getResponsesForUri_def cache_All_def atomic_def
        case_prod_unfold ret_def found_def Let_def)
  with assms show ?thesis by (auto elim!: pursues_ConsE)
qed


text \<open>The steps of an action that is not interrupted.\<close>

primrec steps_alone :: "'a act \<Rightarrow> system \<Rightarrow> (system \<times> system) list" where
  "steps_alone (Done r) = (\<lambda>s. [])"
| "steps_alone (Step g) = (\<lambda>s. case map_prod steps_alone id (g s) of (continue, s') \<Rightarrow> (s, s') # continue s')"

lemma pursues_alone: "pursues m (steps_alone m s) (Done (fst (run m s)))"
proof (induction m arbitrary: s rule: act_induct)
  case (Done r)
  show ?case by (simp add: pursues.stay)
next
  case (Step g)
  have "pursues (Step g) ((s, snd (g s)) # steps_alone (fst (g s)) (snd (g s))) (Done (fst (run (fst (g s)) (snd (g s)))))"
    by (rule pursues.step [OF prod.collapse [symmetric] Step])
  then show ?case by (simp add: run_Step case_prod_unfold del: run.simps)
qed


end
