(* ===== verification/Refinement.thy ===== *)
theory Refinement
  imports Progress
begin

text \<open>
  The program as an abstract cache: a map from keys to entries that changes by single stores of
  allowed responses and single removals.  Every step of the machine of threads is a step of the
  abstract cache or leaves it alone; a response sent without the origin was in the abstract cache
  when its handler asked for it.
\<close>

section \<open>The abstract cache\<close>

type_synonym store = "string \<Rightarrow> CacheEntry option"

text \<open>An entry that may be stored: the record of a response of the origin, allowed, under its own key.\<close>

definition allowed_entry :: "AlwaysCache \<Rightarrow> env \<Rightarrow> CacheEntry \<Rightarrow> bool" where
  "allowed_entry a env e \<longleftrightarrow>
     (\<exists>rw r. origin_record env (ac_modifyResponse a) rw \<and> MustNotStore (saved_response rw r) = Inr False
        \<and> ce_Key e = entry_key a rw r \<and> ce_Bytes e = Response rw)"

inductive store_step :: "AlwaysCache \<Rightarrow> env \<Rightarrow> store \<Rightarrow> store \<Rightarrow> bool" for a env where
  idle: "store_step a env m m"
| put_entry: "allowed_entry a env e \<Longrightarrow> store_step a env m (m(ce_Key e \<mapsto> e))"
| remove: "store_step a env m (m(k := None))"

definition abs_store :: "machine \<Rightarrow> store" where
  "abs_store c = look_entry (st_table (mc_sys c))"

lemma allowed_row: "stored_row a env row \<Longrightarrow> allowed_entry a env (entry_of_row row)"
  by (auto simp: stored_row_def allowed_entry_def entry_of_row_def)

lemma look_entry_row:
  "holds (stored_row a env) K s \<Longrightarrow> look_entry (st_table s) k = Some e \<Longrightarrow> allowed_entry a env e \<and> ce_Key e = k"
  by (auto simp: holds_def look_entry_def find_row_Some list_all_iff intro: allowed_row)

lemma store_step_change:
  assumes "one_change s s'" and "holds (stored_row a env) K s'"
  shows "store_step a env (look_entry (st_table s)) (look_entry (st_table s'))"
proof -
  from assms(1) obtain k where k: "\<And>k'. k' \<noteq> k \<Longrightarrow> look_entry (st_table s') k' = look_entry (st_table s) k'"
    unfolding one_change_def look_entry_def by metis
  have eq: "look_entry (st_table s') = (look_entry (st_table s))(k := look_entry (st_table s') k)"
    using k by auto
  show ?thesis
  proof (cases "look_entry (st_table s') k")
    case None
    with eq show ?thesis using store_step.remove [of a env "look_entry (st_table s)" k] by simp
  next
    case (Some e)
    then have "allowed_entry a env e" "ce_Key e = k" using look_entry_row [OF assms(2)] by auto
    with eq Some show ?thesis using store_step.put_entry [of a env e "look_entry (st_table s)"] by simp
  qed
qed

section \<open>The refinement\<close>

lemma store_step_thread:
  assumes "safe_act a env (Step g)" and "holds (stored_row a env) (recorded_task a env) s" and "g s = (m, s')"
  shows "store_step a env (look_entry (st_table s)) (look_entry (st_table s'))"
  using safe_act_step [OF assms] by (blast intro: store_step_change)

lemma initial_store: "abs_store initial = Map.empty"
  by (simp add: abs_store_def initial_def start_def look_entry_def find_row_def fun_eq_iff)

lemma step_refines:
  assumes "reachable a env c" and "machine_step a env c c'"
  shows "store_step a env (abs_store c) (abs_store c')"
proof -
  have safe: "safe_machine a env c" using assms(1) by (rule reachable_safe)
  from assms(2) show ?thesis
  proof cases
    case (client_step ts r t0 asked g us m s)
    with safe have "safe_act a env (Step g)" "holds (stored_row a env) (recorded_task a env) (mc_sys c)"
      by (simp_all add: safe_machine_def)
    with client_step show ?thesis using store_step_thread by (simp add: abs_store_def)
  next
    case (routine_step ts g us m s)
    with safe have "safe_act a env (Step g)" "holds (stored_row a env) (recorded_task a env) (mc_sys c)"
      by (simp_all add: safe_machine_def)
    with routine_step show ?thesis using store_step_thread by (simp add: abs_store_def)
  next
    case (loop_step ts g us m s)
    with safe have "safe_act a env (Step g)" "holds (stored_row a env) (recorded_task a env) (mc_sys c)"
      by (simp_all add: safe_machine_def)
    with loop_step show ?thesis using store_step_thread by (simp add: abs_store_def)
  qed (simp_all add: abs_store_def restart_def store_step.idle)
qed



section \<open>Answers come from the store as it is\<close>

text \<open>What an action returns that has sent nothing, whatever happened between its steps.\<close>

lemma silent_pursues:
  "pursues m h m' \<Longrightarrow> silent P m Q \<Longrightarrow> list_all (\<lambda>(s, s'). P s \<and> st_sent s' = st_sent s) h \<Longrightarrow> silent P m' Q"
proof (induction rule: pursues.induct)
  case (step g s m s' h m')
  then show ?case using silent_step [of P g Q s m s'] by simp
qed

text \<open>C4. A response that is sent without asking the origin comes from an entry that is in the store when the
  handler asks for it, in its first step, and that may be reused; stores and removals by other
  threads from then on make no difference to it.\<close>

theorem answer_from_current_store:
  assumes "sqlite_laws (en_engine env)" and "keeps_header a" and "plain_upgrade a (modified a r)"
    and "pursues (ServeHTTP a env new_client r) ((s, s') # h) (Done (Returns w))"
    and "list_all (\<lambda>(s1, s2). st_tick s \<le> st_tick s1 \<and> st_sent s2 = st_sent s1) h"
    and "wf_table (st_table s)"
  shows "\<exists>ce. look_entry (st_table s) (ce_Key ce) = Some ce
     \<and> direct_hit a env (st_tick s) new_client (modified a r) ce w"
proof -
  let ?r = "modified a r" and ?ces = "found a env s (modified a r)"
  have "silent (\<lambda>s1. st_tick s \<le> st_tick s1) (Done (Returns w))
      (\<lambda>w. \<exists>ce. List.member ?ces ce \<and> direct_hit a env (st_tick s) new_client ?r ce w)"
    using pursues_ServeHTTP [OF assms(4), THEN conjunct1] silent_serve_entries [OF assms(2,3)] assms(5)
    by (rule silent_pursues)
  then obtain ce where ce: "List.member ?ces ce" "direct_hit a env (st_tick s) new_client ?r ce w"
    by auto
  have "set (fst (All (en_engine env) fault (st_table s) p)) \<subseteq> set (fst (All (en_engine env) None (st_table s) p))" for fault p
    by (auto simp: All_def split: option.splits if_splits)
  with ce(1) have "List.member (fst (All (en_engine env) None (st_table s) (GetKeyPrefix (ac_keyer a) ?r))) ce"
    by (fastforce simp: found_def case_prod_unfold split: if_splits)
  then show ?thesis using db.all_sound [OF assms(1,6)] ce(2) by auto
qed

theorem answer_from_current_store_witness:
  "\<exists>ce w. fst demo_again = Returns w \<and> look_entry (st_table (snd demo_stored)) (ce_Key ce) = Some ce
     \<and> direct_hit (demo_cache False) (demo_env demo_origin) (st_tick (snd demo_stored)) new_client
          (modified (demo_cache False) (demo_request ''GET'' [])) ce w \<and> cw_body w = ''hello''"
proof -
  let ?a = "demo_cache False" and ?env = "demo_env demo_origin" and ?r = "demo_request ''GET'' []"
  let ?m = "ServeHTTP ?a ?env new_client ?r" and ?s = "snd demo_stored"
  have m: "modified ?a ?r = ?r" by (simp add: modified_def demo_cache_def CreateCache_def Let_def)
  have u: "plain_upgrade ?a (modified ?a ?r)" unfolding m by code_simp
  have l: "list_all (\<lambda>(s1, s2). st_tick ?s \<le> st_tick s1 \<and> st_sent s2 = st_sent s1) (steps_alone ?m ?s)
      \<and> steps_alone ?m ?s \<noteq> []" by code_simp
  then obtain s' h where h: "steps_alone ?m ?s = (?s, s') # h"
    by (cases ?m) (auto simp: case_prod_unfold)
  obtain w s2 where d: "demo_again = (Returns w, s2)" and b: "cw_body w = ''hello''"
    using demo_hit by (auto split: prod.splits go_result.splits)
  have w: "fst demo_again = Returns w" unfolding d by (rule fst_conv)
  have p: "pursues ?m ((?s, s') # h) (Done (Returns w))"
    using pursues_alone [of ?m ?s] w by (simp only: h demo_again_def)
  obtain answers where c: "reachable ?a ?env \<lparr>mc_sys = ?s, mc_threads = [], mc_answers = answers\<rparr>"
    using demo_reachable by blast
  have t: "wf_table (st_table ?s)" using reachable_safe [OF c] by (simp add: safe_machine_def holds_def)
  have "list_all (\<lambda>(s1, s2). st_tick ?s \<le> st_tick s1 \<and> st_sent s2 = st_sent s1) h" using l h by simp
  from answer_from_current_store [OF demo_env_simps(1) keeps_header_demo u p this t] w b show ?thesis by blast
qed

end
