(* ===== verification/CommandLine.thy ===== *)
theory CommandLine
  imports Server
begin

text \<open>
  The start of the program: the flags and the configuration of \<^verbatim>\<open>cmd/always-cache/main.go\<close> and the
  opening of the database, \<^verbatim>\<open>NewSQLiteCache\<close> of \<^verbatim>\<open>cache/cache-provider.go\<close>.  What the database files
  hold, whether statements fail, whether the log file opens and whether the port can be listened
  on are parameters.  Set-up of logging is left out but for the failure to open its file.
\<close>

section \<open>Opening the database\<close>

text \<open>
  \<open>files\<close> gives the table \<open>cache\<close> of a database, \<open>None\<close> where the database has no such table yet.
  Opening and the three statements may each fail; the table is created only if there is none.
\<close>

definition NewSQLiteCache :: "(string \<Rightarrow> table option) \<Rightarrow> (nat \<Rightarrow> sql_error option) \<Rightarrow> string \<Rightarrow> table go_result" where
  "NewSQLiteCache files fault filename =
     (let filename = (if filename = [] then ''file::memory:?cache=shared'' else filename)
      in if fault 0 \<noteq> None then Panic
         else let created = (case files filename of None \<Rightarrow> [] | Some t \<Rightarrow> t)
              in if fault 1 \<noteq> None then Panic
                 else if fault 2 \<noteq> None then Panic
                 else if fault 3 \<noteq> None then Panic
                 else Returns created)"

section \<open>Flags\<close>

record Flags =
  portFlag :: int
  originFlag :: string
  addrFlag :: string
  hostFlag :: string
  dbFilenameFlag :: string
  legacyModeFlag :: bool
  verbosityTraceFlag :: bool
  logFilenameFlag :: string

definition default_flags :: Flags where
  "default_flags = \<lparr>portFlag = 8080, originFlag = [], addrFlag = [], hostFlag = [],
     dbFilenameFlag = ''cache.db'', legacyModeFlag = False, verbosityTraceFlag = False, logFilenameFlag = []\<rparr>"

text \<open>The flags by name, with what setting them changes, as \<^verbatim>\<open>init\<close> declares them.\<close>

datatype flag_var =
    StringVar "string \<Rightarrow> Flags \<Rightarrow> Flags"
  | IntVar "int \<Rightarrow> Flags \<Rightarrow> Flags"
  | BoolVar "bool \<Rightarrow> Flags \<Rightarrow> Flags"

definition formal_flag :: "string \<Rightarrow> flag_var option" where
  "formal_flag name =
     (if name = ''origin'' then Some (StringVar (\<lambda>v f. f\<lparr>originFlag := v\<rparr>))
      else if name = ''addr'' then Some (StringVar (\<lambda>v f. f\<lparr>addrFlag := v\<rparr>))
      else if name = ''host'' then Some (StringVar (\<lambda>v f. f\<lparr>hostFlag := v\<rparr>))
      else if name = ''port'' then Some (IntVar (\<lambda>v f. f\<lparr>portFlag := v\<rparr>))
      else if name = ''db'' then Some (StringVar (\<lambda>v f. f\<lparr>dbFilenameFlag := v\<rparr>))
      else if name = ''legacy'' then Some (BoolVar (\<lambda>v f. f\<lparr>legacyModeFlag := v\<rparr>))
      else if name = ''vv'' then Some (BoolVar (\<lambda>v f. f\<lparr>verbosityTraceFlag := v\<rparr>))
      else if name = ''log-file'' then Some (StringVar (\<lambda>v f. f\<lparr>logFilenameFlag := v\<rparr>))
      else None)"

text \<open>\<^verbatim>\<open>strconv.ParseBool\<close>.\<close>

definition ParseBool :: "string \<Rightarrow> bool option" where
  "ParseBool s =
     (if List.member [''1'', ''t'', ''T'', ''TRUE'', ''true'', ''True''] s then Some True
      else if List.member [''0'', ''f'', ''F'', ''FALSE'', ''false'', ''False''] s then Some False
      else None)"

text \<open>
  \<^verbatim>\<open>strconv.ParseInt(s, 0, 64)\<close>: a sign, a prefix for the base, digits and underscores between them.
\<close>

definition digit_of :: "char \<Rightarrow> int" where
  "digit_of c =
     (if is_digit c then int (digit_val c)
      else if is_lower (lower_byte c) then int (byte (lower_byte c)) - 87 else 36)"

fun underscores_ok :: "bool \<Rightarrow> char \<Rightarrow> string \<Rightarrow> bool" where
  "underscores_ok hex saw [] \<longleftrightarrow> saw \<noteq> CHR ''_''"
| "underscores_ok hex saw (c # cs) \<longleftrightarrow>
     (if is_digit c \<or> (hex \<and> 97 \<le> byte (lower_byte c) \<and> byte (lower_byte c) \<le> 102) then underscores_ok hex (CHR ''0'') cs
      else if c = CHR ''_'' then saw = CHR ''0'' \<and> underscores_ok hex (CHR ''_'') cs
      else saw \<noteq> CHR ''_'' \<and> underscores_ok hex (CHR ''!'') cs)"

definition base_prefix :: "string \<Rightarrow> int \<times> string" where
  "base_prefix s =
     (if HasPrefix s ''0'' then
        let c = (if 3 \<le> length s then lower_byte (s ! 1) else CHR '' '')
        in if c = CHR ''b'' then (2, drop 2 s) else if c = CHR ''o'' then (8, drop 2 s)
           else if c = CHR ''x'' then (16, drop 2 s) else (8, drop 1 s)
      else (10, s))"

definition underscoreOK :: "string \<Rightarrow> bool" where
  "underscoreOK s =
     (let c = (if 2 \<le> length s \<and> hd s = CHR ''0'' then lower_byte (s ! 1) else CHR '' '')
      in if List.member ''box'' c then underscores_ok (c = CHR ''x'') (CHR ''0'') (drop 2 s)
         else underscores_ok False (CHR ''^'') s)"

definition ParseUint0 :: "string \<Rightarrow> int option" where
  "ParseUint0 s =
     (let (base, ds) = base_prefix s; digits = filter (\<lambda>c. c \<noteq> CHR ''_'') ds;
          n = foldl (\<lambda>a c. base * a + digit_of c) 0 digits
      in if s = [] \<or> \<not> list_all (\<lambda>c. digit_of c < base) digits
            \<or> (List.member ds (CHR ''_'') \<and> \<not> underscoreOK s) \<or> 2 ^ 64 \<le> n then None else Some n)"

definition ParseInt0 :: "string \<Rightarrow> int option" where
  "ParseInt0 s =
     (let neg = HasPrefix s ''-'';
          ds = (if neg \<or> HasPrefix s ''+'' then tl s else s)
      in case ParseUint0 ds of None \<Rightarrow> None
         | Some n \<Rightarrow> if neg then (if n > 9223372036854775808 then None else Some (- n))
                    else (if n > 9223372036854775807 then None else Some n))"

text \<open>
  \<^verbatim>\<open>flag.Parse\<close> with \<^verbatim>\<open>ExitOnError\<close>: the first argument that is no flag, or two dashes, end the flags; an
  error ends the process with status 2, a request for help with status 0.
\<close>

datatype flag_step = FlagsDone | FlagExit int | FlagSet Flags "string list"

definition parse_one :: "Flags \<Rightarrow> string list \<Rightarrow> flag_step" where
  "parse_one f args =
     (case args of
        [] \<Rightarrow> FlagsDone
      | s # rest \<Rightarrow>
          if length s < 2 \<or> hd s \<noteq> CHR ''-'' then FlagsDone
          else if s = ''--'' then FlagsDone
          else
            let name = (if s ! 1 = CHR ''-'' then drop 2 s else drop 1 s);
                eq = takeWhile (\<lambda>c. c \<noteq> CHR ''='') name;
                hasValue = (CHR ''='' \<in> set name);
                value = drop (Suc (length eq)) name
            in if name = [] \<or> hd name = CHR ''-'' \<or> hd name = CHR ''='' then FlagExit 2
               else case formal_flag eq of
                      None \<Rightarrow> FlagExit (if eq = ''help'' \<or> eq = ''h'' then 0 else 2)
                    | Some (BoolVar upd) \<Rightarrow>
                        if hasValue then
                          (case ParseBool value of None \<Rightarrow> FlagExit 2 | Some b \<Rightarrow> FlagSet (upd b f) rest)
                        else FlagSet (upd True f) rest
                    | Some (IntVar upd) \<Rightarrow>
                        if \<not> hasValue \<and> rest = [] then FlagExit 2
                        else (case ParseInt0 (if hasValue then value else hd rest) of None \<Rightarrow> FlagExit 2
                              | Some i \<Rightarrow> FlagSet (upd i f) (if hasValue then rest else tl rest))
                    | Some (StringVar upd) \<Rightarrow>
                        if \<not> hasValue \<and> rest = [] then FlagExit 2
                        else FlagSet (upd (if hasValue then value else hd rest) f) (if hasValue then rest else tl rest))"

lemma parse_one_shorter: "parse_one f args = FlagSet f' rest \<Longrightarrow> length rest < length args"
  by (auto simp: parse_one_def Let_def split: list.splits if_splits option.splits flag_var.splits)

function flag_Parse :: "Flags \<Rightarrow> string list \<Rightarrow> int + Flags" where
  "flag_Parse f args =
     (case parse_one f args of
        FlagsDone \<Rightarrow> Inr f
      | FlagExit status \<Rightarrow> Inl status
      | FlagSet f' rest \<Rightarrow> flag_Parse f' rest)"
  by pat_completeness auto
termination
  by (relation "measure (\<lambda>(f, args). length args)") (auto simp: parse_one_shorter)

declare flag_Parse.simps [simp del]

section \<open>The main function\<close>

text \<open>
  How a start ends: the process exits with a status, panics, or serves the port with a
  configuration and a table.  \<^verbatim>\<open>log.Fatal\<close> exits with status 1.
\<close>

datatype startup = Exits int | Panics | Serves Config table string

definition origin_config :: "Flags \<Rightarrow> Config option" where
  "origin_config f =
     (let config = \<lparr>cfg_OriginURL = empty_url, cfg_OriginHost = [], cfg_RequestModifier = None,
                    cfg_ResponseModifier = None, cfg_DisableUpdates = legacyModeFlag f\<rparr>
      in if originFlag f \<noteq> [] then
           (case url_Parse (originFlag f) of None \<Rightarrow> None
            | Some originUrl \<Rightarrow> Some (config\<lparr>cfg_OriginURL := originUrl\<rparr>))
         else if addrFlag f \<noteq> [] then
           (case url_Parse (''https://'' @ addrFlag f) of None \<Rightarrow> None
            | Some originUrl \<Rightarrow> Some (config\<lparr>cfg_OriginURL := originUrl, cfg_OriginHost := hostFlag f\<rparr>))
         else None)"

definition main ::
    "(string \<Rightarrow> bool) \<Rightarrow> (string \<Rightarrow> bool) \<Rightarrow> (string \<Rightarrow> table option) \<Rightarrow> (nat \<Rightarrow> sql_error option) \<Rightarrow> string list \<Rightarrow> startup" where
  "main opens_log listens files fault args =
     (case flag_Parse default_flags args of
        Inl status \<Rightarrow> Exits status
      | Inr f \<Rightarrow>
          if logFilenameFlag f \<noteq> [] \<and> \<not> opens_log (logFilenameFlag f) then Exits 1
          else
            let dbFilename = (if dbFilenameFlag f = ''memory'' then ''file::memory:?cache=shared'' else dbFilenameFlag f)
            in case NewSQLiteCache files fault dbFilename of
                 Panic \<Rightarrow> Panics
               | Returns t \<Rightarrow>
                   (case origin_config f of
                      None \<Rightarrow> Exits 1
                    | Some config \<Rightarrow>
                        let address = '':'' @ show_int (portFlag f)
                        in if listens address then Serves config t address else Panics))"

section \<open>Flags are read back\<close>

text \<open>A port as it is printed is read by \<^verbatim>\<open>ParseInt\<close>.\<close>

lemma digit_of_char: "n < 10 \<Longrightarrow> digit_of (digit_char n) = int n"
  by (simp add: digit_of_def digit_char_digit)

lemma digits_no_mark: "is_digit c \<Longrightarrow> c \<noteq> CHR ''_'' \<and> digit_of c < 10 \<and> c \<noteq> CHR ''-'' \<and> c \<noteq> CHR ''+''"
  by (auto simp: is_digit_def byte_def digit_of_def digit_val_def)

lemma fold_show_nat: "foldl (\<lambda>a c. 10 * a + digit_of c) 0 (show_nat n) = int n"
proof (induction n rule: show_nat.induct)
  case (1 n)
  have "10 * int (n div 10) + int (n mod 10) = int n" by presburger
  with 1 show ?case
    by (subst show_nat.simps) (simp add: digit_of_char)
qed

lemma hd_show_nat: "0 < n \<Longrightarrow> hd (show_nat n) \<noteq> CHR ''0''"
proof (induction n rule: show_nat.induct)
  case (1 n)
  show ?case
  proof (cases "n < 10")
    case True
    have "digit_of (CHR ''0'') = 0" by code_simp
    with True 1(2) digit_of_char [of n] show ?thesis by (subst show_nat.simps) auto
  next
    case False
    with 1 show ?thesis by (subst show_nat.simps) simp
  qed
qed

lemma ParseUint0_show_nat: "int n < 2 ^ 64 \<Longrightarrow> ParseUint0 (show_nat n) = Some (int n)"
proof (cases "n = 0")
  case True
  then show ?thesis by (simp add: show_nat.simps [of 0]) code_simp
next
  case False
  assume n: "int n < 2 ^ 64"
  have d: "list_all is_digit (show_nat n)" using show_nat_digits by (auto simp: list_all_iff)
  have "\<not> HasPrefix (show_nat n) ''0''"
    using hd_show_nat [of n] False by (auto simp: HasPrefix_def prefix_def)
  then have "base_prefix (show_nat n) = (10, show_nat n)" by (simp add: base_prefix_def)
  moreover have "filter (\<lambda>c. c \<noteq> CHR ''_'') (show_nat n) = show_nat n"
    using d digits_no_mark by (auto simp: list_all_iff intro!: filter_True)
  moreover have "CHR ''_'' \<notin> set (show_nat n)" "list_all (\<lambda>c. digit_of c < 10) (show_nat n)"
    using d digits_no_mark by (auto simp: list_all_iff)
  ultimately show ?thesis using n by (simp add: ParseUint0_def fold_show_nat)
qed

lemma ParseInt0_show_int: "in_int64 i \<Longrightarrow> ParseInt0 (show_int i) = Some i"
proof -
  assume i: "in_int64 i"
  have "\<not> HasPrefix (show_nat n) ''-'' \<and> \<not> HasPrefix (show_nat n) ''+''" for n
    using digits_no_mark show_nat_digits [of _ n] by (cases "show_nat n") (auto simp: HasPrefix_def)
  then show ?thesis
    using i ParseUint0_show_nat [of "nat i"] ParseUint0_show_nat [of "nat (- i)"]
    by (auto simp: ParseInt0_def show_int_def in_int64_def HasPrefix_def Let_def)
qed

text \<open>The arguments that set every flag.\<close>

definition show_bool :: "bool \<Rightarrow> string" where
  "show_bool b = (if b then ''true'' else ''false'')"

definition flag_args :: "Flags \<Rightarrow> string list" where
  "flag_args f =
     [''-origin='' @ originFlag f, ''-addr='' @ addrFlag f, ''-host='' @ hostFlag f,
      ''-port='' @ show_int (portFlag f), ''-db='' @ dbFilenameFlag f,
      ''-legacy='' @ show_bool (legacyModeFlag f), ''-vv='' @ show_bool (verbosityTraceFlag f),
      ''-log-file='' @ logFilenameFlag f]"

lemma parse_one_value:
  assumes "name \<noteq> []" and "CHR ''='' \<notin> set name" and "hd name \<noteq> CHR ''-''"
  shows "parse_one f ((CHR ''-'' # name @ CHR ''='' # value) # rest) =
     (case formal_flag name of
        None \<Rightarrow> FlagExit (if name = ''help'' \<or> name = ''h'' then 0 else 2)
      | Some (BoolVar upd) \<Rightarrow> (case ParseBool value of None \<Rightarrow> FlagExit 2 | Some b \<Rightarrow> FlagSet (upd b f) rest)
      | Some (IntVar upd) \<Rightarrow> (case ParseInt0 value of None \<Rightarrow> FlagExit 2 | Some i \<Rightarrow> FlagSet (upd i f) rest)
      | Some (StringVar upd) \<Rightarrow> FlagSet (upd value f) rest)"
proof -
  have "takeWhile (\<lambda>c. c \<noteq> CHR ''='') (name @ CHR ''='' # value) = name"
    using assms(2) by (subst takeWhile_append2) auto
  moreover obtain c cs where "name = c # cs" "c \<noteq> CHR ''-''" "c \<noteq> CHR ''=''"
    using assms by (cases name) auto
  ultimately show ?thesis
    by (simp add: parse_one_def Let_def split: option.splits flag_var.splits)
qed

lemma ParseBool_show: "ParseBool (show_bool b) = Some b"
  by (simp add: ParseBool_def show_bool_def)

text \<open>C29. Every setting of the flags can be given on the command line, and is read back from it.\<close>

theorem flag_Parse_roundtrip:
  assumes "in_int64 (portFlag f)"
  shows "flag_Parse g (flag_args f @ ''--'' # rest) = Inr f"
proof -
  note one = parse_one_value [of "''origin''"] parse_one_value [of "''addr''"] parse_one_value [of "''host''"]
    parse_one_value [of "''port''"] parse_one_value [of "''db''"] parse_one_value [of "''legacy''"]
    parse_one_value [of "''vv''"] parse_one_value [of "''log-file''"]
  show ?thesis
    by (simp add: flag_args_def one [simplified] flag_Parse.simps formal_flag_def ParseBool_show
        ParseInt0_show_int [OF assms] parse_one_def)
qed

theorem flag_Parse_roundtrip_witness:
  "flag_Parse default_flags (flag_args (default_flags\<lparr>portFlag := - 1, dbFilenameFlag := ''memory''\<rparr>) @ [''--'', ''-port=x''])
     = Inr (default_flags\<lparr>portFlag := - 1, dbFilenameFlag := ''memory''\<rparr>)"
proof -
  let ?f = "default_flags\<lparr>portFlag := - 1, dbFilenameFlag := ''memory''\<rparr>"
  have "in_int64 (portFlag ?f)" by (simp add: in_int64_def)
  from flag_Parse_roundtrip [OF this, of default_flags "[''-port=x'']"] show ?thesis by simp
qed

end
