(* ===== verification/Deployment.thy ===== *)
theory Deployment
  imports CommandLine WriteAndReuse
begin

text \<open>
  The flags and the server together: where the requests of a process go that was started with given
  flags, and what processes share that use the same database.
\<close>

section \<open>Where requests go\<close>

lemma setPath_scheme: "setPath v p = Some w \<Longrightarrow> u_scheme w = u_scheme v"
  by (auto simp: setPath_def Let_def split: option.splits if_splits)

lemma setFragment_scheme: "setFragment v p = Some w \<Longrightarrow> u_scheme w = u_scheme v"
  by (auto simp: setFragment_def Let_def split: option.splits if_splits)

lemma parse_url_scheme:
  assumes "parse_url raw = Some u" and "getScheme raw = Some (scheme, rest)" and "raw \<noteq> ''*''"
  shows "u_scheme u = ToLower scheme"
  using assms
  by (auto simp: parse_url_def Let_def case_prod_unfold split: if_splits option.splits dest!: setPath_scheme)

lemma https_scheme:
  assumes "url_Parse (''https://'' @ addr) = Some u"
  shows "u_scheme u = ''https''"
proof -
  obtain b f where cut: "(case Cut (''https://'' @ addr) ''#'' of None \<Rightarrow> (''https://'' @ addr, []) | Some (a, f) \<Rightarrow> (a, f))
      = (''https://'' @ b, f)"
    by (cases "Cut addr ''#''") (auto simp: HasPrefix_def)
  have "getScheme (''https://'' @ b) = Some (''https'', ''//'' @ b)"
    by (simp add: getScheme_def is_lower_def is_upper_def is_digit_def byte_def)
  moreover obtain v where v: "parse_url (''https://'' @ b) = Some v"
    and u: "u = v \<or> setFragment v f = Some u"
    using assms unfolding url_Parse_def cut by (auto simp: Let_def split: option.splits if_splits)
  moreover have "ToLower ''https'' = ''https''" by code_simp
  ultimately have "u_scheme v = ''https''" using parse_url_scheme by simp
  with u show ?thesis using setFragment_scheme by auto
qed

text \<open>C17. A process that serves was given an origin: the URL of the flag \<^verbatim>\<open>-origin\<close>, or else the address of
  the flag \<^verbatim>\<open>-addr\<close>, contacted by TLS.  Every request goes to that host, with its own method, path
  and body; the Host header and the TLS server name are those of the flag \<^verbatim>\<open>-host\<close>, which counts only
  beside \<^verbatim>\<open>-addr\<close>.\<close>

theorem served_requests:
  assumes "main opens_log listens files fault args = Serves config t address"
    and "flag_Parse default_flags args = Inr f" and "u_host (cfg_OriginURL config) \<noteq> []"
  shows "url_Parse (if originFlag f \<noteq> [] then originFlag f else ''https://'' @ addrFlag f) = Some (cfg_OriginURL config)
     \<and> (let host = (if originFlag f = [] \<and> hostFlag f \<noteq> [] then hostFlag f else u_host (cfg_OriginURL config));
            a = fst (CreateCache config); r' = outgoing a r
        in req_host r' = host \<and> u_host (req_url r') = u_host (cfg_OriginURL config)
           \<and> u_scheme (req_url r') = (if originFlag f \<noteq> [] then u_scheme (cfg_OriginURL config) else ''https'')
           \<and> ac_server_name a = (if originFlag f = [] then hostFlag f else [])
           \<and> u_path (req_url r') = u_path (req_url r) \<and> u_raw_query (req_url r') = u_raw_query (req_url r)
           \<and> req_method r' = req_method r \<and> req_body r' = req_body r)"
proof -
  have "origin_config f = Some config"
    using assms(1,2) by (auto simp: main_def Let_def split: if_splits go_result.splits option.splits)
  then show ?thesis
    using assms(3) https_scheme
    by (auto simp: origin_config_def CreateCache_def createDirector_def outgoing_def Let_def split: if_splits option.splits)
qed

theorem served_requests_witness:
  "\<exists>config. main (\<lambda>_. True) (\<lambda>_. True) (\<lambda>_. None) (\<lambda>_. None) [''-addr'', ''10.0.0.1'', ''--host=h''] = Serves config [] '':8080''
     \<and> req_host (outgoing (fst (CreateCache config)) (demo_request ''GET'' [])) = ''h''"
proof -
  have f: "flag_Parse default_flags [''-addr'', ''10.0.0.1'', ''--host=h''] =
      Inr (default_flags\<lparr>addrFlag := ''10.0.0.1'', hostFlag := ''h''\<rparr>)" by code_simp
  obtain config where m: "main (\<lambda>_. True) (\<lambda>_. True) (\<lambda>_. None) (\<lambda>_. None) [''-addr'', ''10.0.0.1'', ''--host=h'']
      = Serves config [] '':8080''" and h: "u_host (cfg_OriginURL config) = ''10.0.0.1''"
  proof -
    have "case main (\<lambda>_. True) (\<lambda>_. True) (\<lambda>_. None) (\<lambda>_. None) [''-addr'', ''10.0.0.1'', ''--host=h''] of
        Serves config t address \<Rightarrow> t = [] \<and> address = '':8080'' \<and> u_host (cfg_OriginURL config) = ''10.0.0.1''
      | _ \<Rightarrow> False" by code_simp
    then show thesis using that by (auto split: startup.splits)
  qed
  have "u_host (cfg_OriginURL config) \<noteq> []" using h by simp
  from served_requests [OF m f this, of "demo_request ''GET'' []"] m show ?thesis
    by (auto simp: Let_def default_flags_def)
qed

text \<open>The way to start that the README shows is refused: there is no flag of that name.\<close>

lemma readme_usage: "main opens_log listens files fault [''--downstream'', ''http://localhost:8081'', ''--port'', ''8080''] = Exits 2"
proof -
  have "flag_Parse default_flags [''--downstream'', ''http://localhost:8081'', ''--port'', ''8080''] = Inl 2"
    by code_simp
  then show ?thesis by (simp add: main_def)
qed

section \<open>A database that is used again\<close>

text \<open>A process that is started on the database of an earlier one finds all its entries.\<close>

lemma reopened:
  "(\<And>n. fault n = None) \<Longrightarrow> db \<noteq> [] \<Longrightarrow> NewSQLiteCache (files(db \<mapsto> t)) fault db = Returns t"
  by (simp add: NewSQLiteCache_def)

lemma writeCache_keyer:
  assumes "ac_keyer a = ac_keyer b"
  shows "writeCache a env rw r = writeCache b env rw r"
proof -
  have "entry_key a = entry_key b" using assms by (simp add: entry_key_def fun_eq_iff)
  then show ?thesis by (simp only: writeCache_def)
qed

text \<open>C18. The key of an entry names the origin by its address only.  Two processes for different hosts behind
  the same address (as \<^verbatim>\<open>-host\<close> is meant for) that use the same database answer requests for the
  one host with what the other has sent: an entry that the first has written is, while fresh, sent
  by the second as a hit.\<close>

theorem other_host_is_served:
  assumes "originFlag f = []" and "g = f\<lparr>hostFlag := host\<rparr>"
    and "origin_config f = Some c" and "origin_config g = Some d"
    and "a = fst (CreateCache c)" and "b = fst (CreateCache d)"
    and "sqlite_laws (en_engine env)" and "wf_table (st_table s)"
    and "wf_keyer (ac_keyer a)" and "wf_key_request r" and "server_url (req_url r)"
    and "clean_record rw r body" and "run (writeCache a env rw r) s = (Returns (True, err), s1)"
    and "ce = to_seconds (new_entry a env rw r s)"
    and "usable (en_zones env) (en_clock env (st_tick s2)) (en_clock env (Suc (st_tick s2))) r rw ce"
  shows "(hostFlag f \<noteq> host \<longrightarrow> ac_server_name a \<noteq> ac_server_name b)
     \<and> List.member (fst (All (en_engine env) None (st_table s1) (GetKeyPrefix (ac_keyer b) r))) ce
     \<and> (\<exists>w s3. run (reuseOrValidate b env new_client r ce) s2 = (Returns ([], r, w), s3)
          \<and> st_sent s3 = st_sent s2 \<and> map_option fst (cw_sent w) = Some (rs_status rw)
          \<and> cw_body w = (if body_allowed (rs_status rw) then body else []))"
proof -
  obtain u where "c = \<lparr>cfg_OriginURL = u, cfg_OriginHost = hostFlag f, cfg_RequestModifier = None,
      cfg_ResponseModifier = None, cfg_DisableUpdates = legacyModeFlag f\<rparr>" "d = c\<lparr>cfg_OriginHost := host\<rparr>"
    using assms(1-4) by (auto simp: origin_config_def Let_def split: if_splits option.splits)
  then have k: "ac_keyer b = ac_keyer a" and n: "ac_server_name a = hostFlag f" "ac_server_name b = host"
    using assms(5,6) by (simp_all add: CreateCache_def Let_def)
  have w: "run (writeCache b env rw r) s = (Returns (True, err), s1)"
    using assms(13) writeCache_keyer [OF k] by simp
  have ce: "ce = to_seconds (new_entry b env rw r s)"
    using assms(14) k by (simp add: new_entry_def entry_key_def)
  show ?thesis
    using written_entry_reused [OF assms(7,8) assms(9) [folded k] assms(10-12) w ce assms(15)] n by fastforce
qed

theorem other_host_is_served_witness:
  "\<exists>c d ce w s. origin_config (default_flags\<lparr>addrFlag := ''10.0.0.1'', hostFlag := ''h''\<rparr>) = Some c
     \<and> origin_config (default_flags\<lparr>addrFlag := ''10.0.0.1'', hostFlag := ''i''\<rparr>) = Some d
     \<and> ac_server_name (fst (CreateCache c)) \<noteq> ac_server_name (fst (CreateCache d))
     \<and> run (reuseOrValidate (fst (CreateCache d)) (demo_env demo_origin) new_client (demo_request ''GET'' []) ce) start
         = (Returns ([], demo_request ''GET'' [], w), s) \<and> cw_body w = ''hello''"
proof -
  let ?f = "default_flags\<lparr>addrFlag := ''10.0.0.1'', hostFlag := ''h''\<rparr>" and ?env = "demo_env demo_origin"
  let ?g = "?f\<lparr>hostFlag := ''i''\<rparr>" and ?r = "demo_request ''GET'' []"
  let ?c = "\<lparr>cfg_OriginURL = empty_url\<lparr>u_scheme := ''https'', u_host := ''10.0.0.1''\<rparr>, cfg_OriginHost = ''h'',
      cfg_RequestModifier = None, cfg_ResponseModifier = None, cfg_DisableUpdates = False\<rparr>"
  have "url_Parse (''https://'' @ ''10.0.0.1'') = Some (empty_url\<lparr>u_scheme := ''https'', u_host := ''10.0.0.1''\<rparr>)"
    by code_simp
  then have c: "origin_config ?f = Some ?c" and d: "origin_config ?g = Some (?c\<lparr>cfg_OriginHost := ''i''\<rparr>)"
    by (simp_all add: origin_config_def default_flags_def)
  let ?a = "fst (CreateCache ?c)" and ?b = "fst (CreateCache (?c\<lparr>cfg_OriginHost := ''i''\<rparr>))"
  have o: "originFlag ?f = []" and ne: "hostFlag ?f \<noteq> ''i''" by (simp_all add: default_flags_def)
  have k: "wf_keyer (ac_keyer ?a)"
    by (simp add: CreateCache_def Let_def) (rule wf_keyer_New, code_simp)
  obtain s1 where w: "run (writeCache ?a ?env demo_saver ?r) start = (Returns (True, None), s1)"
    using writeCache_stores [OF demo_storable demo_env_simps(2)] by blast
  have b: "(if body_allowed (rs_status demo_saver) then ''hello'' else []) = ''hello''"
    by (simp add: demo_saver_def body_allowed_def)
  obtain w s3 where "ac_server_name ?a \<noteq> ac_server_name ?b"
    "run (reuseOrValidate ?b ?env new_client ?r (to_seconds (new_entry ?a ?env demo_saver ?r start))) start
       = (Returns ([], ?r, w), s3)" "cw_body w = ''hello''"
    using other_host_is_served [OF o refl c d refl refl demo_env_simps(1) demo_start k demo_wf demo_clean w refl demo_usable, unfolded b]
      ne by blast
  moreover have "?g = default_flags\<lparr>addrFlag := ''10.0.0.1'', hostFlag := ''i''\<rparr>" by simp
  ultimately show ?thesis using c d by metis
qed

end
