(* ===== verification/Lifetime.thy ===== *)
theory Lifetime
  imports Freshness GoFloat
begin

text \<open>
  \<^verbatim>\<open>TimeToLive\<close> of \<^verbatim>\<open>rfc9111/4.2.0-freshness.go\<close>: the remaining lifetime in whole seconds, computed
  in floating point, and how far it is from the exact value.
\<close>

section \<open>The error of floating point operations\<close>

lemma round_half_even_error: "\<bar>of_int (round_half_even x) - x\<bar> \<le> 1 / 2"
proof -
  have "of_int \<lfloor>x\<rfloor> \<le> x" "x < of_int \<lfloor>x\<rfloor> + 1" by linarith+
  then show ?thesis by (auto simp: round_half_even_def Let_def abs_le_iff)
qed

lemma pow2_powi: "pow2 e = 2 powi e"
  by (simp add: pow2_def power_int_def field_simps)

text \<open>Rounding to double precision changes a number by at most one part in \<open>2^53\<close>.\<close>

lemma f64_error: "\<bar>f64 x - x\<bar> \<le> \<bar>x\<bar> / 2 ^ 53"
proof (cases "x = 0")
  case False
  define e where "e = exponent \<bar>x\<bar> - 52"
  have p: "0 < pow2 e" by simp
  define k where "k = round_half_even (x / pow2 e)"
  have "\<bar>of_int k - x / pow2 e\<bar> * pow2 e \<le> 1 / 2 * pow2 e"
    unfolding k_def by (rule mult_right_mono [OF round_half_even_error less_imp_le [OF p]])
  moreover have "(of_int k - x / pow2 e) * pow2 e = of_int k * pow2 e - x"
    using less_imp_neq [OF p] by (simp add: left_diff_distrib)
  then have "\<bar>of_int k - x / pow2 e\<bar> * pow2 e = \<bar>of_int k * pow2 e - x\<bar>"
    using abs_mult_pos [OF less_imp_le [OF p], of "of_int k - x / pow2 e"] by simp
  ultimately have "\<bar>f64 x - x\<bar> \<le> pow2 e / 2"
    using False by (simp only: f64_def Let_def e_def [symmetric] k_def [symmetric] if_False)
  moreover have "pow2 (e + 52) = pow2 e * 2 ^ 52"
    using pow2_powi [of e] pow2_powi [of "e + 52"] by (simp add: power_int_add)
  moreover have "pow2 (e + 52) \<le> \<bar>x\<bar>" using False pow2_le_exponent [of "\<bar>x\<bar>"] by (simp add: e_def)
  ultimately show ?thesis by (simp add: field_simps)
qed simp

text \<open>The seconds of a duration, with the sign in front.\<close>

definition count_seconds :: "int \<Rightarrow> rat" where
  "count_seconds i = f64 (of_int (i div ns_per_second) + f64 (of_int (i mod ns_per_second) / of_int ns_per_second))"

lemma f64_minus: "f64 (- x) = - f64 x"
proof -
  have r: "round_half_even (- y) = - round_half_even y" for y
  proof (cases "y = of_int \<lfloor>y\<rfloor>")
    case True
    then show ?thesis by (metis of_int_minus round_half_even_int)
  next
    case False
    have le: "of_int \<lfloor>y\<rfloor> \<le> y" "y < of_int \<lfloor>y\<rfloor> + 1" by linarith+
    then have "\<lfloor>- y\<rfloor> = - \<lfloor>y\<rfloor> - 1" using False by (intro floor_unique) (simp_all add: order_less_le)
    then show ?thesis using le False by (auto simp: round_half_even_def Let_def)
  qed
  show ?thesis using r [of "x / pow2 (exponent \<bar>x\<bar> - 52)"] by (simp add: f64_def Let_def)
qed

lemma Duration_Seconds_count:
  "Duration_Seconds d = of_int (sgn (sint d)) * count_seconds \<bar>sint d\<bar>"
proof -
  have w: "\<bar>sint d\<bar> \<le> 2 ^ 63" using sint_in_int64 [of d] by (simp add: in_int64_def abs_le_iff)
  have s: "f64 (of_int (\<bar>sint d\<bar> div ns_per_second)) = of_int (\<bar>sint d\<bar> div ns_per_second)"
    by (rule f64_int) (use w in simp_all)
  have m: "f64 (of_int (\<bar>sint d\<bar> mod ns_per_second)) = of_int (\<bar>sint d\<bar> mod ns_per_second)"
    by (rule f64_int) (simp_all add: order_less_trans [OF pos_mod_bound])
  consider "sint d = 0" | "sgn (sint d) = 1" | "sgn (sint d) = - 1" by (metis sgn_0_0 sgn_if)
  then show ?thesis
  proof cases
    case 1
    then show ?thesis by (simp add: Duration_Seconds_def)
  next
    case 2
    then show ?thesis
      by (simp only: Duration_Seconds_def Let_def count_seconds_def s m mult_1 of_int_1)
  next
    case 3
    then show ?thesis
      by (simp only: Duration_Seconds_def Let_def count_seconds_def mult_minus1 of_int_minus of_int_1 f64_minus s m
          minus_divide_left [symmetric] minus_add_distrib [symmetric])
  qed
qed

lemma count_seconds_error:
  assumes "0 \<le> i" and "i \<le> 2 ^ 63"
  shows "\<bar>count_seconds i - of_int i / 1000000000\<bar> \<le> 1 / 262144" and "\<bar>count_seconds i\<bar> \<le> 17179869184"
proof -
  define q m where "q = i div ns_per_second" and "m = i mod ns_per_second"
  define fr mr qr :: rat where "fr = f64 (of_int m / of_int ns_per_second)"
    and "mr = of_int m / 1000000000" and "qr = of_int q"
  have m: "0 \<le> m" "m < ns_per_second" by (simp_all add: m_def)
  have "0 \<le> q" "q \<le> 9223372036"
    using assms zdiv_mono1 [OF assms(2), of ns_per_second] by (simp_all add: q_def pos_imp_zdiv_nonneg_iff)
  then have q: "0 \<le> qr" "qr \<le> 9223372036" by (simp_all add: qr_def)
  have i: "(of_int i :: rat) / 1000000000 = qr + mr"
  proof -
    have "i = ns_per_second * q + m" by (simp only: q_def m_def mult_div_mod_eq)
    then have "(of_int i :: rat) = of_int ns_per_second * of_int q + of_int m"
      by (simp only: of_int_add of_int_mult)
    then show ?thesis by (simp add: field_simps qr_def mr_def)
  qed
  have frac: "0 \<le> mr" "mr \<le> 1" using m by (simp_all add: mr_def)
  have "\<bar>fr - mr\<bar> \<le> \<bar>mr\<bar> / 2 ^ 53" using f64_error [of mr] by (simp add: fr_def mr_def)
  also have "\<dots> \<le> 1 / 2 ^ 53" using frac by (intro divide_right_mono) simp_all
  finally have e1: "\<bar>fr - mr\<bar> \<le> 1 / 9007199254740992" by simp
  have b: "0 \<le> fr" "fr \<le> 1"
    using f64_between [of 0 mr] frac by (simp_all add: fr_def mr_def)
  have c: "count_seconds i = f64 (qr + fr)"
    by (simp only: count_seconds_def q_def [symmetric] m_def [symmetric] fr_def qr_def)
  have "\<bar>count_seconds i - (qr + fr)\<bar> \<le> \<bar>qr + fr\<bar> / 2 ^ 53" unfolding c by (rule f64_error)
  also have "\<dots> \<le> 9223372037 / 2 ^ 53" using b q by (intro divide_right_mono) simp_all
  finally have e2: "\<bar>count_seconds i - (qr + fr)\<bar> \<le> 9223372037 / 9007199254740992" by simp
  from e1 e2 show "\<bar>count_seconds i - of_int i / 1000000000\<bar> \<le> 1 / 262144" unfolding i by linarith
  from e2 b q show "\<bar>count_seconds i\<bar> \<le> 17179869184" by linarith
qed

section \<open>The time to live\<close>

text \<open>\<^verbatim>\<open>math.Round\<close>: the nearest whole number, halves away from zero.\<close>

definition math_Round :: "rat \<Rightarrow> int" where
  "math_Round x = (if x < 0 then - \<lfloor>- x + 1 / 2\<rfloor> else \<lfloor>x + 1 / 2\<rfloor>)"

definition TimeToLive :: "zones \<Rightarrow> time \<Rightarrow> time \<Rightarrow> response \<Rightarrow> time \<Rightarrow> time \<Rightarrow> int" where
  "TimeToLive tz nowL nowA res responseTime requestTime =
     (let lifetime = freshness_lifetime tz nowL res;
          age = current_age tz nowA res responseTime requestTime
      in math_Round (f64 (Duration_Seconds lifetime - Duration_Seconds age)))"

lemma math_Round_error: "\<bar>of_int (math_Round x) - x\<bar> \<le> 1 / 2"
proof -
  have "of_int \<lfloor>y + 1 / 2\<rfloor> \<le> y + 1 / 2" "y + 1 / 2 < of_int \<lfloor>y + 1 / 2\<rfloor> + 1" for y :: rat
    by linarith+
  note r = this [of x] this [of "- x"]
  show ?thesis
  proof (cases "x < 0")
    case True
    then have "(of_int (math_Round x) :: rat) = - of_int \<lfloor>- x + 1 / 2\<rfloor>" by (simp add: math_Round_def)
    then show ?thesis using r by linarith
  next
    case False
    then have "(of_int (math_Round x) :: rat) = of_int \<lfloor>x + 1 / 2\<rfloor>" by (simp add: math_Round_def)
    then show ?thesis using r by linarith
  qed
qed

lemma Duration_Seconds_error:
  "\<bar>Duration_Seconds d - of_int (sint d) / 1000000000\<bar> \<le> 1 / 262144" "\<bar>Duration_Seconds d\<bar> \<le> 17179869184"
proof -
  have "\<bar>sint d\<bar> \<le> 2 ^ 63" using sint_in_int64 [of d] by (simp add: in_int64_def abs_le_iff)
  note c = count_seconds_error [OF abs_ge_zero this]
  define r :: rat where "r = of_int (sint d) / 1000000000"
  have "Duration_Seconds d = 0 \<and> r = 0 \<or> Duration_Seconds d = count_seconds \<bar>sint d\<bar> \<and> of_int \<bar>sint d\<bar> / 1000000000 = r
      \<or> Duration_Seconds d = - count_seconds \<bar>sint d\<bar> \<and> of_int \<bar>sint d\<bar> / 1000000000 = - r"
    by (cases "sint d" "0 :: int" rule: linorder_cases) (simp_all add: Duration_Seconds_count r_def)
  then show "\<bar>Duration_Seconds d - of_int (sint d) / 1000000000\<bar> \<le> 1 / 262144" "\<bar>Duration_Seconds d\<bar> \<le> 17179869184"
    using c unfolding r_def [symmetric] by (elim disjE; linarith)+
qed

text \<open>C30. The time to live is the freshness lifetime minus the current age, to the nearest second but for
  the error of four roundings in double precision, which is below a ten-thousandth of a second; so it
  is positive only for a fresh response, and not negative for one.\<close>

theorem TimeToLive_nearest:
  "\<bar>TimeToLive tz nowL nowA res rt qt * ns_per_second
      - (sint (freshness_lifetime tz nowL res) - sint (current_age tz nowA res rt qt))\<bar> \<le> 500050000
   \<and> (0 < TimeToLive tz nowL nowA res rt qt \<longrightarrow> isFresh tz nowL nowA res rt qt)
   \<and> (isFresh tz nowL nowA res rt qt \<longrightarrow> 0 \<le> TimeToLive tz nowL nowA res rt qt)"
proof -
  let ?L = "freshness_lifetime tz nowL res" and ?A = "current_age tz nowA res rt qt"
  define t where "t = TimeToLive tz nowL nowA res rt qt"
  define d where "d = Duration_Seconds ?L - Duration_Seconds ?A"
  define l a :: rat where "l = of_int (sint ?L) / 1000000000" and "a = of_int (sint ?A) / 1000000000"
  note e = Duration_Seconds_error [of ?L, folded l_def] Duration_Seconds_error [of ?A, folded a_def]
  have "\<bar>f64 d - d\<bar> \<le> \<bar>d\<bar> / 2 ^ 53" by (rule f64_error)
  also have "\<dots> \<le> 34359738368 / 2 ^ 53" using e unfolding d_def by (intro divide_right_mono) (linarith, simp)
  finally have "\<bar>f64 d - d\<bar> \<le> 1 / 262144" by simp
  moreover have "\<bar>of_int t - f64 d\<bar> \<le> 1 / 2"
    using math_Round_error [of "f64 d"] by (simp add: t_def TimeToLive_def Let_def d_def)
  ultimately have "\<bar>of_int t - (l - a)\<bar> \<le> 131075 / 262144"
    using e unfolding d_def by linarith
  moreover have "of_int (t * ns_per_second - (sint ?L - sint ?A)) = (of_int t - (l - a)) * 1000000000"
    by (simp add: l_def a_def field_simps)
  moreover have "\<bar>y\<bar> \<le> 500050000" if "\<bar>x\<bar> \<le> 131075 / 262144" "y = x * 1000000000" for x y :: rat
    using that by linarith
  ultimately have "\<bar>of_int (t * ns_per_second - (sint ?L - sint ?A))\<bar> \<le> (500050000 :: rat)"
    by blast
  then have "\<bar>t * ns_per_second - (sint ?L - sint ?A)\<bar> \<le> 500050000"
    by (metis of_int_abs of_int_le_iff of_int_numeral)
  then show ?thesis
    unfolding t_def [symmetric] isFresh_def word_sless_sint by arith
qed

theorem TimeToLive_nearest_witness:
  "isFresh utc_zones 784111800000000000 784111800000000000
     (plain_response 200 [(''Date'', [''Sun, 06 Nov 1994 08:49:37 GMT'']), (''Cache-Control'', [''max-age=60''])])
     784111777000000000 784111776000000000
   \<and> TimeToLive utc_zones 784111800000000000 784111800000000000
     (plain_response 200 [(''Date'', [''Sun, 06 Nov 1994 08:49:37 GMT'']), (''Cache-Control'', [''max-age=60''])])
     784111777000000000 784111776000000000 = 36"
proof -
  let ?r = "plain_response 200 [(''Date'', [''Sun, 06 Nov 1994 08:49:37 GMT'']), (''Cache-Control'', [''max-age=60''])]"
  let ?t = "TimeToLive utc_zones 784111800000000000 784111800000000000 ?r 784111777000000000 784111776000000000"
  have l: "sint (freshness_lifetime utc_zones 784111800000000000 ?r) = 60000000000" by code_simp
  have a: "sint (current_age utc_zones 784111800000000000 ?r 784111777000000000 784111776000000000) = 24000000000"
    by code_simp
  note t = TimeToLive_nearest [of utc_zones 784111800000000000 784111800000000000 ?r 784111777000000000 784111776000000000]
  then have "?t = 36" unfolding l a by linarith
  with t show ?thesis by simp
qed

end
