(* ===== verification/Serializer.thy ===== *)
theory Serializer
  imports Tee
begin

text \<open>
  Reading of serialised responses, \<^verbatim>\<open>pkg/response-serializer/response.go\<close>: a request and a response
  as HTTP/1.1 bytes with a separator between them, the times of both in two extra header fields.
  Reading a request is \<^verbatim>\<open>http.ReadRequest\<close> of Go 1.19.
\<close>

section \<open>Reading a request\<close>

text \<open>The rules for the length of the body that differ from those for a response.\<close>

definition fixLength_request :: "string \<Rightarrow> header \<Rightarrow> bool \<Rightarrow> (int \<times> header) option" where
  "fixLength_request method h chunked =
     (case dedup_length h of
        None \<Rightarrow> None
      | Some h \<Rightarrow>
          if method = ''HEAD'' then
            (if List.member [[], [''0'']] (hdr_Values h ''Content-Length'') then Some (0, h) else None)
          else if chunked then Some (- 1, h)
          else let cl = TrimString (hdr_Get h ''Content-Length'')
               in if cl \<noteq> [] then map_option (\<lambda>n. (n, h)) (parseContentLength cl)
                  else Some (0, hdr_Del h ''Content-Length''))"

definition readTransfer_request :: "string \<Rightarrow> header \<Rightarrow> string \<Rightarrow> (header \<times> string) option" where
  "readTransfer_request method h input =
     (case parseTransferEncoding h of
        None \<Rightarrow> None
      | Some (chunked, h1) \<Rightarrow>
          (case fixLength_request method h1 chunked of
             None \<Rightarrow> None
           | Some (realLength, h2) \<Rightarrow>
               map_option
                 (\<lambda>h3. (h3, if chunked then decode_chunked input
                            else if realLength > 0 then take (nat realLength) input else []))
                 (fixTrailer h2 chunked)))"

definition parseRequestLine :: "string \<Rightarrow> (string \<times> string \<times> string) option" where
  "parseRequestLine line =
     (case Cut line '' '' of
        None \<Rightarrow> None
      | Some (method, rest) \<Rightarrow> map_option (\<lambda>(uri, proto). (method, uri, proto)) (Cut rest '' ''))"

text \<open>\<^verbatim>\<open>url.ParseRequestURI\<close>: an absolute URI, a path, or an asterisk.\<close>

definition ParseRequestURI :: "string \<Rightarrow> url option" where
  "ParseRequestURI raw =
     (if raw = [] \<or> list_ex ctl_byte raw then None
      else if raw = ''*'' then parse_url raw
      else case getScheme raw of
             None \<Rightarrow> None
           | Some (scheme, rest) \<Rightarrow>
               if HasPrefix (fst (cut_query rest)) ''/'' then
                 (if scheme = [] \<and> HasPrefix rest ''//'' then
                    setPath (empty_url\<lparr>u_force_query := fst (snd (cut_query rest)),
                        u_raw_query := snd (snd (cut_query rest))\<rparr>) (fst (cut_query rest))
                  else parse_url raw)
               else if scheme \<noteq> [] then parse_url raw
               else None)"

definition ReadRequest :: "string \<Rightarrow> request option" where
  "ReadRequest bytes =
     (case read_line bytes of
        None \<Rightarrow> None
      | Some (line, rest) \<Rightarrow>
          (case parseRequestLine line of
             None \<Rightarrow> None
           | Some (method, uri, proto) \<Rightarrow>
               if \<not> valid_method method \<or> \<not> ParseHTTPVersion proto then None
               else
                 let justAuthority = (method = ''CONNECT'' \<and> \<not> HasPrefix uri ''/'')
                 in (case ParseRequestURI (if justAuthority then ''http://'' @ uri else uri) of
                       None \<Rightarrow> None
                     | Some u \<Rightarrow>
                         (case ReadMIMEHeader rest of
                            None \<Rightarrow> None
                          | Some (h, input) \<Rightarrow>
                              if length (hdr_Values h ''Host'') > 1 then None
                              else
                                let host = (if u_host u \<noteq> [] then u_host u else hdr_Get h ''Host'')
                                in map_option
                                     (\<lambda>(h', body). \<lparr>req_method = method,
                                        req_url = (if justAuthority then u\<lparr>u_scheme := []\<rparr> else u),
                                        req_header = hdr_Del h' ''Host'', req_host = host,
                                        req_body = body, req_remote = []\<rparr>)
                                     (readTransfer_request method
                                       (drop_old_encoding proto (fixPragmaCacheControl h)) input)))))"

text \<open>\<^verbatim>\<open>http.ReadResponse\<close> where the request may be missing: then it is read as the answer to a GET.\<close>

definition some_GET :: request where
  "some_GET = \<lparr>req_method = ''GET'', req_url = empty_url, req_header = [], req_host = [], req_body = [], req_remote = []\<rparr>"

definition ReadResponse_to :: "string \<Rightarrow> request option \<Rightarrow> response option" where
  "ReadResponse_to bytes req =
     (case req of
        Some r \<Rightarrow> ReadResponse bytes r
      | None \<Rightarrow> map_option (\<lambda>res. res\<lparr>res_request := None\<rparr>) (ReadResponse bytes some_GET))"

section \<open>Reading a stored response\<close>

definition responseTimeHeaderName :: string where
  "responseTimeHeaderName = ''Acache-Response-Time''"

definition requestTimeHeaderName :: string where
  "requestTimeHeaderName = ''Acache-Request-Time''"

record TimedResponse =
  tr_Response :: response
  tr_RequestTime :: time
  tr_ResponseTime :: time

definition delim :: string where
  "delim = [CR, LF, CR, LF] @ ''----'' @ [CR, LF, CR, LF]"

text \<open>Without a separator there is no second part, and indexing it panics.\<close>

definition bytesToResponse :: "string \<Rightarrow> response option go_result" where
  "bytesToResponse b =
     (let bParts = Split b delim
      in if length bParts < 2 then Panic
         else Returns (ReadResponse_to (bParts ! 1) (ReadRequest (bParts ! 0))))"

text \<open>The error values are those of reading the response and of the two times.\<close>

datatype stored_error = ResponseError | TimeError num_error

definition BytesToStoredResponse :: "string \<Rightarrow> (stored_error + TimedResponse) go_result" where
  "BytesToStoredResponse b =
     bind_result (bytesToResponse b) (\<lambda>read. Returns (case read of
         None \<Rightarrow> Inl ResponseError
       | Some res \<Rightarrow>
           (case Atoi (hdr_Get (res_header res) responseTimeHeaderName) of
              Inl e \<Rightarrow> Inl (TimeError e)
            | Inr resTimeInt \<Rightarrow>
                (case Atoi (hdr_Get (res_header res) requestTimeHeaderName) of
                   Inl e \<Rightarrow> Inl (TimeError e)
                 | Inr reqTimeInt \<Rightarrow>
                     Inr \<lparr>tr_Response = res\<lparr>res_header :=
                             hdr_Del (hdr_Del (res_header res) responseTimeHeaderName) requestTimeHeaderName\<rparr>,
                          tr_RequestTime = from_Unix reqTimeInt,
                          tr_ResponseTime = from_Unix resTimeInt\<rparr>))))"

section \<open>Where reading panics\<close>

definition unseparated :: "string \<Rightarrow> bool" where
  "unseparated b \<longleftrightarrow> Cut b delim = None"

lemma BytesToStoredResponse_panics: "BytesToStoredResponse b = Panic \<longleftrightarrow> unseparated b"
proof -
  have "delim \<noteq> []" by (simp add: delim_def)
  then have "length (Split b delim) < 2 \<longleftrightarrow> unseparated b"
    using Split_nonempty [of _ delim] unfolding unseparated_def
    by (subst Split.simps) (auto simp: not_less Suc_le_eq split: option.splits)
  then show ?thesis by (simp add: BytesToStoredResponse_def bytesToResponse_def Let_def)
qed

text \<open>The bytes in front of a body that the saver records hold no separator.\<close>

lemma unseparated_other: "c \<noteq> CR \<Longrightarrow> unseparated (c # s) = unseparated s"
  by (simp add: unseparated_def delim_def)

lemma unseparated_others: "CR \<notin> set l \<Longrightarrow> unseparated (l @ s) = unseparated s"
  by (induction l) (auto simp: unseparated_other)

lemma LF_CR: "LF \<noteq> CR"
  by (simp add: LF_def CR_def)

lemma unseparated_break:
  assumes "s \<noteq> []" and "hd s \<noteq> CR"
  shows "unseparated (CR # LF # s) = unseparated s"
proof -
  have "\<not> prefix delim (CR # LF # s)" using assms by (cases s) (auto simp: delim_def)
  then have "unseparated (CR # LF # s) = unseparated (LF # s)"
    unfolding unseparated_def by (subst Cut.simps) simp
  then show ?thesis by (simp only: unseparated_other [OF LF_CR])
qed

lemma unseparated_header_line:
  assumes "ValidHeaderFieldName k" and "s \<noteq> []" and "hd s \<noteq> CR"
  shows "unseparated (header_line k v @ s) = unseparated s"
proof -
  have c: "CR \<notin> set (k @ '': '' @ clean_value v)"
    using assms(1) token_not_blank clean_value_no_break [of v]
    by (auto simp: ValidHeaderFieldName_def list_all_iff CR_def)
  have "header_line k v @ s = (k @ '': '' @ clean_value v) @ CR # LF # s" by (simp add: header_line_def)
  then show ?thesis by (simp only: unseparated_others [OF c] unseparated_break [OF assms(2,3)])
qed

lemma header_line_start: "ValidHeaderFieldName k \<Longrightarrow> header_line k v \<noteq> [] \<and> hd (header_line k v) \<noteq> CR"
  using token_not_blank by (cases k) (auto simp: ValidHeaderFieldName_def header_line_def)

lemma unseparated_values:
  assumes "ValidHeaderFieldName k" and "s \<noteq> []" and "hd s \<noteq> CR"
  shows "unseparated (concat (map (header_line k) vs) @ s) = unseparated s
    \<and> hd (concat (map (header_line k) vs) @ s) \<noteq> CR"
  using assms by (induction vs) (simp_all add: unseparated_header_line header_line_start)

lemma unseparated_lines:
  assumes "s \<noteq> []" and "hd s \<noteq> CR"
  shows "unseparated (header_lines kvs @ s) = unseparated s \<and> hd (header_lines kvs @ s) \<noteq> CR"
proof (induction kvs)
  case (Cons p kvs)
  obtain k vs where p: "p = (k, vs)" by (cases p)
  have "header_lines kvs @ s \<noteq> []" using assms(1) by simp
  with Cons show ?case
    using unseparated_values [of k "header_lines kvs @ s" vs] by (auto simp: header_lines_def p)
qed (use assms(2) in \<open>simp add: header_lines_def\<close>)

lemma show_int_no_break: "CR \<notin> set (show_int i)"
  using show_nat_digits [of CR] by (auto simp: show_int_def is_digit_def CR_def byte_def)

lemma unseparated_record:
  "unseparated (status_line status @ header_Write h @ LF # body) = unseparated body"
proof -
  have "CR \<notin> set (status_line status)"
    using StatusText_no_break [of status] show_int_no_break [of status] LF_CR by (auto simp: status_line_def CR_def)
  moreover have "header_Write h = header_lines (sort_key fst h)" by (simp add: header_Write_def header_lines_def)
  ultimately show ?thesis
    using unseparated_lines [of "LF # body" "sort_key fst h"] LF_CR
    by (simp add: unseparated_others unseparated_other)
qed

section \<open>What is read\<close>


definition request_example :: string where
  "request_example = ''GET /a HTTP/1.1'' @ [CR, LF] @ ''Host: h'' @ [CR, LF, CR, LF]"

definition timed_example :: header where
  "timed_example = [(''Acache-Request-Time'', [''7'']), (''Acache-Response-Time'', [''8'']), (''Content-Length'', [''3''])]"


text \<open>A separator in the body ends the response: what comes after it is lost.\<close>

lemma separator_in_body:
  "case BytesToStoredResponse (delim @ status_line 200 @ header_Write
       [(''Acache-Request-Time'', [''7'']), (''Acache-Response-Time'', [''8''])] @ LF # ''ab'' @ delim @ ''c'') of
     Returns (Inr tr) \<Rightarrow> res_body (tr_Response tr) = ''ab'' | _ \<Rightarrow> False"
  by code_simp

end
