(* ===== verification/StoredResponses.thy ===== *)
theory StoredResponses
  imports Serializer Correctness
begin

text \<open>
  \<^verbatim>\<open>getResponses\<close> of \<^verbatim>\<open>always-cache.go\<close>: the entries for a request, read by the response serializer.
  Nothing calls it; the entries that the program writes are not in the form that it reads.
\<close>

section \<open>Reading the entries for a request\<close>

text \<open>An entry that gives an error is left out.\<close>

fun read_entries :: "CacheEntry list \<Rightarrow> TimedResponse list go_result" where
  "read_entries [] = Returns []"
| "read_entries (e # es) =
     bind_result (BytesToStoredResponse (ce_Bytes e)) (\<lambda>read.
     bind_result (read_entries es) (\<lambda>responses.
     Returns (case read of Inl err \<Rightarrow> responses | Inr res \<Rightarrow> res # responses)))"

definition getResponses :: "AlwaysCache \<Rightarrow> env \<Rightarrow> request \<Rightarrow> (TimedResponse list \<times> sql_error option) act" where
  "getResponses a env r =
     andThen (cache_All env (GetKeyPrefix (ac_keyer a) r)) (\<lambda>(entries, err).
       if err = None \<and> entries \<noteq> [] then
         andThen (lift_result (read_entries entries)) (\<lambda>responses. ret (responses, None))
       else ret ([], err))"

lemma read_entries_panics: "read_entries es = Panic \<longleftrightarrow> list_ex (\<lambda>e. unseparated (ce_Bytes e)) es"
proof (induction es)
  case (Cons e es)
  show ?case
    by (cases "BytesToStoredResponse (ce_Bytes e)"; cases "read_entries es")
       (use Cons BytesToStoredResponse_panics [of "ce_Bytes e"] in auto)
qed simp



end
